(* ===== verification/Tse_Prelude.thy ===== *)
theory Tse_Prelude
  imports Main "HOL-Library.Word" "HOL-Library.Char_ord" "HOL-Library.State_Monad"
    "HOL-Library.AList" "HOL-Library.Sublist"
begin

text \<open>
  What every component shares: the machine types, the character classes of the C locale, C strings
  and their bounded copies, decimal printing and reading (the conversions of \<^verbatim>\<open>snprintf\<close>,
  \<^verbatim>\<open>sscanf\<close>, \<^verbatim>\<open>atoi\<close> and \<^verbatim>\<open>atoll\<close> the source uses), and
  the frame rules of the state monad.

  A C string is the list of its characters before the terminating NUL.  A buffer of \<open>n\<close> bytes
  therefore holds a string of at most \<open>n - 1\<close> characters.
\<close>

section \<open>Collections of facts\<close>

named_theorems cdefs \<open>definitions of the C library functions the source calls\<close>
named_theorems frame \<open>frame facts of the state monad: what a computation keeps\<close>

section \<open>Machine types\<close>

type_synonym u8 = "8 word"
type_synonym u32 = "32 word"
type_synonym u64 = "64 word"

text \<open>Signed 32-bit and 64-bit values are integers, reduced to their range where the code converts.\<close>

definition wrap32 :: "int \<Rightarrow> int" where
  "wrap32 i = (i + 2 ^ 31) mod 2 ^ 32 - 2 ^ 31"

definition wrap64 :: "int \<Rightarrow> int" where
  "wrap64 i = (i + 2 ^ 63) mod 2 ^ 64 - 2 ^ 63"

definition clamp64 :: "int \<Rightarrow> int" where
  "clamp64 i = max (- (2 ^ 63)) (min (2 ^ 63 - 1) i)"

text \<open>The conversion of a signed value to \<^verbatim>\<open>size_t\<close>, and \<^verbatim>\<open>size_t\<close> addition.\<close>

definition to_size :: "int \<Rightarrow> nat" where
  "to_size i = nat (i mod 2 ^ 64)"

definition size_add :: "nat \<Rightarrow> nat \<Rightarrow> nat" where
  "size_add a b = (a + b) mod 2 ^ 64"

lemma wrap32_id [simp]: "- (2 ^ 31) \<le> i \<Longrightarrow> i < 2 ^ 31 \<Longrightarrow> wrap32 i = i"
  by (simp add: wrap32_def)

lemma wrap64_id [simp]: "- (2 ^ 63) \<le> i \<Longrightarrow> i < 2 ^ 63 \<Longrightarrow> wrap64 i = i"
  by (simp add: wrap64_def)

lemma clamp64_id [simp]: "- (2 ^ 63) \<le> i \<Longrightarrow> i < 2 ^ 63 \<Longrightarrow> clamp64 i = i"
  by (simp add: clamp64_def)

lemma to_size_nonneg: "0 \<le> i \<Longrightarrow> i < 2 ^ 64 \<Longrightarrow> to_size i = nat i"
  by (simp add: to_size_def)

section \<open>Characters\<close>

abbreviation NUL :: char where "NUL \<equiv> CHR 0x00"
abbreviation LF :: char where "LF \<equiv> CHR 0x0A"
abbreviation CR :: char where "CR \<equiv> CHR 0x0D"
abbreviation TAB :: char where "TAB \<equiv> CHR 0x09"
abbreviation DQ :: char where "DQ \<equiv> CHR 0x22"
abbreviation BSL :: char where "BSL \<equiv> CHR 0x5C"
abbreviation CRLF :: string where "CRLF \<equiv> [CR, LF]"

abbreviation char_code :: "char \<Rightarrow> nat" where "char_code c \<equiv> of_char c"

text \<open>
  \<^verbatim>\<open>isspace\<close>, \<^verbatim>\<open>isdigit\<close>, \<^verbatim>\<open>isxdigit\<close>, \<^verbatim>\<open>toupper\<close>,
  \<^verbatim>\<open>tolower\<close> of the C locale.
\<close>

definition is_space :: "char \<Rightarrow> bool" where
  "is_space c \<longleftrightarrow> c = CHR '' '' \<or> 9 \<le> char_code c \<and> char_code c \<le> 13"

definition is_digit :: "char \<Rightarrow> bool" where
  "is_digit c \<longleftrightarrow> 48 \<le> char_code c \<and> char_code c \<le> 57"

definition is_xdigit :: "char \<Rightarrow> bool" where
  "is_xdigit c \<longleftrightarrow> is_digit c \<or> 65 \<le> char_code c \<and> char_code c \<le> 70
     \<or> 97 \<le> char_code c \<and> char_code c \<le> 102"

definition to_upper :: "char \<Rightarrow> char" where
  "to_upper c = (if 97 \<le> char_code c \<and> char_code c \<le> 122 then char_of (char_code c - 32) else c)"

definition to_lower :: "char \<Rightarrow> char" where
  "to_lower c = (if 65 \<le> char_code c \<and> char_code c \<le> 90 then char_of (char_code c + 32) else c)"

lemma char_code_of [simp]: "n < 256 \<Longrightarrow> char_code (char_of n) = n"
  by simp

lemma char_code_less [simp]: "char_code c < 256"
  by (metis nat_of_char_less_256)

lemma to_lower_idem [simp]: "to_lower (to_lower c) = to_lower c"
  by (auto simp: to_lower_def)

lemma to_upper_idem [simp]: "to_upper (to_upper c) = to_upper c"
  by (auto simp: to_upper_def)

lemma is_xdigit_to_upper [simp]: "is_xdigit (to_upper c) = is_xdigit c"
  by (auto simp: is_xdigit_def is_digit_def to_upper_def)

lemma digit_not_space [simp]: "is_digit c \<Longrightarrow> \<not> is_space c"
  by (auto simp: is_digit_def is_space_def)

lemma xdigit_not_space: "is_xdigit c \<Longrightarrow> \<not> is_space c"
  by (auto simp: is_xdigit_def is_digit_def is_space_def)

section \<open>C strings\<close>

text \<open>The string a buffer holds: what precedes its first NUL.\<close>

definition c_str :: "string \<Rightarrow> string" where
  "c_str buf = takeWhile (\<lambda>c. c \<noteq> NUL) buf"

definition is_cstr :: "string \<Rightarrow> bool" where
  "is_cstr s \<longleftrightarrow> NUL \<notin> set s"

lemma c_str_id [simp]: "is_cstr s \<Longrightarrow> c_str s = s"
  by (auto simp: c_str_def is_cstr_def takeWhile_eq_all_conv)

lemma is_cstr_c_str [simp]: "is_cstr (c_str s)"
  by (auto simp: c_str_def is_cstr_def dest: set_takeWhileD)

lemma is_cstr_append [simp]: "is_cstr (s @ t) \<longleftrightarrow> is_cstr s \<and> is_cstr t"
  by (auto simp: is_cstr_def)

lemma is_cstr_Nil [simp]: "is_cstr []"
  by (simp add: is_cstr_def)

lemma is_cstr_Cons [simp]: "is_cstr (c # s) \<longleftrightarrow> c \<noteq> NUL \<and> is_cstr s"
  by (auto simp: is_cstr_def)

lemma is_cstr_subset: "set t \<subseteq> set s \<Longrightarrow> is_cstr s \<Longrightarrow> is_cstr t"
  by (auto simp: is_cstr_def)

text \<open>
  \<^verbatim>\<open>strncpy(dst, src, n - 1); dst[n - 1] = 0\<close> and \<^verbatim>\<open>snprintf(dst, n, "%s", src)\<close> on a
  buffer of \<open>n > 0\<close> bytes both leave the longest prefix that fits.
\<close>

definition fit :: "nat \<Rightarrow> string \<Rightarrow> string" where
  "fit n s = take (n - 1) s"

lemma length_fit [simp]: "0 < n \<Longrightarrow> length (fit n s) < n"
  by (simp add: fit_def)

lemma fit_id [simp]: "length s < n \<Longrightarrow> fit n s = s"
  by (simp add: fit_def)

lemma fit_idem [simp]: "fit n (fit n s) = fit n s"
  by (simp add: fit_def)

lemma is_cstr_fit [simp]: "is_cstr s \<Longrightarrow> is_cstr (fit n s)"
  by (rule is_cstr_subset) (auto simp: fit_def dest: in_set_takeD)

lemma set_dropWhile_subset: "set (dropWhile P xs) \<subseteq> set xs"
  by (metis set_mono_suffix suffix_dropWhile)

text \<open>\<^verbatim>\<open>strchr\<close> as the split at the first occurrence: what precedes it and what follows it.\<close>

definition split_at :: "char \<Rightarrow> string \<Rightarrow> (string \<times> string) option" where
  "split_at c s = (if c \<in> set s
     then Some (takeWhile (\<lambda>x. x \<noteq> c) s, tl (dropWhile (\<lambda>x. x \<noteq> c) s)) else None)"

lemma split_at_append [simp]: "c \<notin> set s \<Longrightarrow> split_at c (s @ c # t) = Some (s, t)"
proof -
  assume c: "c \<notin> set s"
  then have "takeWhile (\<lambda>x. x \<noteq> c) (s @ c # t) = s" "dropWhile (\<lambda>x. x \<noteq> c) (s @ c # t) = c # t"
    by (auto simp: takeWhile_tail dropWhile_append takeWhile_append)
  then show ?thesis by (simp add: split_at_def)
qed

lemma split_at_None [simp]: "c \<notin> set s \<Longrightarrow> split_at c s = None"
  by (simp add: split_at_def)

lemma split_at_SomeD: "split_at c s = Some (a, b) \<Longrightarrow> s = a @ c # b \<and> c \<notin> set a"
proof -
  assume a: "split_at c s = Some (a, b)"
  then have c: "c \<in> set s" and ab: "a = takeWhile (\<lambda>x. x \<noteq> c) s" "b = tl (dropWhile (\<lambda>x. x \<noteq> c) s)"
    by (auto simp: split_at_def split: if_splits)
  from c have "dropWhile (\<lambda>x. x \<noteq> c) s \<noteq> []" by (auto simp: dropWhile_eq_Nil_conv)
  then have "dropWhile (\<lambda>x. x \<noteq> c) s = c # b"
    using hd_dropWhile [of "\<lambda>x. x \<noteq> c" s] ab(2) by (cases "dropWhile (\<lambda>x. x \<noteq> c) s") auto
  moreover have "s = takeWhile (\<lambda>x. x \<noteq> c) s @ dropWhile (\<lambda>x. x \<noteq> c) s" by simp
  ultimately show ?thesis using ab(1) by (metis (mono_tags) set_takeWhileD)
qed

text \<open>\<^verbatim>\<open>strncasecmp(s, pat, strlen(pat)) == 0\<close> and \<^verbatim>\<open>strcasecmp\<close>.\<close>

definition prefix_nocase :: "string \<Rightarrow> string \<Rightarrow> bool" where
  "prefix_nocase pat s \<longleftrightarrow> prefix (map to_lower pat) (map to_lower s)"

definition eq_nocase :: "string \<Rightarrow> string \<Rightarrow> bool" where
  "eq_nocase s t \<longleftrightarrow> map to_lower s = map to_lower t"

text \<open>\<^verbatim>\<open>strstr\<close>: the suffix that starts at the first occurrence.\<close>

fun str_str :: "string \<Rightarrow> string \<Rightarrow> string option" where
  "str_str [] pat = (if pat = [] then Some [] else None)"
| "str_str (c # s) pat = (if prefix pat (c # s) then Some (c # s) else str_str s pat)"

lemma str_str_suffix: "str_str s pat = Some t \<Longrightarrow> suffix t s \<and> prefix pat t"
  by (induction s) (auto split: if_splits intro: suffix_ConsI)

lemma str_str_length: "str_str s pat = Some t \<Longrightarrow> length t \<le> length s"
  by (auto dest!: str_str_suffix intro: suffix_length_le)

lemma str_str_None_iff: "str_str s pat = None \<longleftrightarrow> \<not> sublist pat s"
  by (induction s) (auto simp: sublist_Cons_right)

lemma str_str_first:
  assumes "\<not> sublist pat (h @ butlast pat)"
  shows "str_str (h @ pat @ t) pat = Some (pat @ t)"
  using assms
proof (induction h)
  case Nil
  then show ?case by (cases pat) simp_all
next
  case (Cons c h)
  have ne: "pat \<noteq> []" using Cons.prems by auto
  then have pat: "pat = butlast pat @ [last pat]" by simp
  have "\<not> prefix pat (c # h @ pat @ t)"
  proof
    assume p: "prefix pat (c # h @ pat @ t)"
    have "c # h @ pat @ t = (c # h @ butlast pat) @ (last pat # t)" by (subst pat) (simp del: append_butlast_last_id)
    with p have "prefix pat ((c # h @ butlast pat) @ (last pat # t))" by (simp only:)
    moreover have "length pat \<le> length (c # h @ butlast pat)" using ne by simp
    ultimately have "prefix pat (c # h @ butlast pat)" using prefix_length_prefix prefixI by blast
    then show False using Cons.prems by (auto dest: prefix_imp_sublist)
  qed
  moreover have "\<not> sublist pat (h @ butlast pat)" using Cons.prems by (auto simp: sublist_Cons_right)
  ultimately show ?case using Cons.IH by simp
qed

text \<open>\<^verbatim>\<open>strtok_r\<close> with a set of delimiters: the non-empty runs between them.\<close>

function tokens :: "(char \<Rightarrow> bool) \<Rightarrow> string \<Rightarrow> string list" where
  "tokens d s = (let t = dropWhile d s in
     if t = [] then [] else takeWhile (\<lambda>c. \<not> d c) t # tokens d (dropWhile (\<lambda>c. \<not> d c) t))"
  by pat_completeness auto
termination
proof (relation "measure (\<lambda>(d, s). length s)", goal_cases)
  case 1
  then show ?case by simp
next
  case (2 d s t)
  then have "t \<noteq> []" by simp
  moreover from 2 have "\<not> d (hd t)" using hd_dropWhile [of d s] by auto
  ultimately have "length (dropWhile (\<lambda>c. \<not> d c) t) < length t"
    by (cases t) (auto simp: le_imp_less_Suc length_dropWhile_le)
  moreover have "length t \<le> length s" using 2 by (simp add: length_dropWhile_le)
  ultimately show ?case by simp
qed

declare tokens.simps [simp del]

section \<open>Decimal numbers\<close>

definition digit_char :: "nat \<Rightarrow> char" where
  "digit_char n = char_of (48 + n)"

definition digit_value :: "char \<Rightarrow> nat" where
  "digit_value c = char_code c - 48"

fun show_nat :: "nat \<Rightarrow> string" where
  "show_nat n = (if n < 10 then [digit_char n] else show_nat (n div 10) @ [digit_char (n mod 10)])"

declare show_nat.simps [simp del]

definition show_int :: "int \<Rightarrow> string" where
  "show_int i = (if i < 0 then CHR ''-'' # show_nat (nat (- i)) else show_nat (nat i))"

text \<open>\<^verbatim>\<open>%0wd\<close> of a non-negative value.\<close>

definition show_pad :: "nat \<Rightarrow> nat \<Rightarrow> string" where
  "show_pad w n = replicate (w - length (show_nat n)) CHR ''0'' @ show_nat n"

definition digits_value :: "nat \<Rightarrow> string \<Rightarrow> nat" where
  "digits_value a s = foldl (\<lambda>v c. 10 * v + digit_value c) a s"

lemma is_digit_digit_char [simp]: "n < 10 \<Longrightarrow> is_digit (digit_char n)"
  by (simp add: is_digit_def digit_char_def)

lemma digit_value_char [simp]: "n < 10 \<Longrightarrow> digit_value (digit_char n) = n"
  by (simp add: digit_value_def digit_char_def)

lemma digits_value_simps [simp]:
  "digits_value a [] = a"
  "digits_value a (c # s) = digits_value (10 * a + digit_value c) s"
  "digits_value a (s @ t) = digits_value (digits_value a s) t"
  by (simp_all add: digits_value_def)

lemma show_nat_digits: "c \<in> set (show_nat n) \<Longrightarrow> is_digit c"
proof (induction n rule: show_nat.induct)
  case (1 n)
  then show ?case by (auto simp: show_nat.simps [of n] split: if_splits)
qed

lemma show_nat_nonempty [simp]: "show_nat n \<noteq> []"
  by (subst show_nat.simps) simp

lemma digits_value_show_nat [simp]: "digits_value 0 (show_nat n) = n"
proof (induction n rule: show_nat.induct)
  case (1 n)
  then show ?case by (auto simp: show_nat.simps [of n])
qed

lemma digits_value_replicate0 [simp]: "digits_value 0 (replicate k CHR ''0'') = 0"
  by (induction k) (auto simp: digit_value_def)

lemma digits_value_show_pad [simp]: "digits_value 0 (show_pad w n) = n"
  by (simp add: show_pad_def)

lemma show_pad_digits: "c \<in> set (show_pad w n) \<Longrightarrow> is_digit c"
  by (auto simp: show_pad_def is_digit_def dest: show_nat_digits)

lemma show_pad_nonempty [simp]: "show_pad w n \<noteq> []"
  by (simp add: show_pad_def)

lemma digit_not_NUL: "is_digit c \<Longrightarrow> c \<noteq> NUL"
  by (auto simp: is_digit_def)

lemma is_cstr_show_nat [simp]: "is_cstr (show_nat n)"
  using show_nat_digits [THEN digit_not_NUL] by (auto simp: is_cstr_def)

lemma is_cstr_show_pad [simp]: "is_cstr (show_pad w n)"
  using show_pad_digits [THEN digit_not_NUL] by (auto simp: is_cstr_def)

lemma show_nat_length: "n < 10 ^ k \<Longrightarrow> 0 < k \<Longrightarrow> length (show_nat n) \<le> k"
proof (induction k arbitrary: n)
  case 0
  then show ?case by simp
next
  case (Suc k)
  show ?case
  proof (cases "n < 10")
    case True
    then show ?thesis by (simp add: show_nat.simps [of n])
  next
    case False
    with Suc.prems have k: "0 < k" by (cases k) auto
    have "n div 10 < 10 ^ k" using Suc.prems(1) by (simp add: less_mult_imp_div_less mult.commute)
    with Suc.IH k have "length (show_nat (n div 10)) \<le> k" by blast
    with False show ?thesis by (simp add: show_nat.simps [of n])
  qed
qed

text \<open>
  Reading an integer as \<^verbatim>\<open>strtol\<close> base 10 and the \<^verbatim>\<open>%d\<close> of \<^verbatim>\<open>sscanf\<close> do: skip white
  space, an optional sign, the digits.  The result is the value and what follows the digits, or
  \<^term>\<open>None\<close> when there is no digit.
\<close>

definition read_int :: "string \<Rightarrow> (int \<times> string) option" where
  "read_int s = (let t = dropWhile is_space s;
       neg = (t \<noteq> [] \<and> hd t = CHR ''-'');
       u = (if t \<noteq> [] \<and> (hd t = CHR ''-'' \<or> hd t = CHR ''+'') then tl t else t);
       ds = takeWhile is_digit u
     in if ds = [] then None
        else Some ((if neg then - int (digits_value 0 ds) else int (digits_value 0 ds)),
                   dropWhile is_digit u))"

definition atoll :: "string \<Rightarrow> int" where
  "atoll s = (case read_int s of None \<Rightarrow> 0 | Some (v, _) \<Rightarrow> clamp64 v)"

definition atoi :: "string \<Rightarrow> int" where
  "atoi s = (case read_int s of None \<Rightarrow> 0 | Some (v, _) \<Rightarrow> wrap32 (clamp64 v))"

lemma takeWhile_all_append:
  "(\<And>c. c \<in> set ds \<Longrightarrow> P c) \<Longrightarrow> rest = [] \<or> \<not> P (hd rest) \<Longrightarrow>
   takeWhile P (ds @ rest) = ds \<and> dropWhile P (ds @ rest) = rest"
  by (induction ds) (cases rest; auto)+

lemma read_int_digits:
  assumes "ds \<noteq> []" and "\<And>c. c \<in> set ds \<Longrightarrow> is_digit c" and "rest = [] \<or> \<not> is_digit (hd rest)"
  shows "read_int (ds @ rest) = Some (int (digits_value 0 ds), rest)"
proof -
  obtain c cs where ds: "ds = c # cs" using assms(1) by (cases ds) auto
  have c: "is_digit c" using assms(2) ds by simp
  then have "\<not> is_space c" "c \<noteq> CHR ''-''" "c \<noteq> CHR ''+''"
    by (auto simp: is_digit_def is_space_def)
  then show ?thesis
    using takeWhile_all_append [of ds is_digit rest, OF assms(2,3)] ds c
    by (auto simp: read_int_def Let_def)
qed

lemma read_int_show_nat:
  "rest = [] \<or> \<not> is_digit (hd rest) \<Longrightarrow> read_int (show_nat n @ rest) = Some (int n, rest)"
  using read_int_digits [of "show_nat n" rest] show_nat_digits by simp

lemma read_int_show_pad:
  "rest = [] \<or> \<not> is_digit (hd rest) \<Longrightarrow> read_int (show_pad w n @ rest) = Some (int n, rest)"
  using read_int_digits [of "show_pad w n" rest] show_pad_digits by simp

lemma read_int_show_int: "read_int (show_int i) = Some (i, [])"
proof (cases "i < 0")
  case True
  have tw: "takeWhile is_digit (show_nat (nat (- i))) = show_nat (nat (- i))"
    "dropWhile is_digit (show_nat (nat (- i))) = []"
    using show_nat_digits by (auto simp: dropWhile_eq_Nil_conv)
  show ?thesis using True by (simp add: read_int_def show_int_def is_space_def Let_def tw del: takeWhile_eq_all_conv)
next
  case False
  then show ?thesis using read_int_show_nat [of "[]" "nat i"] by (simp add: show_int_def)
qed

lemma atoll_show_int [simp]:
  "- (2 ^ 63) \<le> i \<Longrightarrow> i < 2 ^ 63 \<Longrightarrow> atoll (show_int i) = i"
  by (simp add: atoll_def read_int_show_int)

lemma is_cstr_show_int [simp]: "is_cstr (show_int i)"
  by (simp add: show_int_def)

section \<open>The state monad\<close>

abbreviation ret :: "'a \<Rightarrow> ('s, 'a) state" where "ret \<equiv> State_Monad.return"
abbreviation gets :: "('s \<Rightarrow> 'a) \<Rightarrow> ('s, 'a) state" where
  "gets f \<equiv> State_Monad.bind State_Monad.get (\<lambda>s. State_Monad.return (f s))"
abbreviation modify :: "('s \<Rightarrow> 's) \<Rightarrow> ('s, unit) state" where
  "modify \<equiv> State_Monad.update"

text \<open>The value a computation returns, and the state it leaves.\<close>

abbreviation value_of :: "('s, 'a) state \<Rightarrow> 's \<Rightarrow> 'a" where
  "value_of m s \<equiv> fst (run_state m s)"
abbreviation poststate :: "('s, 'a) state \<Rightarrow> 's \<Rightarrow> 's" where
  "poststate m s \<equiv> snd (run_state m s)"

lemma run_state_modify [simp]: "run_state (modify f) s = ((), f s)"
  by (simp add: State_Monad.update_def)

text \<open>
  Frame reasoning: \<^term>\<open>state_io_rel R m\<close> says that every run of \<open>m\<close> relates the state before to
  the state after by \<open>R\<close>.  For a reflexive and transitive \<open>R\<close> it is closed under the monad's
  operations, so a fact about a handler follows from the facts about its steps.
\<close>

lemma io_return [frame]: "reflp R \<Longrightarrow> state_io_rel R (ret x)"
  by (auto simp: state_io_rel_def reflp_def)

lemma io_gets [frame]: "reflp R \<Longrightarrow> state_io_rel R State_Monad.get"
  by (auto simp: state_io_rel_def reflp_def)

lemma io_bind [frame]:
  "transp R \<Longrightarrow> state_io_rel R m \<Longrightarrow> (\<And>x. state_io_rel R (f x)) \<Longrightarrow>
   state_io_rel R (State_Monad.bind m f)"
  by (auto simp: state_io_rel_def split: prod.splits) (metis snd_conv transpD)

lemma io_modify: "(\<And>s. R s (f s)) \<Longrightarrow> state_io_rel R (modify f)"
  by (auto simp: state_io_rel_def)

lemma io_if [frame]:
  "state_io_rel R m \<Longrightarrow> state_io_rel R n \<Longrightarrow> state_io_rel R (if b then m else n)"
  by simp

lemma io_option [frame]:
  "state_io_rel R m \<Longrightarrow> (\<And>x. state_io_rel R (f x)) \<Longrightarrow>
   state_io_rel R (case x of None \<Rightarrow> m | Some y \<Rightarrow> f y)"
  by (cases x) auto

lemma io_prod [frame]:
  "(\<And>x y. state_io_rel R (f x y)) \<Longrightarrow> state_io_rel R (case p of (x, y) \<Rightarrow> f x y)"
  by (cases p) auto

lemma io_poststateD: "state_io_rel R m \<Longrightarrow> R s (poststate m s)"
  by (simp add: state_io_rel_def)

text \<open>
  Weakest preconditions: \<open>wp m Q s\<close> says that the run of \<open>m\<close> from \<open>s\<close> ends in a value and a state
  that satisfy \<open>Q\<close>.  Every program here ends, so this is total correctness.
\<close>

definition wp :: "('s, 'a) state \<Rightarrow> ('a \<Rightarrow> 's \<Rightarrow> bool) \<Rightarrow> 's \<Rightarrow> bool" where
  "wp m Q s = (case run_state m s of (x, t) \<Rightarrow> Q x t)"

named_theorems wps \<open>weakest preconditions of the monad's operations\<close>

text \<open>The rules are stated without the state, so that they also apply below a binder.\<close>

lemma wp_return [wps]: "wp (ret x) Q = Q x"
  by (simp add: wp_def fun_eq_iff)

lemma wp_get [wps]: "wp State_Monad.get Q = (\<lambda>s. Q s s)"
  by (simp add: wp_def fun_eq_iff)

lemma wp_set [wps]: "wp (State_Monad.set t) Q = (\<lambda>_. Q () t)"
  by (simp add: wp_def fun_eq_iff)

lemma wp_modify [wps]: "wp (modify f) Q = (\<lambda>s. Q () (f s))"
  by (simp add: wp_def fun_eq_iff)

lemma wp_bind [wps]: "wp (State_Monad.bind m f) Q = wp m (\<lambda>x. wp (f x) Q)"
  by (simp add: wp_def split_beta fun_eq_iff)

lemma wp_if [wps]: "wp (if b then m else n) Q = (if b then wp m Q else wp n Q)"
  by simp

lemma wp_Let [wps]: "wp (Let e f) Q = wp (f e) Q"
  by simp

lemma wp_option: "wp (case x of None \<Rightarrow> m | Some y \<Rightarrow> f y) Q s
  = (case x of None \<Rightarrow> wp m Q s | Some y \<Rightarrow> wp (f y) Q s)"
  by (cases x) simp_all

lemma wp_mono: "wp m P s \<Longrightarrow> (\<And>x t. P x t \<Longrightarrow> Q x t) \<Longrightarrow> wp m Q s"
  by (auto simp: wp_def split: prod.splits)

lemma wp_run: "wp m Q s \<longleftrightarrow> Q (value_of m s) (poststate m s)"
  by (simp add: wp_def split_beta)

lemma wp_io: "state_io_rel R m \<Longrightarrow> (\<And>x t. R s t \<Longrightarrow> Q x t) \<Longrightarrow> wp m Q s"
  by (auto simp: wp_def state_io_rel_def split: prod.splits) (metis snd_conv)

lemma io_wp: "(\<And>s. wp m (\<lambda>_ t. R s t) s) \<Longrightarrow> state_io_rel R m"
  by (auto simp: wp_def state_io_rel_def split_beta)

end
