(* ===== verification/Tse_Util.thy ===== *)
theory Tse_Util
  imports Tse_Prelude
begin

unbundle bit_operations_syntax

text \<open>
  \<^verbatim>\<open>c/src/util.c\<close>: Base64 and hexadecimal text, random bytes, and the small string helpers.
  A function that fills a caller's buffer and returns 0 or -1 is a function to \<open>option\<close>: \<open>None\<close> is
  the -1, \<open>Some\<close> what the buffer holds on success.
\<close>

section \<open>Base64\<close>

definition b64_table :: string where
  "b64_table = ''ABCDEFGHIJKLMNOPQRSTUVWXYZabcdefghijklmnopqrstuvwxyz0123456789+/''"

definition b64_char :: "u32 \<Rightarrow> char" where
  "b64_char v = b64_table ! unat (v AND 63)"

text \<open>The encoder's loop: one group of up to three bytes at a time, padded at the end.\<close>

fun b64_groups :: "u8 list \<Rightarrow> string" where
  "b64_groups [] = []"
| "b64_groups [a] = (let n = push_bit 16 (ucast a :: u32) in
     [b64_char (drop_bit 18 n), b64_char (drop_bit 12 n), CHR ''='', CHR ''=''])"
| "b64_groups [a, b] = (let n = push_bit 16 (ucast a :: u32) OR push_bit 8 (ucast b) in
     [b64_char (drop_bit 18 n), b64_char (drop_bit 12 n), b64_char (drop_bit 6 n), CHR ''=''])"
| "b64_groups (a # b # c # bs) =
     (let n = (push_bit 16 (ucast a :: u32) OR push_bit 8 (ucast b)) OR ucast c in
     [b64_char (drop_bit 18 n), b64_char (drop_bit 12 n), b64_char (drop_bit 6 n), b64_char n]
     @ b64_groups bs)"

definition util_base64_encode :: "u8 list \<Rightarrow> nat \<Rightarrow> string option" where
  "util_base64_encode inp outlen =
     (let need = (length inp + 2) div 3 * 4 + 1
      in if outlen < need then None else Some (b64_groups inp))"

definition b64_val :: "char \<Rightarrow> int" where
  "b64_val c = (let k = int (char_code c) in
     if 65 \<le> k \<and> k \<le> 90 then k - 65
     else if 97 \<le> k \<and> k \<le> 122 then k - 97 + 26
     else if 48 \<le> k \<and> k \<le> 57 then k - 48 + 52
     else if c = CHR ''+'' then 62
     else if c = CHR ''/'' then 63
     else -1)"

text \<open>
  The decoder's loop over the input, with the 32-bit shift register \<open>buf\<close>, the number \<open>bits\<close> of
  its bits not yet written, and the output so far.  A character outside the alphabet is skipped.
\<close>

fun b64_decode_loop :: "nat \<Rightarrow> string \<Rightarrow> u32 \<Rightarrow> nat \<Rightarrow> u8 list \<Rightarrow> u8 list option" where
  "b64_decode_loop outlen [] buf bits out = (if outlen \<le> length out then None else Some out)"
| "b64_decode_loop outlen (c # cs) buf bits out =
     (if c = CHR ''='' \<or> c = LF \<or> c = CR then b64_decode_loop outlen cs buf bits out
      else if b64_val c < 0 then b64_decode_loop outlen cs buf bits out
      else
        let buf' = push_bit 6 buf OR word_of_int (b64_val c);
            bits' = bits + 6
        in if 8 \<le> bits' then
             if outlen \<le> length out + 1 then None
             else b64_decode_loop outlen cs buf' (bits' - 8)
                    (out @ [ucast (drop_bit (bits' - 8) buf' AND 0xFF)])
           else b64_decode_loop outlen cs buf' bits' out)"

definition util_base64_decode :: "string \<Rightarrow> nat \<Rightarrow> u8 list option" where
  "util_base64_decode inp outlen = b64_decode_loop outlen inp 0 0 []"

subsection \<open>The alphabet\<close>

lemma map_b64_val_table: "map b64_val b64_table = map int [0..<64]"
  by (simp add: b64_table_def b64_val_def upt_rec)

lemma b64_val_table: "k < 64 \<Longrightarrow> b64_val (b64_table ! k) = int k"
proof -
  assume k: "k < 64"
  moreover have "length b64_table = 64" by (simp add: b64_table_def)
  ultimately have "b64_val (b64_table ! k) = map b64_val b64_table ! k" by simp
  also have "\<dots> = int k" using k by (simp add: map_b64_val_table)
  finally show ?thesis .
qed

lemma and_63_less: "unat (v AND 63 :: u32) < 64"
proof -
  have "v AND 63 = take_bit 6 v" by (simp add: take_bit_eq_mask mask_eq_exp_minus_1)
  then have "unat (v AND 63) = take_bit 6 (unat v)" by (simp add: unsigned_take_bit_eq)
  then show ?thesis by (simp add: take_bit_nat_less_exp [of 6 "unat v", simplified])
qed

lemma b64_val_char [simp]: "b64_val (b64_char v) = uint (v AND 63)"
  by (simp add: b64_char_def b64_val_table and_63_less)

lemma b64_char_not_skipped [simp]:
  "b64_char v \<noteq> CHR ''=''" "b64_char v \<noteq> LF" "b64_char v \<noteq> CR"
proof -
  have "b64_val (CHR ''='') = -1" "b64_val LF = -1" "b64_val CR = -1" by (simp_all add: b64_val_def)
  then show "b64_char v \<noteq> CHR ''=''" "b64_char v \<noteq> LF" "b64_char v \<noteq> CR"
    using b64_val_char [of v] uint_ge_0 [of "v AND 63"] by force+
qed

text \<open>The register after one more sextet, and the byte cut from it.\<close>

definition push_sextet :: "u32 \<Rightarrow> u32 \<Rightarrow> u32" where
  "push_sextet buf v = push_bit 6 buf OR (v AND 63)"

definition cut_byte :: "nat \<Rightarrow> u32 \<Rightarrow> u8" where
  "cut_byte k buf = ucast (drop_bit k buf AND 0xFF)"

lemma b64_decode_char [simp]:
  "b64_decode_loop outlen (b64_char v # cs) buf bits out =
     (if 2 \<le> bits then
        if outlen \<le> length out + 1 then None
        else b64_decode_loop outlen cs (push_sextet buf v) (bits - 2)
               (out @ [cut_byte (bits - 2) (push_sextet buf v)])
      else b64_decode_loop outlen cs (push_sextet buf v) (bits + 6) out)"
  by (simp add: Let_def push_sextet_def cut_byte_def)

lemma b64_decode_pad [simp]:
  "b64_decode_loop outlen (CHR ''='' # cs) buf bits out = b64_decode_loop outlen cs buf bits out"
  by simp

subsection \<open>Regrouping bits\<close>

text \<open>
  Four sextets pushed into the register give back the three bytes they were cut from, whatever the
  register held before.  Each is a statement on eight bits, proved bit by bit.
\<close>

definition join3 :: "u8 \<Rightarrow> u8 \<Rightarrow> u8 \<Rightarrow> u32" where
  "join3 a b c = (push_bit 16 (ucast a) OR push_bit 8 (ucast b)) OR ucast c"

lemma b64_groups_join3:
  "b64_groups [a] = [b64_char (drop_bit 18 (join3 a 0 0)), b64_char (drop_bit 12 (join3 a 0 0)),
     CHR ''='', CHR ''='']"
  "b64_groups [a, b] = [b64_char (drop_bit 18 (join3 a b 0)), b64_char (drop_bit 12 (join3 a b 0)),
     b64_char (drop_bit 6 (join3 a b 0)), CHR ''='']"
  "b64_groups (a # b # c # bs) = [b64_char (drop_bit 18 (join3 a b c)),
     b64_char (drop_bit 12 (join3 a b c)), b64_char (drop_bit 6 (join3 a b c)),
     b64_char (join3 a b c)] @ b64_groups bs"
  by (simp_all add: join3_def Let_def)

lemma less_8_cases:
  "n < 8 \<Longrightarrow> n = 0 \<or> n = 1 \<or> n = 2 \<or> n = 3 \<or> n = 4 \<or> n = 5 \<or> n = 6 \<or> n = (7::nat)"
  by arith

lemma byte_eqI: "(\<And>i. i < 8 \<Longrightarrow> bit (x :: u8) i = bit y i) \<Longrightarrow> x = y"
  by (rule bit_word_eqI) simp

lemma regroup_first:
  "cut_byte 4 (push_sextet (push_sextet buf (drop_bit 18 (join3 a b c))) (drop_bit 12 (join3 a b c))) = a"
proof (rule byte_eqI)
  fix i :: nat assume "i < 8"
  from less_8_cases [OF this]
  show "bit (cut_byte 4 (push_sextet (push_sextet buf (drop_bit 18 (join3 a b c)))
      (drop_bit 12 (join3 a b c)))) i = bit a i"
    by (elim disjE) (auto simp: cut_byte_def push_sextet_def join3_def bit_simps dest: bit_imp_le_length)
qed

lemma regroup_second:
  "cut_byte 2 (push_sextet (push_sextet buf (drop_bit 12 (join3 a b c))) (drop_bit 6 (join3 a b c))) = b"
proof (rule byte_eqI)
  fix i :: nat assume "i < 8"
  from less_8_cases [OF this]
  show "bit (cut_byte 2 (push_sextet (push_sextet buf (drop_bit 12 (join3 a b c)))
      (drop_bit 6 (join3 a b c)))) i = bit b i"
    by (elim disjE) (auto simp: cut_byte_def push_sextet_def join3_def bit_simps dest: bit_imp_le_length)
qed

lemma regroup_third:
  "cut_byte 0 (push_sextet (push_sextet buf (drop_bit 6 (join3 a b c))) (join3 a b c)) = c"
proof (rule byte_eqI)
  fix i :: nat assume "i < 8"
  from less_8_cases [OF this]
  show "bit (cut_byte 0 (push_sextet (push_sextet buf (drop_bit 6 (join3 a b c))) (join3 a b c))) i = bit c i"
    by (elim disjE) (auto simp: cut_byte_def push_sextet_def join3_def bit_simps dest: bit_imp_le_length)
qed

lemmas regroup = regroup_first regroup_second regroup_third

subsection \<open>Decoding what was encoded\<close>

lemma b64_decode_groups:
  "length out + length bs < outlen \<Longrightarrow>
   b64_decode_loop outlen (b64_groups bs) buf 0 out = Some (out @ bs)"
proof (induction bs arbitrary: buf out rule: b64_groups.induct)
  case 1
  then show ?case by simp
next
  case (2 a)
  then show ?case by (simp add: b64_groups_join3 regroup
      del: b64_groups.simps b64_decode_loop.simps(2))
next
  case (3 a b)
  then show ?case by (simp add: b64_groups_join3 regroup
      del: b64_groups.simps b64_decode_loop.simps(2))
next
  case (4 a b c bs)
  then show ?case by (simp add: b64_groups_join3 regroup
      del: b64_groups.simps b64_decode_loop.simps(2))
qed

lemma length_b64_groups: "length (b64_groups bs) = (length bs + 2) div 3 * 4"
proof (induction bs rule: b64_groups.induct)
  case (4 a b c bs)
  have "(length (a # b # c # bs) + 2) div 3 = Suc ((length bs + 2) div 3)" by simp
  with 4 show ?case by (simp add: Let_def)
qed (simp_all add: Let_def)

section \<open>Hexadecimal\<close>

definition hex_upper :: string where "hex_upper = ''0123456789ABCDEF''"
definition hex_lower :: string where "hex_lower = ''0123456789abcdef''"

definition hex_pair :: "string \<Rightarrow> u8 \<Rightarrow> string" where
  "hex_pair digits b = [digits ! unat (drop_bit 4 b AND 0xF), digits ! unat (b AND 0xF)]"

definition util_bytes_to_hex :: "u8 list \<Rightarrow> nat \<Rightarrow> string option" where
  "util_bytes_to_hex inp outlen =
     (if outlen < length inp * 2 + 1 then None else Some (concat (map (hex_pair hex_upper) inp)))"

definition util_is_hex_serial :: "string \<Rightarrow> bool" where
  "util_is_hex_serial s \<longleftrightarrow> \<not> length s < 32 \<and> list_all is_xdigit s"

section \<open>String helpers\<close>

definition util_trim :: "string \<Rightarrow> string" where
  "util_trim s = dropWhile is_space (rev (dropWhile is_space (rev s)))"

definition util_uppercase :: "string \<Rightarrow> string" where
  "util_uppercase s = map to_upper s"

definition util_strlcpy :: "string option \<Rightarrow> nat \<Rightarrow> string" where
  "util_strlcpy src sz = fit sz (case src of None \<Rightarrow> [] | Some s \<Rightarrow> s)"

lemma util_strlcpy_Some [simp]: "util_strlcpy (Some s) n = fit n s"
  by (simp add: util_strlcpy_def)

lemma nibble_less [simp]: "unat (b AND 0xF :: u8) < 16"
proof -
  have "b AND 0xF = take_bit 4 b" by (simp add: take_bit_eq_mask mask_eq_exp_minus_1)
  then have "unat (b AND 0xF) = take_bit 4 (unat b)" by (simp add: unsigned_take_bit_eq)
  then show ?thesis by (simp add: take_bit_nat_less_exp [of 4 "unat b", simplified])
qed

lemma hex_digit_xdigit:
  "k < 16 \<Longrightarrow> is_xdigit (hex_upper ! k)" "k < 16 \<Longrightarrow> is_xdigit (hex_lower ! k)"
proof -
  have "list_all is_xdigit hex_upper" "list_all is_xdigit hex_lower"
    and "length hex_upper = 16" "length hex_lower = 16"
    by (simp_all add: hex_upper_def hex_lower_def is_xdigit_def is_digit_def)
  then show "k < 16 \<Longrightarrow> is_xdigit (hex_upper ! k)" "k < 16 \<Longrightarrow> is_xdigit (hex_lower ! k)"
    by (simp_all add: list_all_length)
qed

lemma length_concat_hex [simp]: "length (concat (map (hex_pair d) bs)) = 2 * length bs"
  by (induction bs) (simp_all add: hex_pair_def)

lemma hex_upper_xdigits: "c \<in> set (concat (map (hex_pair hex_upper) bs)) \<Longrightarrow> is_xdigit c"
  by (auto simp: hex_pair_def hex_digit_xdigit)

lemma hex_lower_xdigits: "c \<in> set (concat (map (hex_pair hex_lower) bs)) \<Longrightarrow> is_xdigit c"
  by (auto simp: hex_pair_def hex_digit_xdigit)

subsection \<open>Trimming\<close>

lemma util_trim_ends:
  "util_trim s = [] \<or> \<not> is_space (hd (util_trim s)) \<and> \<not> is_space (last (util_trim s))"
proof (cases "util_trim s = []")
  case False
  let ?t = "rev (dropWhile is_space (rev s))"
  from False have "\<not> is_space (hd (util_trim s))"
    using hd_dropWhile [of is_space ?t] by (simp add: util_trim_def)
  moreover have "\<not> is_space (last (util_trim s))"
  proof -
    have suf: "suffix (util_trim s) ?t" by (simp add: util_trim_def suffix_dropWhile)
    from False have ne: "?t \<noteq> []" unfolding util_trim_def by (metis dropWhile.simps(1))
    from suf False have "last (util_trim s) = last ?t" by (metis last_appendR suffixE)
    also have "last ?t = hd (dropWhile is_space (rev s))" using ne by (simp add: last_rev)
    finally show ?thesis using ne hd_dropWhile [of is_space "rev s"] by simp
  qed
  ultimately show ?thesis by simp
qed simp

lemma util_trim_id: "s = [] \<or> \<not> is_space (hd s) \<and> \<not> is_space (last s) \<Longrightarrow> util_trim s = s"
proof (cases "s = []")
  case False
  assume "s = [] \<or> \<not> is_space (hd s) \<and> \<not> is_space (last s)"
  with False have h: "\<not> is_space (hd s)" "\<not> is_space (last s)" by auto
  from False h(2) have "dropWhile is_space (rev s) = rev s"
    by (cases "rev s") (auto simp: last_rev [symmetric])
  moreover from False h(1) have "dropWhile is_space s = s" by (cases s) auto
  ultimately show ?thesis by (simp add: util_trim_def)
qed (simp add: util_trim_def)

lemma util_trim_idem [simp]: "util_trim (util_trim s) = util_trim s"
  by (rule util_trim_id) (rule util_trim_ends)

lemma util_trim_no_space: "list_all (\<lambda>c. \<not> is_space c) s \<Longrightarrow> util_trim s = s"
  by (rule util_trim_id) (auto simp: list_all_iff)

lemma set_util_trim: "set (util_trim s) \<subseteq> set s"
  unfolding util_trim_def by (metis set_dropWhile_subset set_rev subset_trans)

lemma length_util_trim: "length (util_trim s) \<le> length s"
  unfolding util_trim_def
  by (metis (no_types) length_dropWhile_le length_rev le_trans)

lemma is_cstr_util_trim [simp]: "is_cstr s \<Longrightarrow> is_cstr (util_trim s)"
  by (rule is_cstr_subset [OF set_util_trim])

section \<open>The operating system\<close>

text \<open>
  What the process reads from the system: \<^verbatim>\<open>time(NULL)\<close> (the \<open>n\<close>-th reading),
  \<^verbatim>\<open>/dev/urandom\<close> (the \<open>n\<close>-th request for so many bytes, \<open>None\<close> when the open or a full
  read fails), and \<^verbatim>\<open>localtime_r\<close>'s offset from UTC at a time, in seconds.
\<close>

record os =
  os_time :: "nat \<Rightarrow> int"
  os_ticks :: nat
  os_urandom :: "nat \<Rightarrow> nat \<Rightarrow> u8 list option"
  os_draws :: nat
  os_utc_offset :: "int \<Rightarrow> int"

definition time_now :: "('a os_scheme, int) state" where
  "time_now = do {
     s \<leftarrow> State_Monad.get;
     State_Monad.set (s\<lparr>os_ticks := Suc (os_ticks s)\<rparr>);
     ret (os_time s (os_ticks s)) }"

definition util_random_bytes :: "nat \<Rightarrow> ('a os_scheme, u8 list option) state" where
  "util_random_bytes len = do {
     s \<leftarrow> State_Monad.get;
     State_Monad.set (s\<lparr>os_draws := Suc (os_draws s)\<rparr>);
     ret (case os_urandom s (os_draws s) len of
            None \<Rightarrow> None
          | Some bs \<Rightarrow> if length bs = len then Some bs else None) }"

definition util_random_hex :: "nat \<Rightarrow> nat \<Rightarrow> ('a os_scheme, string option) state" where
  "util_random_hex outlen nbytes =
     (if outlen < nbytes * 2 + 1 then ret None
      else if 64 < nbytes then ret None
      else do {
        r \<leftarrow> util_random_bytes nbytes;
        ret (case r of None \<Rightarrow> None | Some bs \<Rightarrow> Some (concat (map (hex_pair hex_lower) bs))) })"

definition util_random_base64 :: "nat \<Rightarrow> nat \<Rightarrow> ('a os_scheme, string option) state" where
  "util_random_base64 outlen nbytes =
     (if 64 < nbytes \<or> outlen < (nbytes + 2) div 3 * 4 + 1 then ret None
      else do {
        r \<leftarrow> util_random_bytes nbytes;
        ret (case r of None \<Rightarrow> None | Some bs \<Rightarrow> Some (b64_groups bs)) })"

lemma run_time_now [simp]:
  "run_state time_now s = (os_time s (os_ticks s), s\<lparr>os_ticks := Suc (os_ticks s)\<rparr>)"
  by (simp add: time_now_def)

lemma run_util_random_bytes [simp]:
  "run_state (util_random_bytes n) s =
     (case os_urandom s (os_draws s) n of None \<Rightarrow> None
        | Some bs \<Rightarrow> if length bs = n then Some bs else None,
      s\<lparr>os_draws := Suc (os_draws s)\<rparr>)"
  by (simp add: util_random_bytes_def)

lemma util_random_hex_Some:
  assumes "run_state (util_random_hex outlen n) s = (Some h, t)"
  shows "length h = 2 * n \<and> list_all is_xdigit h \<and> length h < outlen"
  using assms hex_lower_xdigits
  by (auto simp: util_random_hex_def list_all_iff split: if_splits option.splits)

lemma util_random_base64_Some:
  assumes "run_state (util_random_base64 outlen n) s = (Some b, t)"
  shows "length b = (n + 2) div 3 * 4 \<and> length b < outlen"
  using assms
  by (auto simp: util_random_base64_def length_b64_groups split: if_splits option.splits)

section \<open>Properties\<close>

text \<open>
  Base64 round trip: text encoded from any bytes decodes to those bytes, in any buffer with room
  for them and a NUL, and the encoder succeeds exactly when the buffer takes the padded text.
\<close>

theorem base64_round_trip:
  "(util_base64_encode bs n = None \<longleftrightarrow> n \<le> (length bs + 2) div 3 * 4)
   \<and> (util_base64_encode bs n = Some t \<longrightarrow> length t = (length bs + 2) div 3 * 4
       \<and> (length bs < m \<longrightarrow> util_base64_decode t m = Some bs))"
  using b64_decode_groups [of "[]" bs m 0]
  by (auto simp: util_base64_encode_def util_base64_decode_def length_b64_groups Let_def)

theorem base64_round_trip_witness:
  "util_base64_decode ''aGk='' 3 = Some [104, 105]"
proof -
  have "util_base64_encode [104, 105] 5 = Some ''aGk=''" by code_simp
  then show ?thesis using base64_round_trip [of "[104, 105]" 5 "''aGk=''" 3] by simp
qed

lemma nibbles_eq:
  assumes "drop_bit 4 a AND 0xF = drop_bit 4 b AND (0xF :: u8)" "a AND 0xF = b AND 0xF"
  shows "a = b"
proof (rule byte_eqI)
  fix i :: nat assume "i < 8"
  have "bit (drop_bit 4 a AND 0xF) k = bit (drop_bit 4 b AND (0xF :: u8)) k"
    "bit (a AND 0xF) k = bit (b AND (0xF :: u8)) k" for k
    using assms by simp_all
  from this [of i] this [of "i - 4"] less_8_cases [OF \<open>i < 8\<close>]
  show "bit a i = bit b i" by (elim disjE) (simp_all add: bit_simps)
qed

lemma hex_pair_inject:
  assumes d: "distinct d" "length d = 16" and eq: "hex_pair d a = hex_pair d b"
  shows "a = b"
proof (rule nibbles_eq)
  have "d ! unat (drop_bit 4 a AND 0xF) = d ! unat (drop_bit 4 b AND 0xF)"
    "d ! unat (a AND 0xF) = d ! unat (b AND 0xF)"
    using eq by (simp_all add: hex_pair_def)
  then have "unat (drop_bit 4 a AND 0xF) = unat (drop_bit 4 b AND 0xF)"
    "unat (a AND 0xF) = unat (b AND 0xF)"
    using d nibble_less by (simp_all add: nth_eq_iff_index_eq)
  then show "drop_bit 4 a AND 0xF = drop_bit 4 b AND 0xF" "a AND 0xF = b AND 0xF"
    by (simp_all only: unsigned_word_eqI)
qed

lemma hex_text_inject:
  "distinct d \<Longrightarrow> length d = 16 \<Longrightarrow>
   concat (map (hex_pair d) as) = concat (map (hex_pair d) bs) \<Longrightarrow> as = bs"
proof (induction as arbitrary: bs)
  case Nil
  then show ?case by (cases bs) (simp_all add: hex_pair_def)
next
  case (Cons a as)
  from Cons.prems(3) obtain b bs' where bs: "bs = b # bs'" by (cases bs) (simp_all add: hex_pair_def)
  have "length (hex_pair d a) = length (hex_pair d b)" by (simp add: hex_pair_def)
  with Cons.prems(3) bs have "hex_pair d a = hex_pair d b"
    "concat (map (hex_pair d) as) = concat (map (hex_pair d) bs')"
    by simp_all
  then show ?case using Cons hex_pair_inject bs by blast
qed

text \<open>
  Access tokens carry all their entropy: a token of \<open>n\<close> random bytes is \<open>2 n\<close> hexadecimal
  digits and fits its buffer, two tokens are equal only when the bytes drawn were equal, and no
  token is made when the buffer is too small or the full number of bytes could not be read.
\<close>

theorem random_hex_token:
  "(value_of (util_random_hex outlen n) s = Some h \<longrightarrow>
      length h = 2 * n \<and> list_all is_xdigit h \<and> length h < outlen
      \<and> (value_of (util_random_hex outlen n) s' = Some h \<longrightarrow>
           os_urandom s (os_draws s) n = os_urandom s' (os_draws s') n))
   \<and> (outlen \<le> 2 * n \<or> os_urandom s (os_draws s) n = None \<longrightarrow> value_of (util_random_hex outlen n) s = None)"
proof (intro conjI impI)
  have d: "distinct hex_lower" "length hex_lower = 16" by (simp_all add: hex_lower_def)
  assume h: "value_of (util_random_hex outlen n) s = Some h"
  then have "run_state (util_random_hex outlen n) s = (Some h, poststate (util_random_hex outlen n) s)"
    by (simp add: prod_eq_iff)
  then show "length h = 2 * n" "list_all is_xdigit h" "length h < outlen"
    using util_random_hex_Some by blast+
  assume h': "value_of (util_random_hex outlen n) s' = Some h"
  from h h' show "os_urandom s (os_draws s) n = os_urandom s' (os_draws s') n"
    using hex_text_inject [OF d]
    by (fastforce simp: util_random_hex_def split: if_splits option.splits)
qed (auto simp: util_random_hex_def)

definition sample_os :: os where
  "sample_os = \<lparr>os_time = (\<lambda>_. 0), os_ticks = 0, os_urandom = (\<lambda>_ _. Some [0, 255]), os_draws = 0,
     os_utc_offset = (\<lambda>_. 3600)\<rparr>"

theorem random_hex_token_witness:
  "value_of (util_random_hex 64 2) sample_os = Some ''00ff'' \<and> length ''00ff'' = 2 * (2::nat)"
proof -
  have "value_of (util_random_hex 64 2) sample_os = Some ''00ff''"
    by (simp add: sample_os_def util_random_hex_def hex_pair_def hex_lower_def)
  then show ?thesis using random_hex_token [of 64 2 sample_os "''00ff''" sample_os] by blast
qed

end
