(* ===== verification/Tse_Json.thy ===== *)
theory Tse_Json
  imports Tse_Util
begin

text \<open>
  \<^verbatim>\<open>c/src/json.c\<close>: the field lookup the handlers read request bodies with, and the escaping the
  responses are built with.  Both work on C strings and on a caller's buffer of \<open>outlen\<close> bytes.
\<close>

section \<open>The code\<close>

text \<open>
  \<^verbatim>\<open>find_key\<close> looks for the quoted key, each \<^verbatim>\<open>strstr\<close> restarted one character after the
  last match, until a match is followed by a colon; the result is the text after the colon.
\<close>

fun find_key_from :: "string \<Rightarrow> string \<Rightarrow> string option" where
  "find_key_from pattern [] = None"
| "find_key_from pattern (c # s) =
     (if prefix pattern (c # s) then
        (let rest = dropWhile is_space (drop (length pattern) (c # s))
         in if rest \<noteq> [] \<and> hd rest = CHR '':'' then Some (tl rest)
            else find_key_from pattern s)
      else find_key_from pattern s)"

definition find_key :: "string \<Rightarrow> string \<Rightarrow> string option" where
  "find_key json key = find_key_from (fit 128 (DQ # key @ [DQ])) json"

text \<open>The copy of a quoted value; \<open>room\<close> is what the buffer still takes before its NUL.\<close>

fun json_copy :: "nat \<Rightarrow> string \<Rightarrow> string" where
  "json_copy room [] = []"
| "json_copy room (c # s) =
     (if c = DQ \<or> room = 0 then []
      else if c = BSL then (case s of [] \<Rightarrow> c # json_copy (room - 1) s
                                    | d # s' \<Rightarrow> d # json_copy (room - 1) s')
      else c # json_copy (room - 1) s)"

definition json_bare_end :: "char \<Rightarrow> bool" where
  "json_bare_end c \<longleftrightarrow> c = CHR '','' \<or> c = CHR ''}'' \<or> c = CHR '']'' \<or> is_space c"

definition json_get_string :: "string \<Rightarrow> string \<Rightarrow> nat \<Rightarrow> string option" where
  "json_get_string json key outlen =
     (if outlen = 0 then None
      else case find_key json key of
        None \<Rightarrow> None
      | Some after \<Rightarrow>
          (let val = dropWhile is_space after in
           if val \<noteq> [] \<and> hd val = DQ then Some (json_copy (outlen - 1) (tl val))
           else if prefix ''null'' val then Some []
           else (let out = take (outlen - 1) (takeWhile (\<lambda>c. \<not> json_bare_end c) val)
                 in if out = [] then None else Some out)))"

definition json_esc :: "char \<Rightarrow> string option" where
  "json_esc c =
     (if c = DQ then Some [BSL, DQ]
      else if c = BSL then Some [BSL, BSL]
      else if c = LF then Some [BSL, CHR ''n'']
      else if c = CR then Some [BSL, CHR ''r'']
      else if c = TAB then Some [BSL, CHR ''t'']
      else None)"

fun json_escape_loop :: "nat \<Rightarrow> string \<Rightarrow> string \<Rightarrow> string option" where
  "json_escape_loop outlen [] out = (if outlen \<le> length out then None else Some out)"
| "json_escape_loop outlen (c # s) out =
     (case json_esc c of
        None \<Rightarrow> if outlen \<le> length out + 1 then None else json_escape_loop outlen s (out @ [c])
      | Some e \<Rightarrow> if outlen \<le> length out + length e then None
                  else json_escape_loop outlen s (out @ e))"

definition json_escape :: "string \<Rightarrow> nat \<Rightarrow> string option" where
  "json_escape inp outlen = json_escape_loop outlen inp []"

section \<open>Escaping\<close>

text \<open>The escaped text without a buffer limit.\<close>

definition esc_char :: "char \<Rightarrow> string" where
  "esc_char c = (case json_esc c of None \<Rightarrow> [c] | Some e \<Rightarrow> e)"

definition esc_text :: "string \<Rightarrow> string" where
  "esc_text s = concat (map esc_char s)"

lemma esc_text_simps [simp]:
  "esc_text [] = []" "esc_text (c # s) = esc_char c @ esc_text s"
  by (simp_all add: esc_text_def)

lemma length_esc_char: "1 \<le> length (esc_char c) \<and> length (esc_char c) \<le> 2"
  by (simp add: esc_char_def json_esc_def)

lemma length_esc_text: "length s \<le> length (esc_text s) \<and> length (esc_text s) \<le> 2 * length s"
proof (induction s)
  case (Cons c s)
  with length_esc_char [of c] show ?case by simp
qed simp

lemma json_escape_loop_eq:
  "json_escape_loop outlen s out =
     (if length out + length (esc_text s) < outlen then Some (out @ esc_text s) else None)"
proof (induction s arbitrary: out)
  case (Cons c s)
  then show ?case by (auto simp: esc_char_def split: option.split)
qed auto

lemma json_escape_eq:
  "json_escape s outlen = (if length (esc_text s) < outlen then Some (esc_text s) else None)"
  by (simp add: json_escape_def json_escape_loop_eq)

section \<open>Reading back\<close>

text \<open>
  The reader drops the backslash of an escape and keeps the character after it, so an escaped
  line feed comes back as the letter \<open>n\<close>.
\<close>

definition reread :: "char \<Rightarrow> char" where
  "reread c = (if c = LF then CHR ''n'' else if c = CR then CHR ''r''
     else if c = TAB then CHR ''t'' else c)"

lemma json_copy_stop [simp]: "json_copy room (DQ # rest) = []"
  by simp

lemma json_copy_esc_char:
  "0 < room \<Longrightarrow> json_copy room (esc_char c @ t) = reread c # json_copy (room - 1) t"
  by (auto simp: esc_char_def json_esc_def reread_def)

lemma json_copy_esc_text:
  "json_copy room (esc_text s @ DQ # rest) = take room (map reread s)"
proof (induction s arbitrary: room)
  case (Cons c s)
  show ?case
  proof (cases room)
    case 0
    have "esc_char c \<noteq> []" using length_esc_char [of c] by auto
    then obtain d t where "esc_char c = d # t" by (cases "esc_char c") auto
    with 0 show ?thesis by simp
  next
    case (Suc r)
    then show ?thesis by (simp add: json_copy_esc_char Cons)
  qed
qed simp

section \<open>Objects of string fields\<close>

text \<open>
  What a client sends: an object whose fields are strings, escaped.  The keys the handlers look up
  are letters and digits.
\<close>

definition is_alnum :: "char \<Rightarrow> bool" where
  "is_alnum c \<longleftrightarrow> is_digit c \<or> 65 \<le> char_code c \<and> char_code c \<le> 90
     \<or> 97 \<le> char_code c \<and> char_code c \<le> 122"

definition plain_key :: "string \<Rightarrow> bool" where
  "plain_key k \<longleftrightarrow> k \<noteq> [] \<and> list_all is_alnum k \<and> length k < 126"

definition json_field :: "string \<times> string \<Rightarrow> string" where
  "json_field f = DQ # fst f @ [DQ, CHR '':'', DQ] @ esc_text (snd f) @ [DQ]"

fun json_fields :: "(string \<times> string) list \<Rightarrow> string" where
  "json_fields [] = ''}''"
| "json_fields (f # fs) = json_field f @ (if fs = [] then ''}'' else CHR '','' # json_fields fs)"

definition json_object :: "(string \<times> string) list \<Rightarrow> string" where
  "json_object fs = CHR ''{'' # json_fields fs"

lemma is_alnum_not [simp]:
  "is_alnum c \<Longrightarrow> c \<noteq> DQ" "is_alnum c \<Longrightarrow> c \<noteq> BSL" "is_alnum c \<Longrightarrow> c \<noteq> CHR '':''"
  "is_alnum c \<Longrightarrow> c \<noteq> CHR '',''" "is_alnum c \<Longrightarrow> c \<noteq> CHR ''}''"
  by (auto simp: is_alnum_def is_digit_def)

lemma not_alnum [simp]:
  "\<not> is_alnum DQ" "\<not> is_alnum BSL" "\<not> is_alnum CHR '':''" "\<not> is_alnum CHR '',''"
  "\<not> is_alnum CHR ''}''"
  by (simp_all add: is_alnum_def is_digit_def)

abbreviation key_pattern :: "string \<Rightarrow> string" where
  "key_pattern k \<equiv> DQ # k @ [DQ]"

lemma find_key_plain: "plain_key k \<Longrightarrow> find_key json k = find_key_from (key_pattern k) json"
  by (simp add: find_key_def plain_key_def)

lemma find_key_skip: "c \<noteq> DQ \<Longrightarrow> find_key_from (key_pattern k) (c # s) = find_key_from (key_pattern k) s"
  by simp

lemma find_key_skip_alnum:
  "list_all is_alnum u \<Longrightarrow> find_key_from (key_pattern k) (u @ s) = find_key_from (key_pattern k) s"
  by (induction u) (simp_all add: find_key_skip del: find_key_from.simps(2))

lemma find_key_skip_head:
  "plain_key k \<Longrightarrow> s = [] \<or> \<not> is_alnum (hd s) \<Longrightarrow>
   find_key_from (key_pattern k) (DQ # s) = find_key_from (key_pattern k) s"
  by (cases k; cases s) (auto simp: plain_key_def)

text \<open>A quoted key in the text matches the pattern exactly when it is the key looked for.\<close>

lemma prefix_key_iff:
  "list_all is_alnum k \<Longrightarrow> list_all is_alnum k' \<Longrightarrow> prefix (k @ [DQ]) (k' @ DQ # rest) \<longleftrightarrow> k = k'"
proof (induction k arbitrary: k')
  case Nil
  then show ?case by (cases k') auto
next
  case (Cons c k)
  then show ?case by (cases k') auto
qed

text \<open>
  A key inside an escaped value: a quote in the value stands after a backslash, which no key ends
  with, so the only possible match is the whole rest of the value, and that is not followed by a
  colon.
\<close>

lemma prefix_esc_text:
  assumes "list_all is_alnum k" and "prefix (k @ [DQ]) (esc_text v @ DQ # rest)"
  shows "k = esc_text v"
  using assms
proof (induction k arbitrary: v)
  case Nil
  show ?case
  proof (cases v)
    case (Cons c v')
    with Nil.prems(2) show ?thesis by (auto simp: esc_char_def json_esc_def split: if_splits)
  qed simp
next
  case (Cons a k)
  show ?case
  proof (cases v)
    case Nil
    with Cons.prems show ?thesis by simp
  next
    case v: (Cons c v')
    with Cons.prems have "esc_char c = [a]"
      by (auto simp: esc_char_def json_esc_def split: if_splits)
    with v Cons show ?thesis by auto
  qed
qed

lemma find_key_skip_value:
  assumes "plain_key k" and "rest \<noteq> []" and "hd rest = CHR '','' \<or> hd rest = CHR ''}''"
  shows "find_key_from (key_pattern k) (DQ # esc_text v @ DQ # rest)
    = find_key_from (key_pattern k) (esc_text v @ DQ # rest)"
proof (cases "prefix (key_pattern k) (DQ # esc_text v @ DQ # rest)")
  case True
  then have "k = esc_text v" using assms(1) prefix_esc_text by (auto simp: plain_key_def)
  then have "drop (length (key_pattern k)) (DQ # esc_text v @ DQ # rest) = rest" by simp
  moreover have "dropWhile is_space rest = rest"
    using assms(2,3) by (cases rest) (auto simp: is_space_def)
  ultimately show ?thesis using assms(2,3) by (auto simp: Let_def)
next
  case False
  then show ?thesis by simp
qed

lemma find_key_skip_esc:
  assumes "plain_key k" and "rest \<noteq> []" and "hd rest = CHR '','' \<or> hd rest = CHR ''}''"
  shows "find_key_from (key_pattern k) (esc_text v @ DQ # rest)
    = find_key_from (key_pattern k) (DQ # rest)"
proof (induction v)
  case (Cons c v)
  have "find_key_from (key_pattern k) (esc_char c @ esc_text v @ DQ # rest)
      = find_key_from (key_pattern k) (esc_text v @ DQ # rest)"
  proof (cases "c = DQ")
    case True
    then have "find_key_from (key_pattern k) (esc_char c @ esc_text v @ DQ # rest)
        = find_key_from (key_pattern k) (DQ # esc_text v @ DQ # rest)"
      by (simp add: esc_char_def json_esc_def find_key_skip del: find_key_from.simps)
    then show ?thesis using find_key_skip_value [OF assms] by simp
  next
    case False
    then show ?thesis
      by (simp add: esc_char_def json_esc_def find_key_skip del: find_key_from.simps)
  qed
  with Cons show ?case by simp
qed simp

lemma find_key_field_other:
  assumes "plain_key k" "plain_key k'" "k \<noteq> k'"
    and "rest \<noteq> []" "hd rest = CHR '','' \<or> hd rest = CHR ''}''"
  shows "find_key_from (key_pattern k) (json_field (k', v) @ rest) = find_key_from (key_pattern k) rest"
proof -
  have alnum: "list_all is_alnum k" "list_all is_alnum k'" using assms by (auto simp: plain_key_def)
  have "\<not> prefix (k @ [DQ]) (k' @ DQ # t)" for t
    using prefix_key_iff [OF alnum] assms(3) by blast
  then have "find_key_from (key_pattern k) (json_field (k', v) @ rest)
      = find_key_from (key_pattern k) (k' @ DQ # CHR '':'' # DQ # esc_text v @ DQ # rest)"
    by (simp add: json_field_def)
  also have "\<dots> = find_key_from (key_pattern k) (DQ # CHR '':'' # DQ # esc_text v @ DQ # rest)"
    using alnum(2) by (rule find_key_skip_alnum)
  also have "\<dots> = find_key_from (key_pattern k) (DQ # esc_text v @ DQ # rest)"
    using assms(1) by (simp add: find_key_skip_head find_key_skip is_alnum_def is_digit_def del: find_key_from.simps)
  also have "\<dots> = find_key_from (key_pattern k) (DQ # rest)"
    using find_key_skip_value [OF assms(1,4,5)] find_key_skip_esc [OF assms(1,4,5)] by simp
  also have "\<dots> = find_key_from (key_pattern k) rest"
    using assms by (intro find_key_skip_head) (auto simp: is_alnum_def is_digit_def)
  finally show ?thesis .
qed

lemma find_key_field_same:
  "find_key_from (key_pattern k) (json_field (k, v) @ rest) = Some (DQ # esc_text v @ DQ # rest)"
  by (simp add: json_field_def is_space_def)

lemma find_key_fields:
  assumes "plain_key k" and "list_all (plain_key \<circ> fst) fs"
  shows "find_key_from (key_pattern k) (json_fields fs) = None \<and> map_of fs k = None
    \<or> (\<exists>v rest. find_key_from (key_pattern k) (json_fields fs) = Some (DQ # esc_text v @ DQ # rest)
         \<and> map_of fs k = Some v)"
  using assms(2)
proof (induction fs)
  case Nil
  then show ?case using assms(1) by (simp add: find_key_skip)
next
  case (Cons f fs)
  obtain k' v where f: "f = (k', v)" by (cases f)
  let ?rest = "if fs = [] then ''}'' else CHR '','' # json_fields fs"
  show ?case
  proof (cases "k = k'")
    case True
    with f show ?thesis by (simp add: find_key_field_same del: find_key_from.simps)
  next
    case False
    have "find_key_from (key_pattern k) (json_fields (f # fs)) = find_key_from (key_pattern k) ?rest"
      using find_key_field_other [OF assms(1) _ False, of ?rest v] Cons.prems f by auto
    moreover have "find_key_from (key_pattern k) ?rest = find_key_from (key_pattern k) (json_fields fs)"
      by (simp add: find_key_skip)
    ultimately show ?thesis using Cons f False by auto
  qed
qed

lemma json_get_string_object:
  assumes "plain_key k" and "list_all (plain_key \<circ> fst) fs" and "0 < outlen"
  shows "json_get_string (json_object fs) k outlen
    = map_option (\<lambda>v. fit outlen (map reread v)) (map_of fs k)"
proof -
  have "find_key (json_object fs) k = find_key_from (key_pattern k) (json_fields fs)"
    using assms(1) by (simp add: find_key_plain json_object_def find_key_skip)
  with find_key_fields [OF assms(1,2)] show ?thesis
    using assms(3) by (auto simp: json_get_string_def is_space_def json_copy_esc_text fit_def)
qed

section \<open>Properties\<close>

text \<open>
  C38. Looking a field up in an object of string fields finds the first field with the key and no
  other, whatever quotes, backslashes or keys stand inside the values, and gives -1 when there is no
  such field.  What it gives is the value cut to the buffer, with one exception: the reader drops the
  backslash of every escape, so a line feed, carriage return or tab of the value comes back as the
  letter n, r or t (\<open>reread\<close>); a value without them that fits comes back as it is.
\<close>

theorem json_lookup:
  assumes "plain_key k" and "list_all (plain_key \<circ> fst) fs" and "0 < outlen"
  shows "json_get_string (json_object fs) k outlen
    = map_option (\<lambda>v. fit outlen (map reread v)) (map_of fs k)"
  using assms by (rule json_get_string_object)

theorem json_lookup_witness:
  "json_get_string (json_object [(''a'', [DQ, CHR ''b'', DQ, LF]), (''b'', ''v'')]) ''a'' 64
     = Some [DQ, CHR ''b'', DQ, CHR ''n'']
   \<and> json_get_string (json_object [(''a'', [DQ, CHR ''b'', DQ, LF]), (''b'', ''v'')]) ''b'' 64 = Some ''v''"
  using json_lookup [of "''a''" "[(''a'', [DQ, CHR ''b'', DQ, LF]), (''b'', ''v'')]" 64]
    json_lookup [of "''b''" "[(''a'', [DQ, CHR ''b'', DQ, LF]), (''b'', ''v'')]" 64]
  by (simp add: plain_key_def is_alnum_def is_digit_def reread_def)

fun bare_quote :: "string \<Rightarrow> bool" where
  "bare_quote [] = False"
| "bare_quote (c # s) = (if c = BSL then (case s of [] \<Rightarrow> False | d # s' \<Rightarrow> bare_quote s')
     else c = DQ \<or> bare_quote s)"

lemma bare_quote_esc: "\<not> bare_quote (esc_text s)"
proof (induction s)
  case (Cons c s)
  then show ?case by (auto simp: esc_char_def json_esc_def)
qed simp

text \<open>
  Escaping is total on the buffer's terms: it fails exactly when the escaped text and its NUL do
  not fit, the text contains no bare quote (every quote in it stands after a backslash that is not
  itself escaped), and its length is between once and twice that of the input.
\<close>

theorem json_escape_safe:
  "(json_escape s outlen = None \<longleftrightarrow> outlen \<le> length (esc_text s))
   \<and> (json_escape s outlen = Some t \<longrightarrow>
       \<not> bare_quote t \<and> length s \<le> length t \<and> length t \<le> 2 * length s \<and> length t < outlen)"
  using bare_quote_esc [of s] length_esc_text [of s]
  by (auto simp: json_escape_eq split: if_splits)

theorem json_escape_safe_witness:
  "\<not> bare_quote [CHR ''a'', BSL, DQ]"
proof -
  have "json_escape [CHR ''a'', DQ] 8 = Some [CHR ''a'', BSL, DQ]"
    by (simp add: json_escape_eq esc_char_def json_esc_def)
  then show ?thesis using json_escape_safe [of "[CHR ''a'', DQ]" 8 "[CHR ''a'', BSL, DQ]"] by simp
qed

end
