(* ===== verification/Tse_Time.thy ===== *)
theory Tse_Time
  imports Tse_Util
begin

text \<open>
  Dates: the calendar functions of the C library the source uses (\<^verbatim>\<open>gmtime_r\<close>,
  \<^verbatim>\<open>timegm\<close>, \<^verbatim>\<open>strftime\<close>, \<^verbatim>\<open>sscanf\<close> on an ISO date) and the two date helpers of
  \<^verbatim>\<open>c/src/util.c\<close>.  Times are seconds since 1970, as integers.
\<close>

section \<open>The calendar\<close>

record tm =
  tm_year :: int
  tm_mon :: int
  tm_mday :: int
  tm_hour :: int
  tm_min :: int
  tm_sec :: int

definition is_leap :: "int \<Rightarrow> bool" where
  "is_leap y \<longleftrightarrow> y mod 4 = 0 \<and> (y mod 100 \<noteq> 0 \<or> y mod 400 = 0)"

definition year_len :: "int \<Rightarrow> int" where
  "year_len y = (if is_leap y then 366 else 365)"

definition month_lens :: "int \<Rightarrow> int list" where
  "month_lens y = [31, if is_leap y then 29 else 28, 31, 30, 31, 30, 31, 31, 30, 31, 30, 31]"

text \<open>The days from 1 January 1970 to 1 January of a year.\<close>

definition days_to_year :: "int \<Rightarrow> int" where
  "days_to_year y = 365 * (y - 1970) + (y - 1969) div 4 - (y - 1901) div 100 + (y - 1601) div 400"

text \<open>\<^verbatim>\<open>timegm\<close>: a month outside 0..11 carries into the year, the other fields add up.\<close>

definition timegm :: "tm \<Rightarrow> int" where
  "timegm t =
     (let y = tm_year t + 1900 + tm_mon t div 12;
          m = nat (tm_mon t mod 12);
          days = days_to_year y + sum_list (take m (month_lens y)) + tm_mday t - 1
      in days * 86400 + tm_hour t * 3600 + tm_min t * 60 + tm_sec t)"

text \<open>\<^verbatim>\<open>gmtime_r\<close>: whole 400-year cycles first, then year by year and month by month.\<close>

function find_year :: "int \<Rightarrow> int \<Rightarrow> int \<times> int" where
  "find_year y d = (if d < year_len y then (y, d) else find_year (y + 1) (d - year_len y))"
  by pat_completeness auto
termination
  by (relation "measure (\<lambda>(y, d). nat d)") (auto simp: year_len_def split: if_splits)

declare find_year.simps [simp del]

fun find_month :: "int list \<Rightarrow> int \<Rightarrow> int \<Rightarrow> int \<times> int" where
  "find_month [] m d = (m, d)"
| "find_month (l # ls) m d = (if d < l then (m, d) else find_month ls (m + 1) (d - l))"

definition gmtime :: "int \<Rightarrow> tm" where
  "gmtime t =
     (let days = t div 86400; r = t mod 86400;
          (y, yd) = find_year 1970 (days mod 146097);
          (m, md) = find_month (month_lens y) 0 yd
      in \<lparr>tm_year = y + 400 * (days div 146097) - 1900, tm_mon = m, tm_mday = md + 1,
          tm_hour = r div 3600, tm_min = r mod 3600 div 60, tm_sec = r mod 60\<rparr>)"

lemma div_step:
  assumes m: "0 < (m :: int)"
  shows "(x + 1) div m = x div m + (if (x + 1) mod m = 0 then 1 else 0)"
proof -
  obtain q r where x: "x = m * q + r" and r: "0 \<le> r" "r < m"
    using m that [of "x div m" "x mod m"] by simp
  have q: "x div m = q" using int_div_pos_eq [OF x] r by simp
  show ?thesis
  proof (cases "r + 1 = m")
    case True
    then have e: "x + 1 = m * (q + 1) + 0" using x by (simp add: algebra_simps)
    show ?thesis using int_div_pos_eq [OF e] int_mod_pos_eq [OF e] m q by simp
  next
    case False
    have e: "x + 1 = m * q + (r + 1)" using x by simp
    show ?thesis using int_div_pos_eq [OF e] int_mod_pos_eq [OF e] False r q by simp
  qed
qed

lemma leap_count:
  "(l400 \<Longrightarrow> l100) \<Longrightarrow> (l100 \<Longrightarrow> l4) \<Longrightarrow>
   365 * (y + 1 - 1970) + (a + (if l4 then 1 else 0)) - (b + (if l100 then 1 else 0))
     + (c + (if l400 then 1 else 0))
   = 365 * (y - 1970) + a - b + c + (if l4 \<and> (\<not> l100 \<or> l400) then 366 else (365 :: int))"
  by (cases l4; cases l100; cases l400) simp_all

lemma days_to_year_step: "days_to_year (y + 1) = days_to_year y + year_len y"
proof -
  have m: "(y - 1969 + 1) mod 4 = y mod 4" "(y - 1901 + 1) mod 100 = y mod 100"
    "(y - 1601 + 1) mod 400 = y mod 400"
    using mod_mult_self1 [of y "- 492" 4] mod_mult_self1 [of y "- 19" 100]
      mod_mult_self1 [of y "- 4" 400] by simp_all
  have e: "y + 1 - 1969 = y - 1969 + 1" "y + 1 - 1901 = y - 1901 + 1" "y + 1 - 1601 = y - 1601 + 1"
    by simp_all
  have d: "(y + 1 - 1969) div 4 = (y - 1969) div 4 + (if y mod 4 = 0 then 1 else 0)"
    "(y + 1 - 1901) div 100 = (y - 1901) div 100 + (if y mod 100 = 0 then 1 else 0)"
    "(y + 1 - 1601) div 400 = (y - 1601) div 400 + (if y mod 400 = 0 then 1 else 0)"
    by (unfold e) (rule div_step [of 4 "y - 1969", unfolded m] div_step [of 100 "y - 1901", unfolded m]
        div_step [of 400 "y - 1601", unfolded m], simp)+
  have "y mod 400 mod 100 = y mod 100" "y mod 100 mod 4 = y mod 4"
    by (simp_all add: mod_mod_cancel)
  then have "y mod 400 = 0 \<Longrightarrow> y mod 100 = 0" "y mod 100 = 0 \<Longrightarrow> y mod 4 = 0" by auto
  then show ?thesis
    unfolding days_to_year_def d year_len_def is_leap_def
    by (rule leap_count)
qed

lemma days_to_year_cycle: "days_to_year (y + 400 * k) = days_to_year y + 146097 * k"
proof -
  have e: "y + 400 * k - 1969 = (y - 1969) + 100 * k * 4" "y + 400 * k - 1901 = (y - 1901) + 4 * k * 100"
    "y + 400 * k - 1601 = (y - 1601) + k * 400" by simp_all
  have "(y + 400 * k - 1969) div 4 = 100 * k + (y - 1969) div 4"
    "(y + 400 * k - 1901) div 100 = 4 * k + (y - 1901) div 100"
    "(y + 400 * k - 1601) div 400 = k + (y - 1601) div 400"
    unfolding e by (rule div_mult_self1, simp)+
  then show ?thesis by (simp add: days_to_year_def)
qed

lemma is_leap_cycle: "is_leap (y + 400 * k) = is_leap y"
proof -
  have "(y + 400 * k) mod 4 = y mod 4" "(y + 400 * k) mod 100 = y mod 100"
    "(y + 400 * k) mod 400 = y mod 400"
    using mod_mult_self1 [of y "100 * k" 4] mod_mult_self1 [of y "4 * k" 100]
      mod_mult_self1 [of y k 400] by (simp_all add: mult.commute)
  then show ?thesis by (simp add: is_leap_def)
qed

lemma month_lens_cycle: "month_lens (y + 400 * k) = month_lens y"
  by (simp add: month_lens_def is_leap_cycle)

lemma find_year_sound:
  "0 \<le> d \<Longrightarrow> find_year y d = (y', d') \<Longrightarrow>
   0 \<le> d' \<and> d' < year_len y' \<and> days_to_year y' + d' = days_to_year y + d \<and> y \<le> y'"
proof (induction y d rule: find_year.induct)
  case (1 y d)
  show ?case
  proof (cases "d < year_len y")
    case True
    with 1 show ?thesis by (simp add: find_year.simps [of y d])
  next
    case False
    with 1 have "0 \<le> d' \<and> d' < year_len y' \<and>
        days_to_year y' + d' = days_to_year (y + 1) + (d - year_len y) \<and> y + 1 \<le> y'"
      by (simp add: find_year.simps [of y d])
    then show ?thesis by (simp add: days_to_year_step)
  qed
qed

text \<open>The month found, as the number \<open>k\<close> of months passed.\<close>

lemma find_month_split:
  "0 \<le> d \<Longrightarrow> d < sum_list ls \<Longrightarrow>
   \<exists>k < length ls. \<exists>d'. find_month ls m d = (m + int k, d') \<and> 0 \<le> d' \<and> d' < ls ! k
     \<and> d = sum_list (take k ls) + d'"
proof (induction ls m d rule: find_month.induct)
  case (2 l ls m d)
  show ?case
  proof (cases "d < l")
    case True
    then show ?thesis using 2(2) by (intro exI [of _ 0]) simp
  next
    case False
    with 2(3) have "0 \<le> d - l" "d - l < sum_list ls" by simp_all
    from 2(1) [OF False this] obtain k d' where k: "k < length ls"
      "find_month ls (m + 1) (d - l) = (m + 1 + int k, d')" "0 \<le> d'" "d' < ls ! k"
      "d - l = sum_list (take k ls) + d'" by blast
    then show ?thesis using False by (intro exI [of _ "Suc k"]) simp
  qed
qed simp

lemma find_month_sound:
  assumes "0 \<le> d" "d < sum_list ls" "find_month ls m d = (m', d')"
  shows "m \<le> m' \<and> m' < m + int (length ls) \<and> 0 \<le> d' \<and> d' < ls ! nat (m' - m) \<and>
   d = sum_list (take (nat (m' - m)) ls) + d'"
  using find_month_split [OF assms(1,2), of m] assms(3) by auto

lemma sum_month_lens: "sum_list (month_lens y) = year_len y"
  by (simp add: month_lens_def year_len_def)

lemma length_month_lens: "length (month_lens y) = 12"
  by (simp add: month_lens_def)

lemma month_lens_le: "i < 12 \<Longrightarrow> month_lens y ! i \<le> 31"
proof -
  assume "i < 12"
  moreover have "list_all (\<lambda>l. l \<le> 31) (month_lens y)" by (simp add: month_lens_def)
  moreover have "length (month_lens y) = 12" by (simp add: month_lens_def)
  ultimately show ?thesis by (simp add: list_all_length)
qed

lemma gmtime_fields:
  "0 \<le> tm_mon (gmtime t) \<and> tm_mon (gmtime t) < 12 \<and> 1 \<le> tm_mday (gmtime t) \<and> tm_mday (gmtime t) \<le> 31
   \<and> 0 \<le> tm_hour (gmtime t) \<and> tm_hour (gmtime t) < 24 \<and> 0 \<le> tm_min (gmtime t) \<and> tm_min (gmtime t) < 60
   \<and> 0 \<le> tm_sec (gmtime t) \<and> tm_sec (gmtime t) < 60
   \<and> timegm (gmtime t) = t"
proof -
  define days r where "days = t div 86400" and "r = t mod 86400"
  have r: "0 \<le> r" "r < 86400" by (simp_all add: r_def)
  obtain y yd where y: "find_year 1970 (days mod 146097) = (y, yd)" by fastforce
  obtain m md where m: "find_month (month_lens y) 0 yd = (m, md)" by fastforce
  have Y: "0 \<le> yd" "yd < year_len y" "days_to_year y + yd = days_to_year 1970 + days mod 146097"
    using find_year_sound [OF _ y] by simp_all
  have M: "0 \<le> m" "m < 12" "0 \<le> md" "md < month_lens y ! nat m"
    "yd = sum_list (take (nat m) (month_lens y)) + md"
    using find_month_sound [OF Y(1) _ m] Y(2) by (simp_all add: sum_month_lens length_month_lens)
  have eq: "gmtime t = \<lparr>tm_year = y + 400 * (days div 146097) - 1900, tm_mon = m, tm_mday = md + 1,
      tm_hour = r div 3600, tm_min = r mod 3600 div 60, tm_sec = r mod 60\<rparr>"
    using y m by (simp add: gmtime_def days_def [symmetric] r_def [symmetric])
  have "timegm (gmtime t) = days * 86400 + r div 3600 * 3600 + r mod 3600 div 60 * 60 + r mod 60"
  proof -
    have "m div 12 = 0" "m mod 12 = m" using M by simp_all
    moreover have "days_to_year 1970 = 0" by (simp add: days_to_year_def)
    moreover have "days = 146097 * (days div 146097) + (days_to_year y + yd)"
      using Y(3) \<open>days_to_year 1970 = 0\<close> by simp
    ultimately show ?thesis
      using M(5) by (simp add: timegm_def eq days_to_year_cycle month_lens_cycle Let_def)
  qed
  also have "\<dots> = t"
  proof -
    have "t = days * 86400 + r" by (simp add: days_def r_def)
    moreover have "r div 3600 * 3600 + r mod 3600 div 60 * 60 + r mod 60 = r"
    proof -
      have "r mod 3600 mod 60 = r mod 60" by (simp add: mod_mod_cancel)
      then show ?thesis using div_mult_mod_eq [of r 3600] div_mult_mod_eq [of "r mod 3600" 60] by linarith
    qed
    ultimately show ?thesis by linarith
  qed
  finally have "timegm (gmtime t) = t" .
  moreover have "md + 1 \<le> 31" "1 \<le> md + 1" proof -
    have "nat m < 12" using M by linarith
    from month_lens_le [OF this, of y] M(3,4) show "md + 1 \<le> 31" "1 \<le> md + 1" by linarith+
  qed
  moreover have "r div 3600 < 24"
  proof -
    have "r div 3600 \<le> 86399 div 3600" using r by (intro zdiv_mono1) simp_all
    then show ?thesis by simp
  qed
  moreover have "r mod 3600 div 60 < 60"
  proof -
    have "r mod 3600 < 3600" by simp
    then have "r mod 3600 div 60 \<le> 3599 div 60" by (intro zdiv_mono1) simp_all
    then show ?thesis by simp
  qed
  moreover have "0 \<le> r div 3600" "0 \<le> r mod 3600 div 60" "0 \<le> r mod 60" "r mod 60 < 60"
    using r by (simp_all only: pos_imp_zdiv_nonneg_iff pos_mod_sign pos_mod_bound zero_less_numeral)
  moreover have "tm_mon (gmtime t) = m" "tm_mday (gmtime t) = md + 1" "tm_hour (gmtime t) = r div 3600"
    "tm_min (gmtime t) = r mod 3600 div 60" "tm_sec (gmtime t) = r mod 60"
    by (simp_all only: eq tm.select_convs)
  ultimately show ?thesis using M(1,2) by metis
qed

lemma timegm_gmtime [simp]: "timegm (gmtime t) = t"
  using gmtime_fields by blast

section \<open>ISO dates\<close>

text \<open>
  \<^verbatim>\<open>strftime(buf, n, "%Y-%m-%dT%H:%M:%S.000Z", tm)\<close>.  Every buffer it fills has 64 bytes,
  and the text has at most 35 characters for a 32-bit year.
\<close>

definition iso_time :: "tm \<Rightarrow> string" where
  "iso_time t = show_int (tm_year t + 1900) @ ''-'' @ show_pad 2 (nat (tm_mon t + 1)) @ ''-'' @
     show_pad 2 (nat (tm_mday t)) @ ''T'' @ show_pad 2 (nat (tm_hour t)) @ '':'' @
     show_pad 2 (nat (tm_min t)) @ '':'' @ show_pad 2 (nat (tm_sec t)) @ ''.000Z''"

text \<open>
  \<^verbatim>\<open>sscanf(s, "%d-%d-%dT%d:%d:%d", ...)\<close> converting all six fields; the fields are stored
  into 32-bit integers.
\<close>

definition scan_d :: "string \<Rightarrow> (int \<times> string) option" where
  "scan_d s = map_option (\<lambda>(v, rest). (wrap32 (clamp64 v), rest)) (read_int s)"

definition scan_lit :: "char \<Rightarrow> string \<Rightarrow> string option" where
  "scan_lit c s = (case s of [] \<Rightarrow> None | d # rest \<Rightarrow> if d = c then Some rest else None)"

definition scan_iso :: "string \<Rightarrow> (int \<times> int \<times> int \<times> int \<times> int \<times> int) option" where
  "scan_iso s = do {
     (y, s1) \<leftarrow> scan_d s; s2 \<leftarrow> scan_lit CHR ''-'' s1;
     (mo, s3) \<leftarrow> scan_d s2; s4 \<leftarrow> scan_lit CHR ''-'' s3;
     (d, s5) \<leftarrow> scan_d s4; s6 \<leftarrow> scan_lit CHR ''T'' s5;
     (h, s7) \<leftarrow> scan_d s6; s8 \<leftarrow> scan_lit CHR '':'' s7;
     (mi, s9) \<leftarrow> scan_d s8; s10 \<leftarrow> scan_lit CHR '':'' s9;
     (sec, _) \<leftarrow> scan_d s10;
     Some (y, mo, d, h, mi, sec) }"

text \<open>The broken-down time the code builds from the six fields before \<^verbatim>\<open>timegm\<close>.\<close>

definition tm_of_scan :: "int \<times> int \<times> int \<times> int \<times> int \<times> int \<Rightarrow> tm" where
  "tm_of_scan f = (case f of (y, mo, d, h, mi, s) \<Rightarrow>
     \<lparr>tm_year = y - 1900, tm_mon = mo - 1, tm_mday = d, tm_hour = h, tm_min = mi, tm_sec = s\<rparr>)"

definition util_now_iso :: "('a os_scheme, string) state" where
  "util_now_iso = do { now \<leftarrow> time_now; ret (iso_time (gmtime now)) }"

definition log_time_text :: "tm \<Rightarrow> string" where
  "log_time_text t = (if tm_year t + 1900 < 0 then CHR ''-'' # show_pad 3 (nat (- (tm_year t + 1900)))
       else show_pad 4 (nat (tm_year t + 1900))) @ ''-'' @
     show_pad 2 (nat (tm_mon t + 1)) @ ''-'' @ show_pad 2 (nat (tm_mday t)) @ ''T'' @
     show_pad 2 (nat (tm_hour t)) @ '':'' @ show_pad 2 (nat (tm_min t)) @ '':'' @
     show_pad 2 (nat (tm_sec t)) @ ''Z''"

definition util_fcc_log_time :: "string \<Rightarrow> nat \<Rightarrow> ('a os_scheme, string) state" where
  "util_fcc_log_time iso_string buflen = do {
     t \<leftarrow> (case scan_iso iso_string of
            Some f \<Rightarrow> ret (timegm (tm_of_scan f))
          | None \<Rightarrow> time_now);
     s \<leftarrow> State_Monad.get;
     ret (fit buflen (log_time_text (gmtime (t + os_utc_offset s t)))) }"

text \<open>A time whose year fits the 32-bit field of \<^verbatim>\<open>struct tm\<close> and of the scanner.\<close>

definition printable_time :: "int \<Rightarrow> bool" where
  "printable_time t \<longleftrightarrow> 0 \<le> tm_year (gmtime t) + 1900 \<and> tm_year (gmtime t) + 1900 < 2 ^ 31"

lemma scan_d_pad:
  "int n < 2 ^ 31 \<Longrightarrow> rest = [] \<or> \<not> is_digit (hd rest) \<Longrightarrow>
   scan_d (show_pad w n @ rest) = Some (int n, rest)"
  by (simp add: scan_d_def read_int_show_pad)

lemma scan_d_nat:
  "int n < 2 ^ 31 \<Longrightarrow> rest = [] \<or> \<not> is_digit (hd rest) \<Longrightarrow>
   scan_d (show_nat n @ rest) = Some (int n, rest)"
  by (simp add: scan_d_def read_int_show_nat)

lemma scan_iso_iso_time:
  assumes "printable_time t"
  shows "map_option tm_of_scan (scan_iso (iso_time (gmtime t))) = Some (gmtime t)"
proof -
  have y: "0 \<le> tm_year (gmtime t) + 1900" "tm_year (gmtime t) + 1900 < 2 ^ 31"
    using assms by (simp_all add: printable_time_def)
  have p: "scan_d (show_nat (nat (tm_year (gmtime t) + 1900)) @ rest) = Some (tm_year (gmtime t) + 1900, rest)"
    if "\<not> is_digit (hd rest)" for rest
    using scan_d_nat [of "nat (tm_year (gmtime t) + 1900)" rest] y that by simp
  have f: "scan_d (show_pad 2 (nat v) @ rest) = Some (v, rest)"
    if "0 \<le> v" "v < 100" "\<not> is_digit (hd rest)" for v rest
    using scan_d_pad [of "nat v" rest] that by simp
  show ?thesis
    using gmtime_fields [of t] y
    by (simp add: scan_iso_def iso_time_def show_int_def p f scan_lit_def is_digit_def tm_of_scan_def)
qed

lemma timegm_scan_iso:
  "printable_time t \<Longrightarrow> \<exists>f. scan_iso (iso_time (gmtime t)) = Some f \<and> timegm (tm_of_scan f) = t"
  using scan_iso_iso_time [of t] by auto

lemma run_util_now_iso [simp]:
  "run_state util_now_iso s = (iso_time (gmtime (os_time s (os_ticks s))), s\<lparr>os_ticks := Suc (os_ticks s)\<rparr>)"
  by (simp add: util_now_iso_def)

lemma is_cstr_iso_time [simp]: "is_cstr (iso_time t)"
  by (simp add: iso_time_def)

text \<open>Every time from 1970 on whose year fits 31 bits is printable, well past any clock.\<close>

lemma days_to_year_ge: "1970 \<le> y \<Longrightarrow> 365 * (y - 1970) \<le> days_to_year y"
proof -
  assume y: "1970 \<le> y"
  have "100 * ((y - 1901) div 100) \<le> y - 1901" "y - 1969 < 4 * ((y - 1969) div 4) + 4"
    using mult_div_mod_eq [of 100 "y - 1901"] mult_div_mod_eq [of 4 "y - 1969"]
      pos_mod_sign [of 100 "y - 1901"] pos_mod_bound [of 4 "y - 1969"] by linarith+
  moreover have "0 \<le> (y - 1969) div 4" using y by (simp add: pos_imp_zdiv_nonneg_iff)
  ultimately have "(y - 1901) div 100 \<le> (y - 1969) div 4" by linarith
  moreover have "0 \<le> (y - 1601) div 400" using y by (simp add: pos_imp_zdiv_nonneg_iff)
  ultimately show ?thesis by (simp add: days_to_year_def)
qed

lemma printable_time_bound:
  assumes "0 \<le> t" "t < 2 ^ 55"
  shows "printable_time t"
proof -
  define days where "days = t div 86400"
  obtain y yd where y: "find_year 1970 (days mod 146097) = (y, yd)" by fastforce
  obtain m md where m: "find_month (month_lens y) 0 yd = (m, md)" by fastforce
  have Y: "0 \<le> yd" "days_to_year y + yd = days_to_year 1970 + days mod 146097" "1970 \<le> y"
    using find_year_sound [OF _ y] by simp_all
  have "days_to_year 1970 = 0" by (simp add: days_to_year_def)
  with Y days_to_year_ge [of y] have "365 * (y - 1970) \<le> days mod 146097" by linarith
  also have "\<dots> < 146097" by simp
  finally have "y < 2400" by presburger
  have d: "0 \<le> days div 146097" "days div 146097 < 2 ^ 22"
    using assms unfolding days_def by (simp_all add: pos_imp_zdiv_nonneg_iff zdiv_zmult2_eq [symmetric] div_less_iff_less_mult)
  have "tm_year (gmtime t) = y + 400 * (days div 146097) - 1900"
    using y m by (simp add: gmtime_def days_def [symmetric] Let_def)
  then show ?thesis using Y(3) \<open>y < 2400\<close> d by (simp add: printable_time_def)
qed

lemma length_show_pad: "n < 10 ^ w \<Longrightarrow> 0 < w \<Longrightarrow> length (show_pad w n) = w"
  using show_nat_length [of n w] by (simp add: show_pad_def)

lemma length_iso_time:
  assumes "printable_time t"
  shows "length (iso_time (gmtime t)) < 64"
proof -
  have p: "length (show_pad 2 (nat v)) = 2" if "0 \<le> v" "v < 100" for v
    using that by (intro length_show_pad) simp_all
  have "tm_year (gmtime t) + 1900 < 10000000000" using assms by (simp add: printable_time_def)
  then have "nat (tm_year (gmtime t) + 1900) < 10 ^ 10" by (simp add: nat_less_iff)
  then have "length (show_nat (nat (tm_year (gmtime t) + 1900))) \<le> 10" by (rule show_nat_length) simp
  then show ?thesis
    using gmtime_fields [of t] assms
    by (simp add: iso_time_def p show_int_def printable_time_def)
qed

lemma scan_iso_log_time:
  assumes "printable_time t"
  shows "map_option tm_of_scan (scan_iso (log_time_text (gmtime t))) = Some (gmtime t)"
proof -
  have y: "0 \<le> tm_year (gmtime t) + 1900" "tm_year (gmtime t) + 1900 < 2 ^ 31"
    using assms by (simp_all add: printable_time_def)
  have f: "scan_d (show_pad w (nat v) @ rest) = Some (v, rest)"
    if "0 \<le> v" "v < 2 ^ 31" "\<not> is_digit (hd rest)" for w v rest
    using scan_d_pad [of "nat v" rest] that by simp
  show ?thesis
    using gmtime_fields [of t] y
    by (simp add: scan_iso_def log_time_text_def f scan_lit_def is_digit_def tm_of_scan_def)
qed

section \<open>Properties\<close>

text \<open>
  A stored time stamp denotes the instant it was made for: scanning the ISO text of \<open>t\<close> and
  converting the fields back with \<^verbatim>\<open>timegm\<close> gives \<open>t\<close>, for every time from 1970 on below
  \<open>2 ^ 55\<close> seconds, and the text fits the 64-byte buffers it is written to.
\<close>

theorem iso_time_round_trip:
  assumes "0 \<le> t" and "t < 2 ^ 55"
  shows "map_option (timegm \<circ> tm_of_scan) (scan_iso (iso_time (gmtime t))) = Some t
    \<and> length (iso_time (gmtime t)) < 64"
  using timegm_scan_iso [OF printable_time_bound [OF assms]] length_iso_time [OF printable_time_bound [OF assms]]
  by auto

theorem iso_time_round_trip_witness:
  "map_option (timegm \<circ> tm_of_scan) (scan_iso (iso_time (gmtime 1700000000))) = Some 1700000000"
  using iso_time_round_trip [of 1700000000] by simp

text \<open>
  A log time is the stored time in host-local digits: the log text of a stored ISO time \<open>t\<close>
  reads back as \<open>t\<close> shifted by the host's offset from UTC at \<open>t\<close>, and the clock is not read.
\<close>

theorem fcc_log_time_local:
  assumes "0 \<le> t" and "t < 2 ^ 55" and "0 \<le> t + os_utc_offset s t" and "t + os_utc_offset s t < 2 ^ 55"
    and "64 \<le> n"
  shows "\<exists>x. run_state (util_fcc_log_time (iso_time (gmtime t)) n) s = (x, s)
    \<and> map_option (timegm \<circ> tm_of_scan) (scan_iso x) = Some (t + os_utc_offset s t)"
proof -
  let ?l = "t + os_utc_offset s t"
  obtain f where f: "scan_iso (iso_time (gmtime t)) = Some f" "timegm (tm_of_scan f) = t"
    using timegm_scan_iso [OF printable_time_bound [OF assms(1,2)]] by blast
  have p: "printable_time ?l" by (rule printable_time_bound [OF assms(3,4)])
  have w: "length (show_pad 2 (nat v)) = 2" if "0 \<le> v" "v < 100" for v
    using that by (intro length_show_pad) simp_all
  have "tm_year (gmtime ?l) + 1900 < 10000000000" using p by (simp add: printable_time_def)
  then have "nat (tm_year (gmtime ?l) + 1900) < 10 ^ 10" by (simp add: nat_less_iff)
  then have "length (show_nat (nat (tm_year (gmtime ?l) + 1900))) \<le> 10" by (rule show_nat_length) simp
  then have "length (show_pad 4 (nat (tm_year (gmtime ?l) + 1900))) \<le> 10" by (simp add: show_pad_def)
  then have "length (log_time_text (gmtime ?l)) < n"
    using gmtime_fields [of ?l] p assms(5) by (simp add: log_time_text_def w printable_time_def)
  moreover have "map_option (timegm \<circ> tm_of_scan) (scan_iso (log_time_text (gmtime ?l))) = Some ?l"
    using scan_iso_log_time [OF p] by auto
  ultimately show ?thesis using f by (simp add: util_fcc_log_time_def)
qed

theorem fcc_log_time_local_witness:
  "\<exists>x. value_of (util_fcc_log_time (iso_time (gmtime 1700000000)) 64) sample_os = x
     \<and> map_option (timegm \<circ> tm_of_scan) (scan_iso x) = Some 1700003600"
  using fcc_log_time_local [of 1700000000 sample_os 64] by (auto simp: sample_os_def)

end
