(* ===== verification/Tse_Config.thy ===== *)
theory Tse_Config
  imports Tse_Util
begin

text \<open>
  \<^verbatim>\<open>c/src/config.c\<close>: the configuration read from the environment, the daily self-test time, and
  the client allowlist.  The environment, the files \<^verbatim>\<open>fopen\<close> can read, the path of the
  executable and OpenSSL's \<^verbatim>\<open>SHA256\<close> are arguments.
\<close>

section \<open>The configuration\<close>

datatype tse_mode = TSE_MODE_SIM | TSE_MODE_HARDWARE

record config =
  cfg_host :: string
  cfg_port :: nat
  cfg_public_ip :: string
  cfg_eas_code :: string
  cfg_allowed_client_serial :: string
  cfg_tse_serial :: string
  cfg_fcc_version :: string
  cfg_db_path :: string
  cfg_log_requests :: bool
  cfg_tse_mode :: tse_mode
  cfg_tse_device :: string
  cfg_worm_path :: string
  cfg_worm_lib :: string
  cfg_worm_admin_pin :: string
  cfg_worm_admin_puk :: string
  cfg_worm_time_admin_pin :: string
  cfg_worm_credential_seed :: string
  cfg_leaf_certificate :: string
  cfg_tse_public_key_b64 :: string
  cfg_self_test_at_hour :: int
  cfg_self_test_at_minute :: int

definition default_tse_serial :: string where
  "default_tse_serial = ''A1B2C3D4E5F60718293A4B5C6D7E8F90123456789ABCDEF0123456789ABCDEF''"

definition default_db_path :: string where
  "default_db_path = ''data/cloudtse.db''"

text \<open>
  What \<^verbatim>\<open>config_load\<close> reads: the environment (a C string per variable), the contents of the
  files it can open, \<^verbatim>\<open>readlink("/proc/self/exe")\<close>, and the hash.
\<close>

record config_env =
  ce_env :: "string \<Rightarrow> string option"
  ce_files :: "string \<Rightarrow> string option"
  ce_exe :: "string option"
  ce_sha256 :: "u8 list \<Rightarrow> u8 list"

section \<open>Defaults\<close>

text \<open>\<^verbatim>\<open>strrchr(s, '/')\<close> followed by a cut: the text before the last slash.\<close>

definition parent_dir :: "string \<Rightarrow> string option" where
  "parent_dir s = (if CHR ''/'' \<in> set s
     then Some (rev (tl (dropWhile (\<lambda>c. c \<noteq> CHR ''/'') (rev s)))) else None)"

definition set_default_db_path :: "string option \<Rightarrow> nat \<Rightarrow> string" where
  "set_default_db_path exe buflen =
     (case Option.bind (Option.bind (map_option (c_str \<circ> take 511) exe)
          (\<lambda>e. Option.bind (if e = [] then None else Some e) parent_dir)) parent_dir of
        Some root \<Rightarrow>
          if length root + 1 + length default_db_path < buflen
          then root @ CHR ''/'' # default_db_path
          else util_strlcpy (Some default_db_path) buflen
      | None \<Rightarrow> util_strlcpy (Some default_db_path) buflen)"

definition env_or :: "(string \<Rightarrow> string option) \<Rightarrow> string \<Rightarrow> string \<Rightarrow> string" where
  "env_or env key fallback =
     (case env key of Some v \<Rightarrow> if v \<noteq> [] then v else fallback | None \<Rightarrow> fallback)"

section \<open>The self-test time\<close>

definition is_blank :: "char \<Rightarrow> bool" where
  "is_blank c \<longleftrightarrow> c = CHR '' '' \<or> c = TAB"

definition parse_self_test_at :: "string option \<Rightarrow> int \<times> int" where
  "parse_self_test_at raw =
     (case raw of None \<Rightarrow> (-1, 0)
      | Some r0 \<Rightarrow>
          (let r = dropWhile is_blank r0 in
           if r = [] \<or> r = ''off'' \<or> r = ''disabled'' \<or> r = ''-'' then (-1, 0)
           else
             let (hour, minute) = (case split_at (CHR '':'') r of
                     Some (_, after_colon) \<Rightarrow> (atoi r, atoi after_colon)
                   | None \<Rightarrow> (atoi r, 0))
             in if hour < 0 \<or> hour > 23 \<or> minute < 0 \<or> minute > 59 then (-1, 0)
                else (hour, minute)))"

section \<open>The leaf certificate\<close>

text \<open>The Base64 text of a PEM certificate: printable characters up to the end marker.\<close>

fun pem_body :: "nat \<Rightarrow> string \<Rightarrow> string" where
  "pem_body room [] = []"
| "pem_body room (c # s) =
     (if room = 0 \<or> prefix ''-----END'' (c # s) then []
      else if 33 \<le> char_code c \<and> char_code c \<le> 126 then c # pem_body (room - 1) s
      else pem_body room s)"

definition leaf_text :: "(string \<Rightarrow> string option) \<Rightarrow> string \<Rightarrow> string" where
  "leaf_text files leaf_env =
     (let cert_src = (case files leaf_env of Some body \<Rightarrow> c_str (take 8191 body) | None \<Rightarrow> leaf_env);
          p = (case str_str cert_src ''-----BEGIN CERTIFICATE-----'' of
                 Some q \<Rightarrow> drop 27 q | None \<Rightarrow> cert_src)
      in pem_body 6143 p)"

definition p256_sig :: "u8 list" where
  "p256_sig = [0x06, 0x08, 0x2a, 0x86, 0x48, 0xce, 0x3d, 0x03, 0x01, 0x07, 0x03, 0x42, 0x00, 0x04]"

text \<open>The 65 bytes of the first P-256 point of a DER text, when the key's header fits around it.\<close>

definition p256_point :: "u8 list \<Rightarrow> u8 list option" where
  "p256_point der =
     (case List.find (\<lambda>i. take 14 (drop i der) = p256_sig) [0..<length der + 1 - 78] of
        Some i \<Rightarrow> if 13 \<le> i \<and> i - 13 + 91 \<le> length der then Some (take 65 (drop (i + 13) der)) else None
      | None \<Rightarrow> None)"

definition load_leaf :: "config_env \<Rightarrow> config \<Rightarrow> config" where
  "load_leaf ce c0 =
     (let c = c0\<lparr>cfg_leaf_certificate := [], cfg_tse_public_key_b64 := []\<rparr> in
      case ce_env ce ''CLOUDTSE_LEAF_CERTIFICATE'' of
        None \<Rightarrow> c
      | Some leaf_env \<Rightarrow>
          if leaf_env = [] then c
          else
            (let c' = c\<lparr>cfg_leaf_certificate := leaf_text (ce_files ce) leaf_env\<rparr> in
             case util_base64_decode (cfg_leaf_certificate c') 8192 of
               None \<Rightarrow> c'
             | Some der \<Rightarrow>
                 (case p256_point der of
                    None \<Rightarrow> c'
                  | Some point \<Rightarrow>
                      (let key = (case util_base64_encode point 256 of Some k \<Rightarrow> k | None \<Rightarrow> []);
                           derived = util_uppercase (case util_bytes_to_hex (ce_sha256 ce point) 128 of
                                       Some h \<Rightarrow> h | None \<Rightarrow> [])
                       in c'\<lparr>cfg_tse_public_key_b64 := key,
                             cfg_tse_serial := (if cfg_tse_serial c' = default_tse_serial
                                then util_strlcpy (Some derived) 128 else cfg_tse_serial c')\<rparr>))))"

section \<open>Loading\<close>

definition optional_env :: "(string \<Rightarrow> string option) \<Rightarrow> string \<Rightarrow> nat \<Rightarrow> string" where
  "optional_env env key sz =
     (case env key of Some v \<Rightarrow> if v \<noteq> [] then util_strlcpy (Some v) sz else [] | None \<Rightarrow> [])"

definition config_load :: "config_env \<Rightarrow> config" where
  "config_load ce =
     (let env = ce_env ce;
          port = nat (atoi (env_or env ''CLOUDTSE_PORT'' ''20001'') mod 65536);
          mode = env_or env ''CLOUDTSE_TSE_MODE'' ''sim'';
          hw = (mode = ''hardware'' \<or> mode = ''hw'' \<or> mode = ''1'');
          (hour, minute) = parse_self_test_at (env ''CLOUDTSE_SELF_TEST_AT'')
      in load_leaf ce
        \<lparr>cfg_host = fit 64 (env_or env ''CLOUDTSE_HOST'' ''0.0.0.0''),
         cfg_port = (if port = 0 then 20001 else port),
         cfg_public_ip = (case env ''CLOUDTSE_PUBLIC_IP'' of
            Some v \<Rightarrow> if v \<noteq> [] then util_trim (fit 64 v) else [] | None \<Rightarrow> []),
         cfg_eas_code = fit 128 (env_or env ''CLOUDTSE_EAS_CODE'' ''12345678''),
         cfg_allowed_client_serial = fit 1024 (env_or env ''CLOUDTSE_ALLOWED_CLIENT_SERIAL'' []),
         cfg_tse_serial = fit 128 (env_or env ''CLOUDTSE_TSE_SERIAL'' default_tse_serial),
         cfg_fcc_version = (if hw then util_strlcpy (Some ''4.4.0-hw'') 64
            else fit 64 (env_or env ''CLOUDTSE_FCC_VERSION'' ''4.4.0-sim'')),
         cfg_db_path = (case env ''CLOUDTSE_DB_PATH'' of
            Some v \<Rightarrow> if v \<noteq> [] then fit 512 v else set_default_db_path (ce_exe ce) 512
          | None \<Rightarrow> set_default_db_path (ce_exe ce) 512),
         cfg_log_requests = (env ''CLOUDTSE_LOG'' \<noteq> Some ''0''),
         cfg_tse_mode = (if hw then TSE_MODE_HARDWARE else TSE_MODE_SIM),
         cfg_tse_device = [],
         cfg_worm_path = [],
         cfg_worm_lib = util_strlcpy (Some (env_or env ''CLOUDTSE_WORM_LIB'' ''libWormAPI.so'')) 512,
         cfg_worm_admin_pin = optional_env env ''CLOUDTSE_WORM_ADMIN_PIN'' 128,
         cfg_worm_admin_puk = optional_env env ''CLOUDTSE_WORM_ADMIN_PUK'' 128,
         cfg_worm_time_admin_pin = optional_env env ''CLOUDTSE_WORM_TIME_ADMIN_PIN'' 128,
         cfg_worm_credential_seed = util_strlcpy
            (Some (env_or env ''CLOUDTSE_WORM_CREDENTIAL_SEED'' ''SwissbitSwissbit'')) 64,
         cfg_leaf_certificate = [],
         cfg_tse_public_key_b64 = [],
         cfg_self_test_at_hour = hour,
         cfg_self_test_at_minute = minute\<rparr>)"

section \<open>The allowlist\<close>

text \<open>\<^verbatim>\<open>config_is_client_allowed\<close>'s loop over the comma-separated list.\<close>

definition strip_right :: "string \<Rightarrow> string" where
  "strip_right s = rev (dropWhile is_blank (rev s))"

function allowed_loop :: "string \<Rightarrow> string \<Rightarrow> bool" where
  "allowed_loop want p =
     (if p = [] then False
      else let start = dropWhile is_blank p;
               item = strip_right (takeWhile (\<lambda>c. c \<noteq> CHR '','') start);
               rest = dropWhile (\<lambda>c. c \<noteq> CHR '','') start
           in if item = want then True else if rest = [] then False else allowed_loop want (tl rest))"
  by pat_completeness auto
termination
proof (relation "measure (\<lambda>(w, p). length p)", goal_cases)
  case 1
  then show ?case by simp
next
  case (2 want p start item rest)
  have "length rest \<le> length start" "length start \<le> length p"
    unfolding 2 by (rule length_dropWhile_le)+
  moreover have "0 < length p" using 2(1) by simp
  ultimately have "length rest - 1 < length p" by linarith
  then show ?case by simp
qed

declare allowed_loop.simps [simp del]

definition config_is_client_allowed :: "config \<Rightarrow> string option \<Rightarrow> bool" where
  "config_is_client_allowed cfg client =
     (if cfg_allowed_client_serial cfg = [] then True
      else case client of None \<Rightarrow> False
        | Some s \<Rightarrow> if s = [] then False else allowed_loop s (cfg_allowed_client_serial cfg))"

section \<open>What the allowlist admits\<close>

text \<open>The reference reading of the list: its comma-separated entries without the blanks around them.\<close>

fun comma_split :: "string \<Rightarrow> string list" where
  "comma_split s = (case split_at (CHR '','') s of None \<Rightarrow> [s]
     | Some (a, b) \<Rightarrow> a # (if length b < length s then comma_split b else []))"

declare comma_split.simps [simp del]

definition strip :: "string \<Rightarrow> string" where
  "strip s = strip_right (dropWhile is_blank s)"

lemma comma_split_single [simp]: "CHR '','' \<notin> set s \<Longrightarrow> comma_split s = [s]"
  by (simp add: comma_split.simps [of s])

lemma comma_split_Cons [simp]:
  "CHR '','' \<notin> set s \<Longrightarrow> comma_split (s @ CHR '','' # t) = s # comma_split t"
  by (subst comma_split.simps) simp

lemma comma_not_blank [simp]: "\<not> is_blank (CHR '','')"
  by (simp add: is_blank_def)

lemma strip_right_Nil [simp]: "strip_right [] = []"
  by (simp add: strip_right_def)

lemma dropWhile_blank_comma:
  "CHR '','' \<notin> set a \<Longrightarrow> dropWhile is_blank (a @ CHR '','' # b) = dropWhile is_blank a @ CHR '','' # b"
  by (induction a) auto

lemma allowed_loop_comma:
  assumes "CHR '','' \<notin> set a"
  shows "allowed_loop w (a @ CHR '','' # b) \<longleftrightarrow> strip a = w \<or> allowed_loop w b"
proof -
  have n: "\<forall>c \<in> set (dropWhile is_blank a). c \<noteq> CHR '',''"
    using assms set_dropWhileD by fastforce
  then have "takeWhile (\<lambda>c. c \<noteq> CHR '','') (dropWhile is_blank a @ CHR '','' # b) = dropWhile is_blank a"
    "dropWhile (\<lambda>c. c \<noteq> CHR '','') (dropWhile is_blank a @ CHR '','' # b) = CHR '','' # b"
    by (simp_all add: takeWhile_append2 dropWhile_append2)
  then show ?thesis
    by (subst allowed_loop.simps) (auto simp: dropWhile_blank_comma assms strip_def)
qed

lemma allowed_loop_last:
  assumes "CHR '','' \<notin> set a" "w \<noteq> []"
  shows "allowed_loop w a \<longleftrightarrow> strip a = w"
proof (cases "a = []")
  case True
  then show ?thesis using assms(2) by (subst allowed_loop.simps) (simp add: strip_def)
next
  case False
  define t where "t = dropWhile is_blank a"
  have "CHR '','' \<notin> set t" using assms set_dropWhileD unfolding t_def by fastforce
  then have *: "takeWhile (\<lambda>c. c \<noteq> CHR '','') t = t" "dropWhile (\<lambda>c. c \<noteq> CHR '','') t = []"
    by (auto simp: takeWhile_eq_all_conv dropWhile_eq_Nil_conv)
  show ?thesis
    using False by (subst allowed_loop.simps) (simp only: Let_def t_def [symmetric] * strip_def if_False simp_thms split: if_split)
qed

lemma allowed_loop_iff: "w \<noteq> [] \<Longrightarrow> allowed_loop w p \<longleftrightarrow> w \<in> set (map strip (comma_split p))"
proof (induction p rule: comma_split.induct)
  case (1 s)
  show ?case
  proof (cases "split_at (CHR '','') s")
    case None
    then have "CHR '','' \<notin> set s" by (simp add: split_at_def split: if_splits)
    with 1 show ?thesis by (auto simp: allowed_loop_last)
  next
    case (Some ab)
    obtain a b where ab: "ab = (a, b)" by (cases ab)
    with Some have s: "s = a @ CHR '','' # b" "CHR '','' \<notin> set a" using split_at_SomeD by auto
    have "allowed_loop w b \<longleftrightarrow> w \<in> set (map strip (comma_split b))"
      using 1 Some ab s by simp
    with s show ?thesis by (auto simp: allowed_loop_comma)
  qed
qed

text \<open>A list written as one entry after the other, and identifiers without commas or blanks.\<close>

fun join_commas :: "string list \<Rightarrow> string" where
  "join_commas [] = []"
| "join_commas [s] = s"
| "join_commas (s # t # ss) = s @ CHR '','' # join_commas (t # ss)"

lemma comma_split_join:
  "ss \<noteq> [] \<Longrightarrow> list_all (\<lambda>s. CHR '','' \<notin> set s) ss \<Longrightarrow> comma_split (join_commas ss) = ss"
  by (induction ss rule: join_commas.induct) simp_all

section \<open>The self-test time\<close>

lemma parse_self_test_at_bounds:
  "parse_self_test_at raw = (h, m) \<Longrightarrow>
   h = -1 \<and> m = 0 \<or> 0 \<le> h \<and> h \<le> 23 \<and> 0 \<le> m \<and> m \<le> 59"
  by (auto simp: parse_self_test_at_def Let_def split: option.splits if_splits)

lemma atoi_pad: "n < 2 ^ 31 \<Longrightarrow> rest = [] \<or> \<not> is_digit (hd rest) \<Longrightarrow> atoi (show_pad w n @ rest) = int n"
  by (simp add: atoi_def read_int_show_pad)

lemma colon_not_in_pad [simp]: "CHR '':'' \<notin> set (show_pad w n)"
  using show_pad_digits [of "CHR '':''" w n] by (auto simp: is_digit_def)

lemma show_pad_hd: "is_digit (hd (show_pad w n))"
  using show_pad_digits [of "hd (show_pad w n)" w n] by simp

lemma parse_self_test_at_pad:
  assumes "h \<le> 23" "m \<le> 59"
  shows "parse_self_test_at (Some (show_pad 2 h @ CHR '':'' # show_pad 2 m)) = (int h, int m)"
proof -
  let ?r = "show_pad 2 h @ CHR '':'' # show_pad 2 m"
  obtain c cs where c: "show_pad 2 h = c # cs" "is_digit c"
    using show_pad_hd [of 2 h] show_pad_nonempty [of 2 h] by (cases "show_pad 2 h") auto
  then have drop: "dropWhile is_blank ?r = ?r" by (auto simp: is_blank_def is_digit_def)
  have ne: "?r \<noteq> ''off''" "?r \<noteq> ''disabled''" "?r \<noteq> ''-''" "?r \<noteq> []"
    using c by (auto simp: is_digit_def)
  have "atoi ?r = int h" using assms by (intro atoi_pad) (simp_all add: is_digit_def)
  moreover have "atoi (show_pad 2 m) = int m" using atoi_pad [of m "[]" 2] assms by simp
  ultimately show ?thesis
    using assms ne by (simp add: parse_self_test_at_def drop Let_def del: append_is_Nil_conv)
qed

section \<open>The configuration is well-formed\<close>

text \<open>Every string fits its buffer, the port is one, and the self-test time is off or a time of day.\<close>

definition config_wf :: "config \<Rightarrow> bool" where
  "config_wf c \<longleftrightarrow>
     length (cfg_host c) < 64 \<and> length (cfg_public_ip c) < 64 \<and> length (cfg_eas_code c) < 128 \<and>
     length (cfg_allowed_client_serial c) < 1024 \<and> length (cfg_tse_serial c) < 128 \<and>
     length (cfg_fcc_version c) < 64 \<and> length (cfg_db_path c) < 512 \<and>
     length (cfg_worm_lib c) < 512 \<and> length (cfg_worm_admin_pin c) < 128 \<and>
     length (cfg_worm_admin_puk c) < 128 \<and> length (cfg_worm_time_admin_pin c) < 128 \<and>
     length (cfg_worm_credential_seed c) < 64 \<and> length (cfg_leaf_certificate c) < 6144 \<and>
     length (cfg_tse_public_key_b64 c) < 256 \<and> 0 < cfg_port c \<and> cfg_port c < 65536 \<and>
     (cfg_self_test_at_hour c = -1 \<and> cfg_self_test_at_minute c = 0 \<or>
      0 \<le> cfg_self_test_at_hour c \<and> cfg_self_test_at_hour c \<le> 23 \<and>
      0 \<le> cfg_self_test_at_minute c \<and> cfg_self_test_at_minute c \<le> 59)"

lemma pem_body_length: "length (pem_body room s) \<le> room"
  by (induction room s rule: pem_body.induct) auto

lemma length_strlcpy [simp]: "0 < n \<Longrightarrow> length (util_strlcpy src n) < n"
  by (simp add: util_strlcpy_def)

lemma length_optional_env [simp]: "0 < n \<Longrightarrow> length (optional_env env key n) < n"
  by (simp add: optional_env_def split: option.split)

lemma length_default_db_path [simp]: "n = 512 \<Longrightarrow> length (set_default_db_path exe n) < n"
  by (simp add: set_default_db_path_def split: option.split)

lemma length_encode_256: "util_base64_encode bs n = Some k \<Longrightarrow> length k < n"
  by (auto simp: util_base64_encode_def length_b64_groups Let_def split: if_splits)

lemma load_leaf_wf:
  assumes "config_wf c" shows "config_wf (load_leaf ce c)"
proof -
  have leaf: "length (leaf_text f l) < 6144" for f l
    by (simp only: leaf_text_def Let_def) (rule le_less_trans, rule pem_body_length, simp)
  have key: "length (case util_base64_encode p 256 of Some k \<Rightarrow> k | None \<Rightarrow> []) < 256" for p
    using length_encode_256 [of p 256] by (simp split: option.split)
  show ?thesis
    using assms leaf key
    by (auto simp: load_leaf_def config_wf_def Let_def split: option.split)
qed

lemma length_public_ip: "length (util_trim (fit 64 v)) < 64"
  using length_util_trim [of "fit 64 v"] length_fit [of 64 v] by linarith

section \<open>Properties\<close>

text \<open>
  C39. The allowlist admits exactly its entries: for a list written as entries joined by commas,
  with any blanks around them, a non-empty client id is admitted when the list is empty (open
  registration) or the id is one of the entries without its blanks.
\<close>

theorem config_allowlist:
  assumes "list_all (\<lambda>e. CHR '','' \<notin> set e) es" and "s \<noteq> []"
  shows "config_is_client_allowed (cfg\<lparr>cfg_allowed_client_serial := join_commas es\<rparr>) (Some s)
    \<longleftrightarrow> join_commas es = [] \<or> s \<in> set (map strip es)"
  using assms comma_split_join [of es]
  by (cases "es = []") (auto simp: config_is_client_allowed_def allowed_loop_iff)

definition empty_env :: config_env where
  "empty_env = \<lparr>ce_env = (\<lambda>_. None), ce_files = (\<lambda>_. None), ce_exe = None, ce_sha256 = (\<lambda>_. [])\<rparr>"

theorem config_allowlist_witness:
  "config_is_client_allowed
     ((config_load empty_env)\<lparr>cfg_allowed_client_serial := join_commas ['' A1'', ''B2 '']\<rparr>) (Some ''B2'')"
  using config_allowlist [of "['' A1'', ''B2 '']" "''B2''" "config_load empty_env"]
  by (simp add: strip_def strip_right_def is_blank_def)

text \<open>
  Whatever the environment, the loaded configuration is well-formed: every string fits its
  buffer, the port is between 1 and 65535, and the self-test is off or set to a time of day.
\<close>

theorem config_load_wf: "config_wf (config_load ce)"
proof -
  obtain h m where hm: "parse_self_test_at (ce_env ce ''CLOUDTSE_SELF_TEST_AT'') = (h, m)" by fastforce
  have "n mod 65536 < 65536" "0 \<le> n mod 65536" for n :: int by simp_all
  then have port: "nat (n mod 65536) < 65536" for n :: int by (simp add: nat_less_iff)
  show ?thesis
    unfolding config_load_def Let_def hm prod.case
    by (rule load_leaf_wf)
      (use parse_self_test_at_bounds [OF hm] port length_public_ip in
        \<open>auto simp: config_wf_def simp del: nat_mod_distrib split: option.split\<close>)
qed

text \<open>
  A self-test time written as \<open>HH:MM\<close> is read back as written, and any other text gives a
  time of day or turns the test off.
\<close>

theorem self_test_time:
  "(h \<le> 23 \<and> m \<le> 59 \<longrightarrow>
      parse_self_test_at (Some (show_pad 2 h @ CHR '':'' # show_pad 2 m)) = (int h, int m))
   \<and> (parse_self_test_at raw = (hour, minute) \<longrightarrow>
      hour = -1 \<and> minute = 0 \<or> 0 \<le> hour \<and> hour \<le> 23 \<and> 0 \<le> minute \<and> minute \<le> 59)"
  using parse_self_test_at_pad parse_self_test_at_bounds by blast

theorem self_test_time_witness:
  "parse_self_test_at (Some (show_pad 2 6 @ CHR '':'' # show_pad 2 30)) = (6, 30)"
  using self_test_time [of 6 30] by simp

end
