(* ===== verification/Tse_Db.thy ===== *)
theory Tse_Db
  imports Tse_Config Tse_Time
begin

text \<open>
  \<^verbatim>\<open>c/src/db.c\<close> (and \<^verbatim>\<open>store_normalize_serial\<close> of \<^verbatim>\<open>c/src/store.c\<close>): settings, counters
  and OAuth tokens over SQLite.

  SQLite is a parameter: an engine \<open>E\<close> that runs one statement on an opaque connection.  The
  statements are the SQL texts of the source, one constructor per text, applied to the values bound
  to its placeholders.  The locale \<open>sqlite_engine\<close> states what the source relies on: a statement
  that fails changes nothing, any other has the effect and the result its SQL text says
  (\<open>sql_exec\<close> below).  A text of several statements runs them one by one (\<open>create_items\<close>).  \<open>sqlite_reliable\<close> adds that no statement fails for a reason outside the text.
\<close>

section \<open>Statements and tables\<close>

datatype sql_value = SqlNull | SqlInt int | SqlText string

datatype sql_result = PrepareFailed | StepFailed | Done | Rows "sql_value list list"

datatype schema_item = Settings_table | Clients_table | Transactions_table | State_index | Client_index | Tokens_table

text \<open>\<open>CreateItem\<close>: one of the \<^verbatim>\<open>CREATE ... IF NOT EXISTS\<close> of \<^verbatim>\<open>db_init_schema\<close>.\<close>

datatype sql =
    CreateItem schema_item
  | InsertSettingIgnore string string
  | UpsertSetting string string
  | SelectSetting string
  | ReplaceToken string string string string
  | SelectToken string
  | UpsertClient string string
  | CountClients
  | InsertTransaction int string "string option" string string string int string
  | UpsertTransaction int string "string option" string string string int string
  | FinishTransaction string int
  | UpdateTransaction string string string int string int
  | SelectTransaction int
  | SelectOpenTransactions

record token_row =
  tok_client :: string
  tok_issued :: string
  tok_expires :: string

record client_row =
  cl_registered_at :: string
  cl_state :: string

record tx_row =
  x_client :: string
  x_external :: "string option"
  x_process_type :: string
  x_process_data :: string
  x_state :: string
  x_time_start :: string
  x_time_end :: "string option"
  x_signature_counter :: int
  x_signature_value :: string

record tables =
  t_items :: "schema_item set"
  t_settings :: "(string \<times> string) list"
  t_clients :: "(string \<times> client_row) list"
  t_transactions :: "(int \<times> tx_row) list"
  t_tokens :: "(string \<times> token_row) list"

text \<open>What \<^verbatim>\<open>db_init_schema\<close> creates, in its order, and whether all of it is there.\<close>

definition schema_items :: "schema_item list" where
  "schema_items = [Settings_table, Clients_table, Transactions_table, State_index, Client_index, Tokens_table]"

definition t_schema :: "tables \<Rightarrow> bool" where
  "t_schema t \<longleftrightarrow> set schema_items \<subseteq> t_items t"

lemma t_schema_items [simp]:
  "t_schema t \<Longrightarrow> Settings_table \<in> t_items t" "t_schema t \<Longrightarrow> Clients_table \<in> t_items t"
  "t_schema t \<Longrightarrow> Transactions_table \<in> t_items t" "t_schema t \<Longrightarrow> Tokens_table \<in> t_items t"
  by (auto simp: t_schema_def schema_items_def)

lemma t_schema_updates [simp]:
  "t_schema (t\<lparr>t_settings := a\<rparr>) = t_schema t" "t_schema (t\<lparr>t_clients := b\<rparr>) = t_schema t"
  "t_schema (t\<lparr>t_transactions := c\<rparr>) = t_schema t" "t_schema (t\<lparr>t_tokens := d\<rparr>) = t_schema t"
  "t_schema t \<Longrightarrow> t_schema (t\<lparr>t_items := insert i (t_items t)\<rparr>)"
  "t_schema \<lparr>t_items = set schema_items, t_settings = a, t_clients = b, t_transactions = c, t_tokens = d\<rparr>"
  by (auto simp: t_schema_def)

section \<open>The meaning of the statements\<close>

definition opt_text :: "string option \<Rightarrow> sql_value" where
  "opt_text v = (case v of None \<Rightarrow> SqlNull | Some s \<Rightarrow> SqlText s)"

text \<open>The columns the transaction queries select, in their order.\<close>

definition tx_columns :: "int \<times> tx_row \<Rightarrow> sql_value list" where
  "tx_columns p = (case p of (n, x) \<Rightarrow>
     [SqlInt n, SqlText (x_client x), opt_text (x_external x), SqlText (x_process_type x),
      SqlText (x_process_data x), SqlText (x_state x), SqlText (x_time_start x),
      opt_text (x_time_end x), SqlInt (x_signature_counter x), SqlText (x_signature_value x)])"

definition new_tx :: "string \<Rightarrow> string option \<Rightarrow> string \<Rightarrow> string \<Rightarrow> string \<Rightarrow> int \<Rightarrow> string \<Rightarrow> tx_row" where
  "new_tx client ext ptype pdata start sigc sig =
     \<lparr>x_client = client, x_external = ext, x_process_type = ptype, x_process_data = pdata,
      x_state = ''ACTIVE'', x_time_start = start, x_time_end = None,
      x_signature_counter = sigc, x_signature_value = sig\<rparr>"

definition map_entry :: "'k \<Rightarrow> ('v \<Rightarrow> 'v) \<Rightarrow> ('k \<times> 'v) list \<Rightarrow> ('k \<times> 'v) list" where
  "map_entry k f t = (case map_of t k of None \<Rightarrow> t | Some v \<Rightarrow> AList.update k (f v) t)"

fun sql_exec :: "tables \<Rightarrow> sql \<Rightarrow> tables \<times> sql_result" where
  "sql_exec t (CreateItem i) =
     (if i \<in> {State_index, Client_index} \<and> Transactions_table \<notin> t_items t then (t, PrepareFailed)
      else (t\<lparr>t_items := insert i (t_items t)\<rparr>, Done))"
| "sql_exec t (InsertSettingIgnore k v) =
     (if Settings_table \<notin> t_items t then (t, PrepareFailed)
      else (if map_of (t_settings t) k = None then t\<lparr>t_settings := AList.update k v (t_settings t)\<rparr> else t, Done))"
| "sql_exec t (UpsertSetting k v) =
     (if Settings_table \<notin> t_items t then (t, PrepareFailed)
      else (t\<lparr>t_settings := AList.update k v (t_settings t)\<rparr>, Done))"
| "sql_exec t (SelectSetting k) =
     (if Settings_table \<notin> t_items t then (t, PrepareFailed)
      else (t, Rows (case map_of (t_settings t) k of None \<Rightarrow> [] | Some v \<Rightarrow> [[SqlText v]])))"
| "sql_exec t (ReplaceToken tok client issued expires) =
     (if Tokens_table \<notin> t_items t then (t, PrepareFailed)
      else (t\<lparr>t_tokens := AList.update tok \<lparr>tok_client = client, tok_issued = issued,
              tok_expires = expires\<rparr> (t_tokens t)\<rparr>, Done))"
| "sql_exec t (SelectToken tok) =
     (if Tokens_table \<notin> t_items t then (t, PrepareFailed)
      else (t, Rows (case map_of (t_tokens t) tok of None \<Rightarrow> []
               | Some r \<Rightarrow> [[SqlText (tok_client r), SqlText (tok_issued r), SqlText (tok_expires r)]])))"
| "sql_exec t (UpsertClient serial now) =
     (if Clients_table \<notin> t_items t then (t, PrepareFailed)
      else (t\<lparr>t_clients := AList.update serial \<lparr>cl_registered_at = now, cl_state = ''REGISTERED''\<rparr>
              (t_clients t)\<rparr>, Done))"
| "sql_exec t CountClients =
     (if Clients_table \<notin> t_items t then (t, PrepareFailed)
      else (t, Rows [[SqlInt (int (length (t_clients t)))]]))"
| "sql_exec t (InsertTransaction n client ext ptype pdata start sigc sig) =
     (if Transactions_table \<notin> t_items t then (t, PrepareFailed)
      else if map_of (t_transactions t) n \<noteq> None then (t, StepFailed)
      else (t\<lparr>t_transactions := AList.update n (new_tx client ext ptype pdata start sigc sig)
              (t_transactions t)\<rparr>, Done))"
| "sql_exec t (UpsertTransaction n client ext ptype pdata start sigc sig) =
     (if Transactions_table \<notin> t_items t then (t, PrepareFailed)
      else (t\<lparr>t_transactions := AList.update n
              (case map_of (t_transactions t) n of
                 None \<Rightarrow> new_tx client ext ptype pdata start sigc sig
               | Some x \<Rightarrow> x\<lparr>x_client := client, x_external := ext, x_process_type := ptype,
                            x_state := ''ACTIVE''\<rparr>) (t_transactions t)\<rparr>, Done))"
| "sql_exec t (FinishTransaction now n) =
     (if Transactions_table \<notin> t_items t then (t, PrepareFailed)
      else (t\<lparr>t_transactions := map_entry n (\<lambda>x. x\<lparr>x_state := ''FINISHED'', x_time_end := Some now\<rparr>)
              (t_transactions t)\<rparr>, Done))"
| "sql_exec t (UpdateTransaction ptype pdata now sigc sig n) =
     (if Transactions_table \<notin> t_items t then (t, PrepareFailed)
      else (t\<lparr>t_transactions := map_entry n (\<lambda>x. x\<lparr>x_process_type := ptype, x_process_data := pdata,
              x_state := ''FINISHED'', x_time_end := Some now, x_signature_counter := sigc,
              x_signature_value := sig\<rparr>) (t_transactions t)\<rparr>, Done))"
| "sql_exec t (SelectTransaction n) =
     (if Transactions_table \<notin> t_items t then (t, PrepareFailed)
      else (t, Rows (case map_of (t_transactions t) n of None \<Rightarrow> [] | Some x \<Rightarrow> [tx_columns (n, x)])))"
| "sql_exec t SelectOpenTransactions =
     (if Transactions_table \<notin> t_items t then (t, PrepareFailed)
      else (t, Rows (map tx_columns (sort_key fst
              (filter (\<lambda>p. x_state (snd p) = ''ACTIVE'') (t_transactions t))))))"

abbreviation sql_failed :: "sql_result \<Rightarrow> bool" where
  "sql_failed r \<equiv> r = PrepareFailed \<or> r = StepFailed"

type_synonym 'db engine = "'db \<Rightarrow> sql \<Rightarrow> 'db \<times> sql_result"

section \<open>The process and its connection\<close>

record 'db dbs = os +
  db_conn :: 'db

definition sql_run :: "'db engine \<Rightarrow> sql \<Rightarrow> (('db, 'a) dbs_scheme, sql_result) state" where
  "sql_run E q = do {
     s \<leftarrow> State_Monad.get;
     State_Monad.set (s\<lparr>db_conn := fst (E (db_conn s) q)\<rparr>);
     ret (snd (E (db_conn s) q)) }"

lemma run_sql [simp]:
  "run_state (sql_run E q) s = (snd (E (db_conn s) q), s\<lparr>db_conn := fst (E (db_conn s) q)\<rparr>)"
  by (simp add: sql_run_def)

section \<open>The database layer\<close>

text \<open>\<^verbatim>\<open>sqlite3_column_text\<close> of a column: \<^verbatim>\<open>NULL\<close> for an SQL NULL, decimal for an integer.\<close>

definition column_text :: "sql_value \<Rightarrow> string option" where
  "column_text v = (case v of SqlNull \<Rightarrow> None | SqlInt i \<Rightarrow> Some (show_int i) | SqlText s \<Rightarrow> Some s)"

definition column_int64 :: "sql_value \<Rightarrow> int" where
  "column_int64 v = (case v of SqlNull \<Rightarrow> 0 | SqlInt i \<Rightarrow> i | SqlText s \<Rightarrow> atoll s)"

definition db_get_setting ::
  "'db engine \<Rightarrow> string \<Rightarrow> nat \<Rightarrow> (('db, 'a) dbs_scheme, string option) state" where
  "db_get_setting E key buflen = do {
     r \<leftarrow> sql_run E (SelectSetting key);
     ret (case r of Rows (row # _) \<Rightarrow> map_option (fit buflen) (column_text (row ! 0)) | _ \<Rightarrow> None) }"

definition db_set_setting :: "'db engine \<Rightarrow> string \<Rightarrow> string \<Rightarrow> (('db, 'a) dbs_scheme, int) state" where
  "db_set_setting E key v = do {
     r \<leftarrow> sql_run E (UpsertSetting key v);
     ret (if r = Done then 0 else -1) }"

definition db_increment_counter :: "'db engine \<Rightarrow> string \<Rightarrow> (('db, 'a) dbs_scheme, int) state" where
  "db_increment_counter E key = do {
     v \<leftarrow> db_get_setting E key 64;
     let nxt = wrap64 ((case v of None \<Rightarrow> 0 | Some b \<Rightarrow> atoll b) + 1);
     _ \<leftarrow> db_set_setting E key (fit 64 (show_int nxt));
     ret nxt }"

definition db_save_oauth_token ::
  "'db engine \<Rightarrow> string \<Rightarrow> string option \<Rightarrow> int \<Rightarrow> (('db, 'a) dbs_scheme, int) state" where
  "db_save_oauth_token E token client expires_in = do {
     issued \<leftarrow> util_now_iso;
     now \<leftarrow> time_now;
     let expires = fit 64 (iso_time (gmtime (now + expires_in)));
     r \<leftarrow> sql_run E (ReplaceToken token (case client of Some c \<Rightarrow> c | None \<Rightarrow> ''unknown'') issued expires);
     ret (if r = Done then 0 else -1) }"

text \<open>The client serial on success; \<open>None\<close> is the -1.\<close>

definition token_expiry :: "string option \<Rightarrow> int option" where
  "token_expiry expires =
     (case expires of None \<Rightarrow> None
      | Some e \<Rightarrow> if e = [] then None else map_option (timegm \<circ> tm_of_scan) (scan_iso e))"

definition db_load_oauth_token ::
  "'db engine \<Rightarrow> string \<Rightarrow> nat \<Rightarrow> (('db, 'a) dbs_scheme, string option) state" where
  "db_load_oauth_token E token serial_len = do {
     r \<leftarrow> sql_run E (SelectToken token);
     (case r of
        Rows (row # _) \<Rightarrow>
          (let serial = map_option (fit serial_len) (column_text (row ! 0)) in
           case token_expiry (column_text (row ! 2)) of
             None \<Rightarrow> ret serial
           | Some exp_t \<Rightarrow> do {
               now \<leftarrow> time_now;
               ret (if exp_t < now then None else serial) })
      | _ \<Rightarrow> ret None) }"

definition store_normalize_serial :: "string option \<Rightarrow> nat \<Rightarrow> string" where
  "store_normalize_serial v outlen =
     (let tmp = util_trim (fit 256 (case v of Some s \<Rightarrow> s | None \<Rightarrow> []))
      in if 32 \<le> length tmp \<and> util_is_hex_serial tmp then util_uppercase (fit outlen tmp)
         else fit outlen default_tse_serial)"

text \<open>One \<^verbatim>\<open>sqlite3_exec\<close> of several statements: in order, up to the first that fails.\<close>

primrec create_items :: "'db engine \<Rightarrow> schema_item list \<Rightarrow> (('db, 'a) dbs_scheme, bool) state" where
  "create_items E [] = ret True"
| "create_items E (i # is) = do {
     r \<leftarrow> sql_run E (CreateItem i);
     if r \<noteq> Done then ret False else create_items E is }"

text \<open>The end of \<^verbatim>\<open>db_init_schema\<close>: a stored serial that is not hexadecimal is replaced.\<close>

definition repair_serial :: "'db engine \<Rightarrow> string \<Rightarrow> (('db, 'a) dbs_scheme, unit) state" where
  "repair_serial E serial = do {
     stored \<leftarrow> db_get_setting E ''tse_serial'' 128;
     (case stored of
        Some v \<Rightarrow> if \<not> util_is_hex_serial v then do { _ \<leftarrow> db_set_setting E ''tse_serial'' serial; ret () }
                  else ret ()
      | None \<Rightarrow> ret ()) }"

definition db_init_schema :: "'db engine \<Rightarrow> config \<Rightarrow> (('db, 'a) dbs_scheme, int) state" where
  "db_init_schema E cfg = do {
     created \<leftarrow> create_items E schema_items;
     if \<not> created then ret (-1) else do {
       now \<leftarrow> util_now_iso;
       let serial = store_normalize_serial (Some (cfg_tse_serial cfg)) 128;
       _ \<leftarrow> sql_run E (InsertSettingIgnore ''signature_counter'' ''0'');
       _ \<leftarrow> sql_run E (InsertSettingIgnore ''transaction_counter'' ''0'');
       _ \<leftarrow> sql_run E (InsertSettingIgnore ''created_at'' now);
       _ \<leftarrow> sql_run E (InsertSettingIgnore ''tse_serial'' serial);
       _ \<leftarrow> repair_serial E serial;
       ret 0 } }"

section \<open>What the source relies on\<close>

text \<open>
  \<open>view\<close> reads the committed tables of a connection.  Each statement is its own transaction: it
  either fails and leaves the tables as they were, or has the effect of its text.
\<close>

locale sqlite_engine =
  fixes E :: "'db engine" and view :: "'db \<Rightarrow> tables"
  assumes step_atomic:
    "sql_failed (snd (E d q)) \<and> view (fst (E d q)) = view d
     \<or> (view (fst (E d q)), snd (E d q)) = sql_exec (view d) q"

locale sqlite_reliable =
  fixes E :: "'db engine" and view :: "'db \<Rightarrow> tables"
  assumes step_exact: "(view (fst (E d q)), snd (E d q)) = sql_exec (view d) q"

sublocale sqlite_reliable \<subseteq> engine: sqlite_engine E view
  by unfold_locales (simp add: step_exact)

subsection \<open>Facts that hold whatever fails\<close>

text \<open>Keys are unique in every table, and a transaction is open or finished.\<close>

definition states_wf :: "(int \<times> tx_row) list \<Rightarrow> bool" where
  "states_wf t \<longleftrightarrow> (\<forall>p \<in> set t. x_state (snd p) = ''ACTIVE'' \<or> x_state (snd p) = ''FINISHED'')"

definition tables_wf :: "tables \<Rightarrow> bool" where
  "tables_wf t \<longleftrightarrow> distinct (map fst (t_settings t)) \<and> distinct (map fst (t_clients t)) \<and>
     distinct (map fst (t_transactions t)) \<and> distinct (map fst (t_tokens t)) \<and>
     states_wf (t_transactions t)"

lemma set_update_subset: "set (AList.update k v t) \<subseteq> insert (k, v) (set t)"
  by (induction t) auto

lemma distinct_map_entry: "distinct (map fst t) \<Longrightarrow> distinct (map fst (map_entry k f t))"
  by (simp add: map_entry_def distinct_update split: option.split)

lemma set_map_entry: "p \<in> set (map_entry k f t) \<Longrightarrow> p \<in> set t \<or> (\<exists>v. p = (k, f v))"
  using set_update_subset [of k _ t] by (auto simp: map_entry_def split: option.splits)

lemma map_of_map_entry:
  "map_of (map_entry k f t) j = (if j = k then map_option f (map_of t k) else map_of t j)"
  by (auto simp: map_entry_def update_conv' split: option.split)

lemma states_wf_update:
  "states_wf t \<Longrightarrow> x_state v = ''ACTIVE'' \<or> x_state v = ''FINISHED'' \<Longrightarrow> states_wf (AList.update k v t)"
  using set_update_subset [of k v t] by (auto simp: states_wf_def)

lemma states_wf_map_entry:
  "states_wf t \<Longrightarrow> (\<And>x. x_state (f x) = ''FINISHED'') \<Longrightarrow> states_wf (map_entry k f t)"
  using set_map_entry [of _ k f t] by (fastforce simp: states_wf_def)

lemma sql_exec_wf: "tables_wf t \<Longrightarrow> tables_wf (fst (sql_exec t q))"
  by (cases q)
    (auto simp: tables_wf_def distinct_update distinct_map_entry new_tx_def
      intro!: states_wf_update states_wf_map_entry split: option.split)

text \<open>A relation between the tables before and after that every statement of a set keeps.\<close>

definition keeps :: "sql set \<Rightarrow> (tables \<Rightarrow> tables \<Rightarrow> bool) \<Rightarrow> bool" where
  "keeps Q R \<longleftrightarrow> (\<forall>t. \<forall>q \<in> Q. R t (fst (sql_exec t q)))"

context sqlite_engine begin

lemma view_cases:
  "view (fst (E d q)) = view d \<or> view (fst (E d q)) = fst (sql_exec (view d) q)"
  using step_atomic [of d q] by (metis fst_conv)

lemma io_sql:
  assumes "reflp R" "keeps Q R" "q \<in> Q"
  shows "state_io_rel (\<lambda>s s'. R (view (db_conn s)) (view (db_conn s'))) (sql_run E q)"
  using assms view_cases
  by (auto simp: state_io_rel_def keeps_def) (metis reflpE)

end

text \<open>The statements each operation of this layer issues.\<close>

definition setting_reads :: "sql set" where
  "setting_reads = range SelectSetting"

definition setting_writes :: "sql set" where
  "setting_writes = {q. \<exists>k v. q = UpsertSetting k v} \<union> setting_reads"

definition token_reads :: "sql set" where
  "token_reads = range SelectToken"

definition token_writes :: "sql set" where
  "token_writes = {q. \<exists>t c i e. q = ReplaceToken t c i e}"

definition schema_writes :: "sql set" where
  "schema_writes = range CreateItem \<union> {q. \<exists>k v. q = InsertSettingIgnore k v} \<union> setting_writes"

definition on_view :: "('db \<Rightarrow> tables) \<Rightarrow> (tables \<Rightarrow> tables \<Rightarrow> bool) \<Rightarrow>
    ('db, 'a) dbs_scheme \<Rightarrow> ('db, 'a) dbs_scheme \<Rightarrow> bool" where
  "on_view view R s s' \<longleftrightarrow> R (view (db_conn s)) (view (db_conn s'))"

lemma keeps_mono: "keeps Q R \<Longrightarrow> Q' \<subseteq> Q \<Longrightarrow> keeps Q' R"
  by (auto simp: keeps_def)

lemma keeps_same [simp]: "keeps setting_reads (=)" "keeps token_reads (=)"
  by (auto simp: keeps_def setting_reads_def token_reads_def)

lemma reflp_on_view [frame]: "reflp R \<Longrightarrow> reflp (on_view view R)"
  by (auto simp: on_view_def reflp_def)

lemma transp_on_view [frame]: "transp R \<Longrightarrow> transp (on_view view R)"
  unfolding on_view_def by (rule transpI) (blast dest: transpD)

lemma io_time_now [frame]: "reflp R \<Longrightarrow> state_io_rel (on_view view R) time_now"
  by (auto simp: state_io_rel_def on_view_def time_now_def reflp_def)

lemma io_util_now_iso [frame]: "reflp R \<Longrightarrow> state_io_rel (on_view view R) util_now_iso"
  by (auto simp: state_io_rel_def on_view_def reflp_def)

lemma io_create_items [frame]:
  assumes "reflp R" "transp R" "\<And>i. state_io_rel R (sql_run E (CreateItem i))"
  shows "state_io_rel R (create_items E is)"
proof (induction "is")
  case (Cons i "is")
  then show ?case unfolding create_items.simps by (intro io_bind io_if io_return assms)
qed (simp add: io_return assms)

context sqlite_engine begin

lemma io_run [frame]:
  "reflp R \<Longrightarrow> keeps Q R \<Longrightarrow> q \<in> Q \<Longrightarrow> state_io_rel (on_view view R) (sql_run E q)"
  using io_sql [of R Q q] by (simp add: on_view_def [abs_def])

lemma io_db_get_setting [frame]:
  "reflp R \<Longrightarrow> transp R \<Longrightarrow> keeps setting_reads R \<Longrightarrow> state_io_rel (on_view view R) (db_get_setting E k n)"
  unfolding db_get_setting_def by (intro frame) (auto simp: setting_reads_def)

lemma io_db_set_setting [frame]:
  "reflp R \<Longrightarrow> transp R \<Longrightarrow> keeps setting_writes R \<Longrightarrow> state_io_rel (on_view view R) (db_set_setting E k v)"
  unfolding db_set_setting_def by (intro frame) (auto simp: setting_writes_def)

lemma io_db_increment_counter [frame]:
  "reflp R \<Longrightarrow> transp R \<Longrightarrow> keeps setting_writes R \<Longrightarrow>
   state_io_rel (on_view view R) (db_increment_counter E k)"
  unfolding db_increment_counter_def Let_def
  by (intro frame) (auto simp: setting_writes_def intro: keeps_mono)

lemma io_db_save_oauth_token [frame]:
  "reflp R \<Longrightarrow> transp R \<Longrightarrow> keeps token_writes R \<Longrightarrow>
   state_io_rel (on_view view R) (db_save_oauth_token E tok c n)"
  unfolding db_save_oauth_token_def Let_def by (intro frame) (auto simp: token_writes_def)

lemma io_row [frame]:
  "state_io_rel R m \<Longrightarrow> (\<And>row rows. state_io_rel R (f row rows)) \<Longrightarrow>
   state_io_rel R (case r of PrepareFailed \<Rightarrow> m | StepFailed \<Rightarrow> m | Done \<Rightarrow> m
     | Rows [] \<Rightarrow> m | Rows (row # rows) \<Rightarrow> f row rows)"
  by (auto split: sql_result.split list.split)

lemma io_db_load_oauth_token [frame]:
  "reflp R \<Longrightarrow> transp R \<Longrightarrow> keeps token_reads R \<Longrightarrow>
   state_io_rel (on_view view R) (db_load_oauth_token E tok n)"
  unfolding db_load_oauth_token_def Let_def by (intro frame) (auto simp: token_reads_def)

lemma io_repair_serial [frame]:
  "reflp R \<Longrightarrow> transp R \<Longrightarrow> keeps setting_writes R \<Longrightarrow> state_io_rel (on_view view R) (repair_serial E v)"
  unfolding repair_serial_def by (intro frame) (auto simp: setting_writes_def intro: keeps_mono)

lemma io_db_init_schema [frame]:
  assumes R: "reflp R" "transp R" "keeps schema_writes R"
  shows "state_io_rel (on_view view R) (db_init_schema E cfg)"
proof -
  note run = io_run [OF R(1,3)] io_repair_serial [OF R(1,2) keeps_mono [OF R(3)]]
  show ?thesis
    unfolding db_init_schema_def Let_def
    by (intro io_bind io_if io_return io_create_items io_util_now_iso reflp_on_view transp_on_view R run)
      (auto simp: schema_writes_def)
qed

end

subsection \<open>The operations on a reliable engine\<close>

context sqlite_reliable begin

lemma step_fst: "view (fst (E d q)) = fst (sql_exec (view d) q)"
  using step_exact [of d q] by (metis fst_conv)

lemma step_snd: "snd (E d q) = snd (sql_exec (view d) q)"
  using step_exact [of d q] by (metis snd_conv)

lemmas exact = step_fst step_snd

abbreviation tbl :: "('db, 'a) dbs_scheme \<Rightarrow> tables" where
  "tbl s \<equiv> view (db_conn s)"

lemma value_db_get_setting:
  "t_schema (tbl s) \<Longrightarrow>
   value_of (db_get_setting E k n) s = map_option (fit n) (map_of (t_settings (tbl s)) k)"
  by (simp add: exact db_get_setting_def column_text_def split: option.split)

lemma tbl_db_get_setting [simp]: "tbl (poststate (db_get_setting E k n) s) = tbl s"
  by (simp add: exact db_get_setting_def)

lemma value_db_set_setting: "t_schema (tbl s) \<Longrightarrow> value_of (db_set_setting E k v) s = 0"
  by (simp add: exact db_set_setting_def)

lemma tbl_db_set_setting:
  "t_schema (tbl s) \<Longrightarrow>
   tbl (poststate (db_set_setting E k v) s) = (tbl s)\<lparr>t_settings := AList.update k v (t_settings (tbl s))\<rparr>"
  by (simp add: exact db_set_setting_def)

text \<open>Every item of the schema is created; an index has its table before it.\<close>

lemma run_create_schema:
  "value_of (create_items E schema_items) s"
  "tbl (poststate (create_items E schema_items) s) = (tbl s)\<lparr>t_items := set schema_items \<union> t_items (tbl s)\<rparr>"
  by (simp_all add: schema_items_def exact split_beta insert_commute)

lemma schema_created: "t_schema (t\<lparr>t_items := set schema_items \<union> t_items t'\<rparr>)"
  by (simp add: t_schema_def)

lemma tbl_repair_serial:
  assumes "t_schema (tbl s)"
  shows "t_schema (tbl (poststate (repair_serial E v) s))"
    and "k \<noteq> ''tse_serial'' \<Longrightarrow>
      map_of (t_settings (tbl (poststate (repair_serial E v) s))) k = map_of (t_settings (tbl s)) k"
  using assms
  by (cases "value_of (db_get_setting E ''tse_serial'' 128) s";
      simp add: repair_serial_def tbl_db_set_setting split_beta update_conv')+

text \<open>A counter holds the decimal text of its value.\<close>

lemma run_db_increment_counter:
  assumes "t_schema (tbl s)" "map_of (t_settings (tbl s)) k = Some (show_int c)" "0 \<le> c" "c + 1 < 2 ^ 63"
  shows "value_of (db_increment_counter E k) s = c + 1"
    and "tbl (poststate (db_increment_counter E k) s)
      = (tbl s)\<lparr>t_settings := AList.update k (show_int (c + 1)) (t_settings (tbl s))\<rparr>"
proof -
  have len: "length (show_int i) < 64" if "0 \<le> i" "i < 2 ^ 63" for i
  proof -
    have "nat i < 10 ^ 19" using that by simp
    then show ?thesis using show_nat_length [of "nat i" 19] that by (simp add: show_int_def)
  qed
  have f: "fit 64 (show_int c) = show_int c" "fit 64 (show_int (c + 1)) = show_int (c + 1)"
    using len assms(3,4) by simp_all
  have "atoll (show_int c) = c" using assms(3,4) by (intro atoll_show_int) simp_all
  moreover have "wrap64 (c + 1) = c + 1" using assms(3,4) by (intro wrap64_id) simp_all
  ultimately show "value_of (db_increment_counter E k) s = c + 1"
    and "tbl (poststate (db_increment_counter E k) s)
      = (tbl s)\<lparr>t_settings := AList.update k (show_int (c + 1)) (t_settings (tbl s))\<rparr>"
    using assms(1,2) f
    by (simp_all add: exact db_increment_counter_def value_db_get_setting tbl_db_set_setting split_beta Let_def)
qed

lemma tbl_db_save_oauth_token:
  "t_schema (tbl s) \<Longrightarrow>
   value_of (db_save_oauth_token E tok c secs) s = 0 \<and>
   tbl (poststate (db_save_oauth_token E tok c secs) s)
     = (tbl s)\<lparr>t_tokens := AList.update tok
         \<lparr>tok_client = (case c of Some c \<Rightarrow> c | None \<Rightarrow> ''unknown''),
          tok_issued = iso_time (gmtime (os_time s (os_ticks s))),
          tok_expires = fit 64 (iso_time (gmtime (os_time s (Suc (os_ticks s)) + secs)))\<rparr>
         (t_tokens (tbl s))\<rparr>"
  by (simp add: exact db_save_oauth_token_def time_now_def Let_def)

lemma tbl_db_load_oauth_token: "tbl (poststate (db_load_oauth_token E tok n) s) = tbl s"
proof (cases "Tokens_table \<in> t_items (tbl s)")
  case True
  show ?thesis
  proof (cases "map_of (t_tokens (tbl s)) tok")
    case None
    with True show ?thesis by (simp add: exact db_load_oauth_token_def)
  next
    case (Some r)
    with True show ?thesis
      by (cases "token_expiry (Some (tok_expires r))")
        (simp_all add: exact db_load_oauth_token_def column_text_def time_now_def)
  qed
qed (simp add: exact db_load_oauth_token_def)

text \<open>A stored token is honoured as long as the expiry text does not lie in the past.\<close>

lemma value_db_load_oauth_token:
  assumes "t_schema (tbl s)"
  shows "value_of (db_load_oauth_token E tok n) s =
    (case map_of (t_tokens (tbl s)) tok of None \<Rightarrow> None
     | Some r \<Rightarrow>
        (case token_expiry (Some (tok_expires r)) of
           None \<Rightarrow> Some (fit n (tok_client r))
         | Some x \<Rightarrow> if x < os_time s (os_ticks s) then None else Some (fit n (tok_client r))))"
proof (cases "map_of (t_tokens (tbl s)) tok")
  case None
  with assms show ?thesis by (simp add: exact db_load_oauth_token_def)
next
  case (Some r)
  with assms show ?thesis
    by (cases "token_expiry (Some (tok_expires r))")
      (simp_all add: exact db_load_oauth_token_def column_text_def time_now_def)
qed

end

lemma token_expiry_iso:
  assumes "0 \<le> t" "t < 2 ^ 55"
  shows "token_expiry (Some (fit 64 (iso_time (gmtime t)))) = Some t"
proof -
  have p: "printable_time t" using assms by (rule printable_time_bound)
  obtain f where f: "scan_iso (iso_time (gmtime t)) = Some f" "timegm (tm_of_scan f) = t"
    using timegm_scan_iso [OF p] by blast
  have "length (iso_time (gmtime t)) < 64" using p by (rule length_iso_time)
  moreover have "iso_time (gmtime t) \<noteq> []" by (simp add: iso_time_def)
  ultimately show ?thesis using f by (simp add: token_expiry_def)
qed

section \<open>SQLite as its statements say\<close>

text \<open>
  The reference semantics itself is a reliable engine, and an engine that fails on a schedule is an
  atomic one: both interfaces can be met.
\<close>

definition fresh_tables :: tables where
  "fresh_tables = \<lparr>t_items = set schema_items, t_settings = [], t_clients = [], t_transactions = [], t_tokens = []\<rparr>"

text \<open>A process at a fixed clock, without entropy, on given tables.\<close>

definition fresh_process :: "int \<Rightarrow> 'db \<Rightarrow> 'db dbs" where
  "fresh_process now t = \<lparr>os_time = (\<lambda>_. now), os_ticks = 0, os_urandom = (\<lambda>_ _. None), os_draws = 0,
     os_utc_offset = (\<lambda>_. 0), db_conn = t\<rparr>"

interpretation mem: sqlite_reliable sql_exec "\<lambda>t. t"
  by unfold_locales simp

definition faulty_exec :: "(nat \<Rightarrow> sql_result) \<Rightarrow> (nat \<times> tables) engine" where
  "faulty_exec plan d q =
     (if sql_failed (plan (fst d)) then ((Suc (fst d), snd d), plan (fst d))
      else ((Suc (fst d), fst (sql_exec (snd d) q)), snd (sql_exec (snd d) q)))"

lemma faulty_exec_cases:
  "sql_failed (snd (faulty_exec plan d q)) \<and> snd (fst (faulty_exec plan d q)) = snd d
   \<or> (snd (fst (faulty_exec plan d q)), snd (faulty_exec plan d q)) = sql_exec (snd d) q"
  by (cases "sql_failed (plan (fst d))") (simp_all add: faulty_exec_def)

interpretation faulty: sqlite_engine "faulty_exec plan" snd
  by unfold_locales (rule faulty_exec_cases)

section \<open>Properties\<close>

text \<open>
  Settings are a map: on a reliable engine a stored setting is read back (as far as the reader's
  buffer goes), and every other setting reads as before.
\<close>

theorem setting_read_back:
  assumes "sqlite_reliable E view" and "t_schema (view (db_conn s))"
  shows "value_of (db_set_setting E k v) s = 0
    \<and> value_of (db_get_setting E j n) (poststate (db_set_setting E k v) s)
      = (if j = k then Some (fit n v) else value_of (db_get_setting E j n) s)"
  using assms
  by (simp_all add: sqlite_reliable.value_db_get_setting sqlite_reliable.value_db_set_setting
      sqlite_reliable.tbl_db_set_setting update_conv')

theorem setting_read_back_witness:
  "value_of (db_get_setting sql_exec ''a'' 64)
     (poststate (db_set_setting sql_exec ''a'' ''x'') (fresh_process 0 fresh_tables)) = Some ''x''"
  using setting_read_back [OF mem.sqlite_reliable_axioms, of "fresh_process 0 fresh_tables" "''a''" "''x''" "''a''" 64]
  by (simp add: fresh_process_def fresh_tables_def)

text \<open>
  A counter never repeats a value: \<open>n\<close> increments of a counter at \<open>c\<close> return
  \<open>c + 1, ..., c + n\<close>, as long as the value stays within 64 bits.
\<close>

theorem counter_values:
  assumes "sqlite_reliable E view" and "t_schema (view (db_conn s))"
    and "map_of (t_settings (view (db_conn s))) k = Some (show_int c)"
    and "0 \<le> c" and "c + int n < 2 ^ 63"
  shows "value_of (State_Monad.traverse_list (\<lambda>_. db_increment_counter E k) (replicate n ())) s
    = map (\<lambda>i. c + int i) [1..<n + 1]"
  using assms
proof (induction n arbitrary: s c)
  case (Suc n)
  let ?s = "poststate (db_increment_counter E k) s"
  note inc = sqlite_reliable.run_db_increment_counter [OF Suc.prems(1-4)]
  have "c + 1 < 2 ^ 63" using Suc.prems by simp
  note inc = inc [OF this]
  have "value_of (State_Monad.traverse_list (\<lambda>_. db_increment_counter E k) (replicate n ())) ?s
      = map (\<lambda>i. (c + 1) + int i) [1..<n + 1]"
    using Suc.prems inc(2) by (intro Suc.IH) (simp_all add: update_conv')
  moreover have "map (\<lambda>i. c + int i) [1..<Suc n + 1] = (c + 1) # map (\<lambda>i. (c + 1) + int i) [1..<n + 1]"
  proof -
    have "[1..<Suc n + 1] = 1 # map Suc [1..<n + 1]" by (simp add: upt_conv_Cons map_Suc_upt)
    then show ?thesis by (simp add: comp_def add.assoc del: upt_Suc)
  qed
  ultimately show ?case using inc(1) by (simp add: split_beta del: upt_Suc)
qed simp

theorem counter_values_witness:
  "value_of (State_Monad.traverse_list (\<lambda>_. db_increment_counter sql_exec ''c'') (replicate 2 ()))
     (fresh_process 0 (fresh_tables\<lparr>t_settings := [(''c'', show_int 41)]\<rparr>)) = [42, 43]"
  using counter_values [OF mem.sqlite_reliable_axioms,
      of "fresh_process 0 (fresh_tables\<lparr>t_settings := [(''c'', show_int 41)]\<rparr>)" "''c''" 41 2]
  by (simp add: fresh_process_def fresh_tables_def upt_rec)

text \<open>
  C35. A bearer token works exactly for the time it was issued for: stored at \<open>now\<close> for \<open>secs\<close>
  seconds, it gives its client's serial while the clock reads at most \<open>now + secs\<close> and nothing
  afterwards, and a token that is not stored gives nothing.
\<close>

theorem token_lifetime:
  assumes "sqlite_reliable E view" and "t_schema (view (db_conn s))"
    and "0 \<le> now + secs" and "now + secs < 2 ^ 55" and "now = os_time s (Suc (os_ticks s))"
    and "t_schema (view (db_conn s'))"
    and "t_tokens (view (db_conn s')) = t_tokens (view (db_conn (poststate (db_save_oauth_token E tok (Some c) secs) s)))"
  shows "value_of (db_load_oauth_token E tok n) s'
      = (if os_time s' (os_ticks s') \<le> now + secs then Some (fit n c) else None)
    \<and> (map_of (t_tokens (view (db_conn s'))) other = None \<longrightarrow>
      value_of (db_load_oauth_token E other n) s' = None)"
proof -
  note save = sqlite_reliable.tbl_db_save_oauth_token [OF assms(1,2), of tok "Some c" secs]
  have "token_expiry (Some (fit 64 (iso_time (gmtime (os_time s (Suc (os_ticks s)) + secs))))) = Some (now + secs)"
    using token_expiry_iso [OF assms(3,4)] assms(5) by simp
  then show ?thesis
    using save assms(7) by (simp add: sqlite_reliable.value_db_load_oauth_token [OF assms(1,6)] update_conv')
qed

theorem token_lifetime_witness:
  "value_of (db_load_oauth_token sql_exec ''t'' 256)
     (poststate (db_save_oauth_token sql_exec ''t'' (Some ''c'') 86400) (fresh_process 1000 fresh_tables)) = Some ''c''"
  using token_lifetime [OF mem.sqlite_reliable_axioms, of "fresh_process 1000 fresh_tables" 1000 86400
      "poststate (db_save_oauth_token sql_exec ''t'' (Some ''c'') 86400) (fresh_process 1000 fresh_tables)"
      "''t''" "''c''" 256]
    mem.tbl_db_save_oauth_token [of "fresh_process 1000 fresh_tables" "''t''" "Some ''c''" 86400]
  by (simp add: fresh_process_def fresh_tables_def db_save_oauth_token_def time_now_def Let_def)

text \<open>What a statement that writes one table leaves alone.\<close>

definition only_settings :: "tables \<Rightarrow> tables \<Rightarrow> bool" where
  "only_settings t t' \<longleftrightarrow> (tables_wf t \<longrightarrow> tables_wf t') \<and> t_clients t' = t_clients t \<and>
     t_transactions t' = t_transactions t \<and> t_tokens t' = t_tokens t \<and> (t_schema t \<longrightarrow> t_schema t')"

definition only_tokens :: "tables \<Rightarrow> tables \<Rightarrow> bool" where
  "only_tokens t t' \<longleftrightarrow> (tables_wf t \<longrightarrow> tables_wf t') \<and> t_clients t' = t_clients t \<and>
     t_transactions t' = t_transactions t \<and> t_settings t' = t_settings t \<and> t_schema t' = t_schema t"

lemma only_rel [simp]: "reflp only_settings" "transp only_settings" "reflp only_tokens" "transp only_tokens"
  by (auto simp: only_settings_def only_tokens_def intro!: reflpI transpI)

lemma keeps_only_settings: "keeps schema_writes only_settings"
  using sql_exec_wf
  by (auto simp: keeps_def schema_writes_def setting_writes_def setting_reads_def only_settings_def)

lemma keeps_only_tokens: "keeps token_writes only_tokens"
  unfolding keeps_def
proof (intro allI ballI)
  fix t q assume "q \<in> token_writes"
  then obtain k c i e where q: "q = ReplaceToken k c i e" by (auto simp: token_writes_def)
  show "only_tokens t (fst (sql_exec t q))"
    using sql_exec_wf [of t q] by (simp add: q only_tokens_def)
qed

text \<open>
  Each operation of the database layer writes only its own table, whatever statements fail:
  initialisation, settings and counters change nothing but settings, storing a token nothing but
  tokens, looking one up nothing at all, and the tables stay well-formed.
\<close>

theorem db_layer_frame:
  assumes "sqlite_engine E view"
  shows "only_settings (view (db_conn s)) (view (db_conn (poststate (db_init_schema E cfg) s)))
    \<and> only_settings (view (db_conn s)) (view (db_conn (poststate (db_set_setting E k v) s)))
    \<and> only_settings (view (db_conn s)) (view (db_conn (poststate (db_increment_counter E k) s)))
    \<and> only_tokens (view (db_conn s)) (view (db_conn (poststate (db_save_oauth_token E tok c n) s)))
    \<and> view (db_conn (poststate (db_load_oauth_token E tok m) s)) = view (db_conn s)"
proof -
  note io = sqlite_engine.io_db_init_schema sqlite_engine.io_db_set_setting
    sqlite_engine.io_db_increment_counter sqlite_engine.io_db_save_oauth_token
    sqlite_engine.io_db_load_oauth_token
  have writes: "keeps setting_writes only_settings"
    using keeps_only_settings by (rule keeps_mono) (auto simp: schema_writes_def)
  note D = io [OF assms, THEN io_poststateD, of _ s, unfolded on_view_def]
  have "reflp ((=) :: tables \<Rightarrow> _)" "transp ((=) :: tables \<Rightarrow> _)" by auto
  then show ?thesis
    using D(1) [OF only_rel(1,2) keeps_only_settings] D(2,3) [OF only_rel(1,2) writes]
      D(4) [OF only_rel(3,4) keeps_only_tokens] D(5) [OF _ _ keeps_same(2)]
    by metis
qed

theorem db_layer_frame_witness:
  "only_settings fresh_tables
     (snd (db_conn (poststate (db_increment_counter (faulty_exec (\<lambda>n. if n = 1 then StepFailed else Done)) ''c'')
        (fresh_process 0 (0, fresh_tables)))))"
  using db_layer_frame [OF faulty.sqlite_engine_axioms [of "\<lambda>n. if n = 1 then StepFailed else Done"],
      of "fresh_process 0 (0, fresh_tables)"]
  by (simp add: fresh_process_def)

lemma insert_setting:
  "t_schema t \<Longrightarrow> map_of (t_settings (fst (sql_exec t (InsertSettingIgnore k v)))) j
     = (if j = k \<and> map_of (t_settings t) k = None then Some v else map_of (t_settings t) j)"
  "t_schema (fst (sql_exec t (InsertSettingIgnore k v))) = t_schema t"
  by (auto simp: update_conv')

text \<open>
  Opening an existing database keeps its counters: after a successful initialisation on a
  reliable engine the schema is there, each counter has the value it had, or \<open>0\<close> where there was
  none, and clients, transactions and tokens are as before.
\<close>

theorem init_schema_keeps:
  assumes "sqlite_reliable E view"
    and "k \<in> {''signature_counter'', ''transaction_counter''}"
  shows "value_of (db_init_schema E cfg) s = 0
    \<and> (let t = view (db_conn s); t' = view (db_conn (poststate (db_init_schema E cfg) s)) in
        t_schema t' \<and> map_of (t_settings t') k = Some (case map_of (t_settings t) k of None \<Rightarrow> ''0'' | Some v \<Rightarrow> v)
        \<and> t_clients t' = t_clients t \<and> t_transactions t' = t_transactions t \<and> t_tokens t' = t_tokens t)"
proof -
  have E: "sqlite_engine E view"
    using assms(1) by (simp add: sqlite_engine_def sqlite_reliable_def)
  note facts = sqlite_reliable.exact [OF assms(1)] sqlite_reliable.tbl_repair_serial [OF assms(1)]
    sqlite_reliable.run_create_schema [OF assms(1)] sqlite_reliable.schema_created [OF assms(1)]
  have k: "k \<noteq> ''tse_serial''" using assms(2) by auto
  have "value_of (db_init_schema E cfg) s = 0"
    "t_schema (view (db_conn (poststate (db_init_schema E cfg) s)))"
    by (simp_all add: db_init_schema_def facts Let_def split_beta insert_setting del: sql_exec.simps create_items.simps)
  moreover have "map_of (t_settings (view (db_conn (poststate (db_init_schema E cfg) s)))) k
      = Some (case map_of (t_settings (view (db_conn s))) k of None \<Rightarrow> ''0'' | Some v \<Rightarrow> v)"
  proof -
    from assms(2) consider "k = ''signature_counter''" | "k = ''transaction_counter''" by blast
    then show ?thesis
      by cases (cases "map_of (t_settings (view (db_conn s))) k";
        simp add: db_init_schema_def facts Let_def split_beta insert_setting del: sql_exec.simps create_items.simps)+
  qed
  moreover have "only_settings (view (db_conn s)) (view (db_conn (poststate (db_init_schema E cfg) s)))"
    using sqlite_engine.io_db_init_schema [OF E only_rel(1,2) keeps_only_settings, THEN io_poststateD]
    by (simp add: on_view_def)
  ultimately show ?thesis by (simp add: only_settings_def Let_def)
qed

theorem init_schema_keeps_witness:
  "map_of (t_settings (db_conn (poststate (db_init_schema sql_exec (config_load empty_env))
     (fresh_process 0 (fresh_tables\<lparr>t_settings := [(''signature_counter'', ''7'')]\<rparr>))))) ''signature_counter''
   = Some ''7''"
  using init_schema_keeps [OF mem.sqlite_reliable_axioms, of "''signature_counter''" "config_load empty_env"
      "fresh_process 0 (fresh_tables\<lparr>t_settings := [(''signature_counter'', ''7'')]\<rparr>)"]
  by (simp add: fresh_process_def fresh_tables_def Let_def)

end
