(* ===== verification/Tse_Types.thy ===== *)
theory Tse_Types
  imports Tse_Db
begin

text \<open>
  The records the store hands out (\<^verbatim>\<open>c/include/store.h\<close>), the calls of the WormAPI library
  (\<^verbatim>\<open>c/src/tse_worm.c\<close>'s function pointers) and the state of the whole process: the operating
  system and the database connection, the configuration, and the globals of the TSE client.
\<close>

section \<open>Transactions and information\<close>

record tse_transaction =
  tx_number :: int
  tx_client_id :: string
  tx_external_id :: string
  tx_process_type :: string
  tx_process_data :: string
  tx_state :: string
  tx_time_start :: string
  tx_time_end :: string
  tx_signature_counter :: int
  tx_signature_value :: string
  tx_serial_number :: string

definition blank_transaction :: tse_transaction where
  "blank_transaction = \<lparr>tx_number = 0, tx_client_id = [], tx_external_id = [], tx_process_type = [],
     tx_process_data = [], tx_state = [], tx_time_start = [], tx_time_end = [],
     tx_signature_counter = 0, tx_signature_value = [], tx_serial_number = []\<rparr>"

record tse_info =
  in_serial_number :: string
  in_signature_counter :: int
  in_transaction_counter :: int
  in_registered_clients :: int
  in_max_registered_clients :: int
  in_max_started_transactions :: int
  in_initialized :: bool
  in_created_at :: string
  in_fcc_version :: string
  in_db_path :: string
  in_hardware_version :: string
  in_firmware_version :: string
  in_worm_api_version :: string

definition blank_info :: tse_info where
  "blank_info = \<lparr>in_serial_number = [], in_signature_counter = 0, in_transaction_counter = 0,
     in_registered_clients = 0, in_max_registered_clients = 0, in_max_started_transactions = 0,
     in_initialized = False, in_created_at = [], in_fcc_version = [], in_db_path = [],
     in_hardware_version = [], in_firmware_version = [], in_worm_api_version = []\<rparr>"

section \<open>The WormAPI library\<close>

text \<open>The function pointers that may be \<^verbatim>\<open>NULL\<close> after loading.\<close>

datatype fnptr =
    P_info_new | P_info_free | P_info_read | P_info_serial | P_info_pubkey | P_info_serial_out
  | P_info_pubkey_out | P_tx_sig_legacy | P_tx_resp_signature | P_tx_resp_tx_num
  | P_tx_resp_sig_counter | P_tx_resp_log_time | P_register_client | P_run_self_test | P_update_time
  | P_user_login | P_user_logout | P_has_valid_time | P_has_passed_self_test
  | P_time_until_next_self_test | P_registered_clients | P_max_registered_clients
  | P_is_tx_in_progress | P_started_transactions | P_max_started_transactions
  | P_created_signatures | P_max_time_sync_delay | P_has_changed_time_admin_pin | P_init_state
  | P_hardware_version | P_firmware_version | P_tse_setup | P_get_certificate | P_get_version
  | P_export_tar | P_log_time_format | P_store_new | P_store_free | P_cleanup | P_init_callbacks
  | P_store_internal_new | P_rw_new | P_rw_director_connect
  | P_tx_resp_new | P_tx_resp_free | P_tx_start | P_tx_finish | P_init

text \<open>The calls, with their arguments; handles are integers and 0 is no handle.\<close>

datatype wcall =
    Info_new int | Info_free int | Info_read int | Info_u64 fnptr int | Info_serial int | Info_pubkey int
  | Resp_new int | Resp_free int | Resp_u64 fnptr int | Resp_signature int
  | Tx_start int string "u8 list" string int
  | Tx_finish int string u64 "u8 list" string int
  | Register_client int string | Run_self_test int string | Update_time int u64
  | User_login int int string | User_logout int int
  | Get_certificate_size int | Get_certificate int nat
  | Tse_setup int string string string string string
  | Export_tar int | Get_version | Log_time_format
  | Worm_init string | Worm_init_callbacks | Store_new string | Rw_new | Director_connect int
  | Store_internal_new int | Store_free int | Worm_cleanup int

text \<open>
  The library is a parameter: what each call returns and what it does to the library and the device,
  an opaque \<open>'hw\<close>.  A call that gives an error code returns an \<^verbatim>\<open>int\<close>; one that opens gives a
  code and a handle; one that reads bytes gives \<open>None\<close> for a null pointer.  \<open>api_export\<close> gives
  the chunks the export would deliver, the code when all are taken and the code when one is refused.
\<close>

record 'hw worm_api =
  api_rc :: "wcall \<Rightarrow> 'hw \<Rightarrow> int \<times> 'hw"
  api_open :: "wcall \<Rightarrow> 'hw \<Rightarrow> (int \<times> int) \<times> 'hw"
  api_handle :: "wcall \<Rightarrow> 'hw \<Rightarrow> int \<times> 'hw"
  api_u64 :: "wcall \<Rightarrow> 'hw \<Rightarrow> u64 \<times> 'hw"
  api_bytes :: "wcall \<Rightarrow> 'hw \<Rightarrow> u8 list option \<times> 'hw"
  api_text :: "wcall \<Rightarrow> 'hw \<Rightarrow> string option \<times> 'hw"
  api_void :: "wcall \<Rightarrow> 'hw \<Rightarrow> 'hw"
  api_export :: "int \<Rightarrow> 'hw \<Rightarrow> (u8 list list \<times> int \<times> int) \<times> 'hw"

section \<open>The process\<close>

text \<open>
  \<open>w_trace\<close> is the list of library calls made, each with its code or handle: the calls
  \<^verbatim>\<open>WORM_HW_CALL\<close> logs.  \<open>w_mu\<close> is \<^verbatim>\<open>g_worm_mu\<close>, held or free; \<open>w_stuck\<close> records that it
  was locked while held, which never returns.  \<open>s_running\<close> is the flag of the worker thread, and
  \<open>w_stack\<close> gives the text an automatic buffer of that name holds before it is written.
\<close>

record ('db, 'hw) server = "'db dbs" +
  g_config :: config
  g_created_at :: string
  hw :: 'hw
  w_ptr :: "fnptr \<Rightarrow> bool"
  w_legacy :: bool
  w_active :: bool
  w_store :: int
  w_serial :: string
  w_public_key_hex :: string
  w_public_key_b64 :: string
  w_certificate :: string
  w_store_path :: string
  w_last_time_sync :: int
  w_clients :: "string list"
  w_mu :: bool
  w_stuck :: bool
  w_trace :: "(wcall \<times> int) list"
  s_running :: bool
  w_stack :: "string \<Rightarrow> string"

type_synonym ('db, 'hw, 'a, 'r) prog = "(('db, 'hw, 'a) server_scheme, 'r) state"

end
