(* ===== verification/Tse_Worm.thy ===== *)
theory Tse_Worm
  imports Tse_Types
begin

unbundle bit_operations_syntax

text \<open>
  \<^verbatim>\<open>c/src/tse_worm.c\<close>: the client of the WormAPI library, from the calls it makes to the start and
  the end of a transaction.  Opening the device and provisioning are in \<open>Tse_Worm_Init\<close>.

  \<open>A\<close> is the library and \<open>E\<close> the SQLite engine.  Every call goes through one of the helpers below,
  which record it in the trace.
\<close>

section \<open>Error codes\<close>

definition WORM_ERROR_NOERROR :: int where "WORM_ERROR_NOERROR = 0"
definition WORM_ERROR_POWER_CYCLE_DETECTED :: int where "WORM_ERROR_POWER_CYCLE_DETECTED = 13"
definition WORM_ERROR_NO_TIME_SET :: int where "WORM_ERROR_NO_TIME_SET = 4098"
definition WORM_ERROR_WRONG_STATE_NEEDS_SELF_TEST :: int where
  "WORM_ERROR_WRONG_STATE_NEEDS_SELF_TEST = 4180"
definition WORM_ERROR_WRONG_STATE_NEEDS_SELF_TEST_PASSED :: int where
  "WORM_ERROR_WRONG_STATE_NEEDS_SELF_TEST_PASSED = 4181"
definition WORM_ERROR_AUTHENTICATION_FAILED :: int where "WORM_ERROR_AUTHENTICATION_FAILED = 4352"
definition WORM_ERROR_AUTHENTICATION_PIN_BLOCKED :: int where
  "WORM_ERROR_AUTHENTICATION_PIN_BLOCKED = 4609"
definition WORM_ERROR_SIG_ERROR :: int where "WORM_ERROR_SIG_ERROR = 65280"
definition WORM_USER_ADMIN :: int where "WORM_USER_ADMIN = 1"
definition WORM_USER_TIME_ADMIN :: int where "WORM_USER_TIME_ADMIN = 2"

lemmas worm_codes = WORM_ERROR_NOERROR_def WORM_ERROR_POWER_CYCLE_DETECTED_def
  WORM_ERROR_NO_TIME_SET_def WORM_ERROR_WRONG_STATE_NEEDS_SELF_TEST_def
  WORM_ERROR_WRONG_STATE_NEEDS_SELF_TEST_PASSED_def WORM_ERROR_AUTHENTICATION_FAILED_def
  WORM_ERROR_AUTHENTICATION_PIN_BLOCKED_def WORM_ERROR_SIG_ERROR_def WORM_USER_ADMIN_def
  WORM_USER_TIME_ADMIN_def

definition worm_rc_needs_self_test :: "int \<Rightarrow> bool" where
  "worm_rc_needs_self_test rc \<longleftrightarrow> rc = WORM_ERROR_WRONG_STATE_NEEDS_SELF_TEST \<or>
     rc = WORM_ERROR_WRONG_STATE_NEEDS_SELF_TEST_PASSED \<or>
     rc = WORM_ERROR_POWER_CYCLE_DETECTED \<or> rc = WORM_ERROR_SIG_ERROR"

definition worm_error_name :: "int \<Rightarrow> string option" where
  "worm_error_name rc =
     (if rc = 0 then Some ''NOERROR''
      else if rc = 13 then Some ''POWER_CYCLE_DETECTED''
      else if rc = 4098 then Some ''NO_TIME_SET''
      else if rc = 4103 then Some ''TSE_INVALID_PARAMETER''
      else if rc = 4113 then Some ''CLIENT_NOT_REGISTERED''
      else if rc = 4180 then Some ''WRONG_STATE_NEEDS_SELF_TEST''
      else if rc = 4181 then Some ''WRONG_STATE_NEEDS_SELF_TEST_PASSED''
      else if rc = 4352 then Some ''AUTHENTICATION_FAILED''
      else if rc = 4609 then Some ''AUTHENTICATION_PIN_BLOCKED''
      else if rc = 65280 then Some ''SIG_ERROR''
      else None)"

section \<open>Client identifiers\<close>

definition worm_fnv1a64 :: "string \<Rightarrow> u64" where
  "worm_fnv1a64 s =
     foldl (\<lambda>h c. (h XOR of_nat (char_code c)) * 1099511628211) 14695981039346656037 s"

text \<open>\<^verbatim>\<open>snprintf(buf, 17, "%016llx", h)\<close>.\<close>

definition hex16 :: "u64 \<Rightarrow> string" where
  "hex16 h = map (\<lambda>i. hex_lower ! unat (drop_bit (4 * (15 - i)) h AND 15)) [0..<16]"

definition worm_safe_client_id :: "string \<Rightarrow> nat \<Rightarrow> string" where
  "worm_safe_client_id client_id outlen =
     (if client_id = [] then util_strlcpy (Some ''default'') outlen
      else if length client_id \<le> 30 then util_strlcpy (Some client_id) outlen
      else
        let hash_hex = hex16 (worm_fnv1a64 client_id);
            prefix_len = min (30 - 1 - length hash_hex) (length client_id);
            safe = take prefix_len client_id @ CHR ''-'' #
                   util_strlcpy (Some hash_hex) (31 - prefix_len - 1)
        in util_strlcpy (Some safe) outlen)"

definition worm_client_is_cached_registered :: "('db, 'hw, 'a) server_scheme \<Rightarrow> string \<Rightarrow> bool" where
  "worm_client_is_cached_registered s client_id \<longleftrightarrow> list_ex (\<lambda>c. c = client_id) (w_clients s)"

definition worm_client_mark_registered :: "string \<Rightarrow> ('db, 'hw, 'a, unit) prog" where
  "worm_client_mark_registered client_id = modify (\<lambda>s.
     if worm_client_is_cached_registered s client_id then s
     else if length (w_clients s) < 64
       then s\<lparr>w_clients := w_clients s @ [util_strlcpy (Some client_id) 256]\<rparr>
     else s)"

section \<open>Calling the library\<close>

definition hw_rc :: "'hw worm_api \<Rightarrow> wcall \<Rightarrow> ('db, 'hw, 'a, int) prog" where
  "hw_rc A c = do {
     s \<leftarrow> State_Monad.get;
     State_Monad.set (s\<lparr>hw := snd (api_rc A c (hw s)), w_trace := w_trace s @ [(c, fst (api_rc A c (hw s)))]\<rparr>);
     ret (fst (api_rc A c (hw s))) }"

definition hw_handle :: "'hw worm_api \<Rightarrow> wcall \<Rightarrow> ('db, 'hw, 'a, int) prog" where
  "hw_handle A c = do {
     s \<leftarrow> State_Monad.get;
     State_Monad.set (s\<lparr>hw := snd (api_handle A c (hw s)), w_trace := w_trace s @ [(c, fst (api_handle A c (hw s)))]\<rparr>);
     ret (fst (api_handle A c (hw s))) }"

definition hw_u64 :: "'hw worm_api \<Rightarrow> wcall \<Rightarrow> ('db, 'hw, 'a, u64) prog" where
  "hw_u64 A c = do {
     s \<leftarrow> State_Monad.get;
     State_Monad.set (s\<lparr>hw := snd (api_u64 A c (hw s)), w_trace := w_trace s @ [(c, uint (fst (api_u64 A c (hw s))))]\<rparr>);
     ret (fst (api_u64 A c (hw s))) }"

definition hw_bytes :: "'hw worm_api \<Rightarrow> wcall \<Rightarrow> ('db, 'hw, 'a, u8 list option) prog" where
  "hw_bytes A c = do {
     s \<leftarrow> State_Monad.get;
     State_Monad.set (s\<lparr>hw := snd (api_bytes A c (hw s)), w_trace := w_trace s @ [(c, 0)]\<rparr>);
     ret (fst (api_bytes A c (hw s))) }"

definition hw_text :: "'hw worm_api \<Rightarrow> wcall \<Rightarrow> ('db, 'hw, 'a, string option) prog" where
  "hw_text A c = do {
     s \<leftarrow> State_Monad.get;
     State_Monad.set (s\<lparr>hw := snd (api_text A c (hw s)), w_trace := w_trace s @ [(c, 0)]\<rparr>);
     ret (fst (api_text A c (hw s))) }"

definition hw_void :: "'hw worm_api \<Rightarrow> wcall \<Rightarrow> ('db, 'hw, 'a, unit) prog" where
  "hw_void A c = modify (\<lambda>s. s\<lparr>hw := api_void A c (hw s), w_trace := w_trace s @ [(c, 0)]\<rparr>)"

definition worm_user_login_call :: "'hw worm_api \<Rightarrow> int \<Rightarrow> string \<Rightarrow> ('db, 'hw, 'a, int) prog" where
  "worm_user_login_call A user pin = do {
     s \<leftarrow> State_Monad.get;
     hw_rc A (User_login (w_store s) user pin) }"

definition worm_user_logout_call :: "'hw worm_api \<Rightarrow> int \<Rightarrow> ('db, 'hw, 'a, int) prog" where
  "worm_user_logout_call A user = do {
     s \<leftarrow> State_Monad.get;
     hw_rc A (User_logout (w_store s) user) }"

text \<open>
  The pattern all information queries share: a new information object, one read, the getters when the
  read succeeded, and the release.
\<close>

definition with_info :: "'hw worm_api \<Rightarrow> 'r \<Rightarrow> (int \<Rightarrow> ('db, 'hw, 'a, 'r) prog) \<Rightarrow> ('db, 'hw, 'a, 'r) prog" where
  "with_info A dflt body = do {
     s \<leftarrow> State_Monad.get;
     if w_store s = 0 \<or> \<not> w_ptr s P_info_new \<or> \<not> w_ptr s P_info_read then ret dflt else do {
       info \<leftarrow> hw_handle A (Info_new (w_store s));
       if info = 0 then ret dflt else do {
         rc \<leftarrow> hw_rc A (Info_read info);
         r \<leftarrow> (if rc = WORM_ERROR_NOERROR then body info else ret dflt);
         _ \<leftarrow> (if w_ptr s P_info_free then hw_void A (Info_free info) else ret ());
         ret r } } }"

text \<open>A getter that may be missing: the value, or the default the code keeps.\<close>

definition info_get :: "'hw worm_api \<Rightarrow> fnptr \<Rightarrow> int \<Rightarrow> ('db, 'hw, 'a, u64 option) prog" where
  "info_get A p info = do {
     s \<leftarrow> State_Monad.get;
     if w_ptr s p then do { v \<leftarrow> hw_u64 A (Info_u64 p info); ret (Some v) } else ret None }"

definition mu_lock :: "('db, 'hw, 'a, unit) prog" where
  "mu_lock = modify (\<lambda>s. if w_mu s then s\<lparr>w_stuck := True\<rparr> else s\<lparr>w_mu := True\<rparr>)"

definition mu_unlock :: "('db, 'hw, 'a, unit) prog" where
  "mu_unlock = modify (\<lambda>s. s\<lparr>w_mu := False\<rparr>)"

section \<open>Self-test\<close>

definition worm_has_passed_self_test :: "'hw worm_api \<Rightarrow> ('db, 'hw, 'a, bool) prog" where
  "worm_has_passed_self_test A = do {
     s \<leftarrow> State_Monad.get;
     if \<not> w_ptr s P_has_passed_self_test then ret False
     else with_info A False (\<lambda>info. do {
            v \<leftarrow> hw_u64 A (Info_u64 P_has_passed_self_test info);
            ret (v \<noteq> 0) }) }"

text \<open>An admin session around a registration, when a PIN and the session calls are there.\<close>

definition register_as_admin :: "'hw worm_api \<Rightarrow> string \<Rightarrow> ('db, 'hw, 'a, int) prog" where
  "register_as_admin A client = do {
     s \<leftarrow> State_Monad.get;
     logged_in \<leftarrow> (if cfg_worm_admin_pin (g_config s) \<noteq> [] \<and> w_ptr s P_user_login \<and> w_ptr s P_user_logout
        then do {
          rc \<leftarrow> worm_user_login_call A WORM_USER_ADMIN (cfg_worm_admin_pin (g_config s));
          ret (rc = WORM_ERROR_NOERROR) }
        else ret False);
     reg_rc \<leftarrow> hw_rc A (Register_client (w_store s) client);
     _ \<leftarrow> (if logged_in then do { _ \<leftarrow> worm_user_logout_call A WORM_USER_ADMIN; ret () } else ret ());
     ret reg_rc }"

definition run_self_test_with ::
  "'hw worm_api \<Rightarrow> 'db engine \<Rightarrow> string \<Rightarrow> ('db, 'hw, 'a, unit) prog" where
  "run_self_test_with A E candidate = do {
     s \<leftarrow> State_Monad.get;
     rc \<leftarrow> hw_rc A (Run_self_test (w_store s) candidate);
     if rc = WORM_ERROR_NOERROR then do {
       _ \<leftarrow> db_set_setting E ''worm_known_client'' candidate;
       ret () }
     else if w_ptr s P_register_client then do {
       reg_rc \<leftarrow> register_as_admin A ''cloudtse-startup'';
       if reg_rc = WORM_ERROR_NOERROR then do {
         rc2 \<leftarrow> hw_rc A (Run_self_test (w_store s) ''cloudtse-startup'');
         if rc2 = WORM_ERROR_NOERROR then do {
           _ \<leftarrow> db_set_setting E ''worm_known_client'' ''cloudtse-startup'';
           worm_client_mark_registered ''cloudtse-startup'' }
         else ret () }
       else ret () }
     else ret () }"

definition ensure_self_test_passed ::
  "'hw worm_api \<Rightarrow> 'db engine \<Rightarrow> bool \<Rightarrow> ('db, 'hw, 'a, unit) prog" where
  "ensure_self_test_passed A E force = do {
     s \<leftarrow> State_Monad.get;
     if \<not> w_ptr s P_run_self_test then ret () else do {
       passed \<leftarrow> (if force then ret False else worm_has_passed_self_test A);
       if passed then ret () else do {
         known \<leftarrow> db_get_setting E ''worm_known_client'' 256;
         let candidate = (case known of Some k \<Rightarrow> if k \<noteq> [] then k else ''cloudtse-startup''
                          | None \<Rightarrow> ''cloudtse-startup'');
         run_self_test_with A E candidate } } }"

section \<open>The TSE's clock\<close>

definition worm_has_valid_time :: "'hw worm_api \<Rightarrow> ('db, 'hw, 'a, bool) prog" where
  "worm_has_valid_time A = do {
     s \<leftarrow> State_Monad.get;
     if \<not> w_ptr s P_has_valid_time then ret True
     else with_info A True (\<lambda>info. do {
            v \<leftarrow> hw_u64 A (Info_u64 P_has_valid_time info);
            ret (v \<noteq> 0) }) }"

text \<open>The end of \<^verbatim>\<open>perform_time_sync\<close>: the code of the last update decides, then the logout.\<close>

definition finish_time_sync :: "'hw worm_api \<Rightarrow> int \<Rightarrow> ('db, 'hw, 'a, bool) prog" where
  "finish_time_sync A update_rc = do {
     _ \<leftarrow> (if update_rc = WORM_ERROR_NOERROR
           then do { now \<leftarrow> time_now; modify (\<lambda>s. s\<lparr>w_last_time_sync := now\<rparr>) } else ret ());
     _ \<leftarrow> worm_user_logout_call A WORM_USER_TIME_ADMIN;
     ret (update_rc = WORM_ERROR_NOERROR) }"

definition update_tse_time :: "'hw worm_api \<Rightarrow> ('db, 'hw, 'a, int) prog" where
  "update_tse_time A = do {
     now \<leftarrow> time_now;
     s \<leftarrow> State_Monad.get;
     hw_rc A (Update_time (w_store s) (word_of_int now)) }"

definition perform_time_sync :: "'hw worm_api \<Rightarrow> 'db engine \<Rightarrow> ('db, 'hw, 'a, bool) prog" where
  "perform_time_sync A E = do {
     s \<leftarrow> State_Monad.get;
     let pin = cfg_worm_time_admin_pin (g_config s);
     if pin = [] then worm_has_valid_time A
     else if \<not> w_ptr s P_user_login \<or> \<not> w_ptr s P_update_time \<or> \<not> w_ptr s P_user_logout
       then worm_has_valid_time A
     else do {
       _ \<leftarrow> ensure_self_test_passed A E False;
       rc1 \<leftarrow> worm_user_login_call A WORM_USER_TIME_ADMIN pin;
       login_rc \<leftarrow> (if worm_rc_needs_self_test rc1 then do {
            _ \<leftarrow> ensure_self_test_passed A E True;
            worm_user_login_call A WORM_USER_TIME_ADMIN pin }
          else ret rc1);
       if login_rc \<noteq> WORM_ERROR_NOERROR then ret False else do {
         update_rc \<leftarrow> update_tse_time A;
         if worm_rc_needs_self_test update_rc then do {
           _ \<leftarrow> worm_user_logout_call A WORM_USER_TIME_ADMIN;
           _ \<leftarrow> ensure_self_test_passed A E True;
           relogin_rc \<leftarrow> worm_user_login_call A WORM_USER_TIME_ADMIN pin;
           if relogin_rc \<noteq> WORM_ERROR_NOERROR then ret False else do {
             update_rc2 \<leftarrow> update_tse_time A;
             finish_time_sync A update_rc2 } }
         else finish_time_sync A update_rc } } }"

definition recover_after_worm_error ::
  "'hw worm_api \<Rightarrow> 'db engine \<Rightarrow> int \<Rightarrow> ('db, 'hw, 'a, bool) prog" where
  "recover_after_worm_error A E rc =
     (if worm_rc_needs_self_test rc then do {
        _ \<leftarrow> ensure_self_test_passed A E True;
        _ \<leftarrow> perform_time_sync A E;
        ret True }
      else if rc = WORM_ERROR_NO_TIME_SET then do {
        _ \<leftarrow> perform_time_sync A E;
        ret True }
      else ret False)"

section \<open>Transactions\<close>

definition worm_tse_process_type :: string where
  "worm_tse_process_type = ''Kassenbeleg-V1''"

text \<open>The unsigned 64-bit value of a response field, as the signed field it is stored in.\<close>

definition resp_int :: "'hw worm_api \<Rightarrow> fnptr \<Rightarrow> int \<Rightarrow> ('db, 'hw, 'a, int option) prog" where
  "resp_int A p response = do {
     s \<leftarrow> State_Monad.get;
     if w_ptr s p then do { v \<leftarrow> hw_u64 A (Resp_u64 p response); ret (Some (sint v)) } else ret None }"

definition fill_tx_from_response :: "'hw worm_api \<Rightarrow> int \<Rightarrow> ('db, 'hw, 'a, tse_transaction) prog" where
  "fill_tx_from_response A response = do {
     num \<leftarrow> resp_int A P_tx_resp_tx_num response;
     sigc \<leftarrow> resp_int A P_tx_resp_sig_counter response;
     log_time \<leftarrow> resp_int A P_tx_resp_log_time response;
     let time = (case log_time of None \<Rightarrow> [] | Some t \<Rightarrow> fit 64 (iso_time (gmtime t)));
     s \<leftarrow> State_Monad.get;
     sig \<leftarrow> (if w_legacy s \<and> w_ptr s P_tx_sig_legacy \<or> w_ptr s P_tx_resp_signature
             then hw_bytes A (Resp_signature response) else ret None);
     let text = (case sig of Some bs \<Rightarrow> (if bs = [] then []
                    else case util_base64_encode bs 256 of Some t \<Rightarrow> t | None \<Rightarrow> [])
                 | None \<Rightarrow> []);
     ret (blank_transaction\<lparr>
       tx_number := (case num of Some n \<Rightarrow> n | None \<Rightarrow> 0),
       tx_signature_counter := (case sigc of Some n \<Rightarrow> n | None \<Rightarrow> 0),
       tx_time_start := time, tx_time_end := time,
       tx_signature_value := text,
       tx_serial_number := (if w_serial s \<noteq> [] then util_strlcpy (Some (w_serial s)) 128
                            else util_strlcpy (Some (cfg_tse_serial (g_config s))) 128)\<rparr>) }"

text \<open>What a failed transaction prints: the getters it reads for the log.\<close>

definition log_worm_diagnostics :: "'hw worm_api \<Rightarrow> ('db, 'hw, 'a, unit) prog" where
  "log_worm_diagnostics A = with_info A () (\<lambda>info. do {
     _ \<leftarrow> info_get A P_has_valid_time info;
     _ \<leftarrow> info_get A P_max_time_sync_delay info;
     _ \<leftarrow> info_get A P_has_passed_self_test info;
     _ \<leftarrow> info_get A P_time_until_next_self_test info;
     _ \<leftarrow> info_get A P_has_changed_time_admin_pin info;
     s \<leftarrow> State_Monad.get;
     _ \<leftarrow> (if w_ptr s P_registered_clients \<and> w_ptr s P_max_registered_clients then do {
             _ \<leftarrow> info_get A P_registered_clients info;
             info_get A P_max_registered_clients info } else ret None);
     _ \<leftarrow> (if w_ptr s P_started_transactions \<and> w_ptr s P_max_started_transactions then do {
             _ \<leftarrow> info_get A P_started_transactions info;
             info_get A P_max_started_transactions info } else ret None);
     _ \<leftarrow> info_get A P_is_tx_in_progress info;
     ret () })"

definition tse_worm_register_client ::
  "'hw worm_api \<Rightarrow> 'db engine \<Rightarrow> string \<Rightarrow> ('db, 'hw, 'a, int) prog" where
  "tse_worm_register_client A E client_id = do {
     s \<leftarrow> State_Monad.get;
     if \<not> w_active s \<or> \<not> w_ptr s P_register_client then ret 0 else do {
       let safe_id = worm_safe_client_id client_id 40;
       _ \<leftarrow> mu_lock;
       rc \<leftarrow> register_as_admin A safe_id;
       _ \<leftarrow> mu_unlock;
       _ \<leftarrow> (if rc = WORM_ERROR_NOERROR then do {
              _ \<leftarrow> worm_client_mark_registered client_id;
              _ \<leftarrow> db_set_setting E ''worm_known_client'' safe_id;
              ret () } else ret ());
       ret (if rc = WORM_ERROR_NOERROR then 0 else -1) } }"

definition ensure_client_registered ::
  "'hw worm_api \<Rightarrow> 'db engine \<Rightarrow> string \<Rightarrow> ('db, 'hw, 'a, unit) prog" where
  "ensure_client_registered A E client_id = do {
     s \<leftarrow> State_Monad.get;
     if client_id = [] \<or> worm_client_is_cached_registered s client_id then ret () else do {
       _ \<leftarrow> tse_worm_register_client A E client_id;
       worm_client_mark_registered client_id } }"

text \<open>
  The checks before a transaction, and the call itself: made once, and once more on a fresh response
  object when a recovery was attempted.  \<open>None\<close> is a missing response object; otherwise the handle
  in use and the last code.
\<close>

definition prepare_tse :: "'hw worm_api \<Rightarrow> 'db engine \<Rightarrow> ('db, 'hw, 'a, unit) prog" where
  "prepare_tse A E = do {
     passed \<leftarrow> worm_has_passed_self_test A;
     _ \<leftarrow> (if \<not> passed then ensure_self_test_passed A E False else ret ());
     valid \<leftarrow> worm_has_valid_time A;
     _ \<leftarrow> (if \<not> valid then do { _ \<leftarrow> perform_time_sync A E; ret () } else ret ());
     ret () }"

definition call_with_retry ::
  "'hw worm_api \<Rightarrow> 'db engine \<Rightarrow> (int \<Rightarrow> wcall) \<Rightarrow> ('db, 'hw, 'a, (int \<times> int) option) prog" where
  "call_with_retry A E call = do {
     s \<leftarrow> State_Monad.get;
     response \<leftarrow> hw_handle A (Resp_new (w_store s));
     if response = 0 then ret None else do {
       rc \<leftarrow> hw_rc A (call response);
       retry \<leftarrow> (if rc \<noteq> WORM_ERROR_NOERROR then recover_after_worm_error A E rc else ret False);
       if \<not> retry then ret (Some (response, rc)) else do {
         _ \<leftarrow> hw_void A (Resp_free response);
         response2 \<leftarrow> hw_handle A (Resp_new (w_store s));
         if response2 = 0 then ret None else do {
           rc2 \<leftarrow> hw_rc A (call response2);
           ret (Some (response2, rc2)) } } } }"

definition worm_failure_text :: "string \<Rightarrow> int \<Rightarrow> string" where
  "worm_failure_text op rc = op @ '' failed (error '' @ show_int rc @
     (case worm_error_name rc of Some n \<Rightarrow> CHR '' '' # n | None \<Rightarrow> []) @ '')''"

text \<open>\<open>Inl\<close> is the -1 with the text in \<^verbatim>\<open>err_msg\<close>, \<open>Inr\<close> the transaction.\<close>

definition tse_worm_start_transaction ::
  "'hw worm_api \<Rightarrow> 'db engine \<Rightarrow> string \<Rightarrow> nat \<Rightarrow> ('db, 'hw, 'a, string + tse_transaction) prog" where
  "tse_worm_start_transaction A E client_id err_msg_len = do {
     s \<leftarrow> State_Monad.get;
     if \<not> w_active s then ret (Inl []) else do {
       _ \<leftarrow> ensure_client_registered A E client_id;
       let safe_id = worm_safe_client_id client_id 40;
       _ \<leftarrow> mu_lock;
       _ \<leftarrow> prepare_tse A E;
       r \<leftarrow> call_with_retry A E (Tx_start (w_store s) safe_id [] worm_tse_process_type);
       (case r of
          None \<Rightarrow> do {
            _ \<leftarrow> mu_unlock;
            ret (Inl (fit err_msg_len ''worm_transaction_response_new failed'')) }
        | Some (response, rc) \<Rightarrow>
            if rc \<noteq> WORM_ERROR_NOERROR then do {
              _ \<leftarrow> hw_void A (Resp_free response);
              _ \<leftarrow> log_worm_diagnostics A;
              _ \<leftarrow> mu_unlock;
              ret (Inl (fit err_msg_len (worm_failure_text ''worm_transaction_start'' rc))) }
            else do {
              tx \<leftarrow> fill_tx_from_response A response;
              _ \<leftarrow> hw_void A (Resp_free response);
              _ \<leftarrow> mu_unlock;
              ret (Inr (tx\<lparr>tx_process_type := fit 512 worm_tse_process_type,
                          tx_client_id := fit 256 client_id,
                          tx_state := ''ACTIVE''\<rparr>)) }) } }"

definition bytes_of :: "string \<Rightarrow> u8 list" where
  "bytes_of s = map (\<lambda>c. of_nat (char_code c)) s"

text \<open>The bytes signed at the end: the decoded process data, or the text itself when it is not Base64.\<close>

definition finish_payload :: "string \<Rightarrow> u8 list" where
  "finish_payload process_data =
     (if process_data = [] then []
      else case util_base64_decode process_data 4096 of
             Some bs \<Rightarrow> if bs \<noteq> [] then bs else bytes_of process_data
           | None \<Rightarrow> bytes_of process_data)"

text \<open>
  An error gives the two texts written for the caller, \<open>None\<close> where the buffer is left as it was.
\<close>

definition tse_worm_finish_transaction ::
  "'hw worm_api \<Rightarrow> 'db engine \<Rightarrow> string \<Rightarrow> int \<Rightarrow> string \<Rightarrow> nat \<Rightarrow> nat \<Rightarrow>
   ('db, 'hw, 'a, (string option \<times> string option) + tse_transaction) prog" where
  "tse_worm_finish_transaction A E client_id transaction_number process_data err_code_len err_msg_len = do {
     s \<leftarrow> State_Monad.get;
     if \<not> w_active s then ret (Inl (None, None)) else do {
       let safe_id = worm_safe_client_id client_id 40;
       _ \<leftarrow> mu_lock;
       _ \<leftarrow> prepare_tse A E;
       r \<leftarrow> call_with_retry A E (Tx_finish (w_store s) safe_id (word_of_int transaction_number)
              (finish_payload process_data) worm_tse_process_type);
       (case r of
          None \<Rightarrow> do {
            _ \<leftarrow> mu_unlock;
            ret (Inl (None, Some (fit err_msg_len ''worm_transaction_response_new failed''))) }
        | Some (response, rc) \<Rightarrow>
            if rc \<noteq> WORM_ERROR_NOERROR then do {
              _ \<leftarrow> hw_void A (Resp_free response);
              _ \<leftarrow> log_worm_diagnostics A;
              _ \<leftarrow> mu_unlock;
              ret (Inl (Some (take err_code_len ''ErrorNoTransaction''),
                        Some (fit err_msg_len (worm_failure_text ''worm_transaction_finish'' rc)))) }
            else do {
              tx \<leftarrow> fill_tx_from_response A response;
              _ \<leftarrow> hw_void A (Resp_free response);
              _ \<leftarrow> mu_unlock;
              ret (Inr (tx\<lparr>tx_client_id := fit 256 client_id,
                          tx_process_type := fit 512 worm_tse_process_type,
                          tx_state := ''FINISHED'',
                          tx_number := transaction_number\<rparr>)) }) } }"

section \<open>Information and export\<close>

definition tse_worm_fill_info :: "'hw worm_api \<Rightarrow> tse_info \<Rightarrow> ('db, 'hw, 'a, tse_info) prog" where
  "tse_worm_fill_info A info0 = do {
     s \<leftarrow> State_Monad.get;
     let info1 = (if w_serial s \<noteq> [] then info0\<lparr>in_serial_number := util_strlcpy (Some (w_serial s)) 128\<rparr>
                  else info0);
     info2 \<leftarrow> with_info A info1 (\<lambda>wi. do {
       reg \<leftarrow> info_get A P_registered_clients wi;
       maxreg \<leftarrow> info_get A P_max_registered_clients wi;
       started \<leftarrow> info_get A P_started_transactions wi;
       maxstarted \<leftarrow> info_get A P_max_started_transactions wi;
       sigs \<leftarrow> info_get A P_created_signatures wi;
       hwv \<leftarrow> info_get A P_hardware_version wi;
       fwv \<leftarrow> info_get A P_firmware_version wi;
       ret (info1\<lparr>
         in_registered_clients := (case reg of Some v \<Rightarrow> sint v | None \<Rightarrow> in_registered_clients info1),
         in_max_registered_clients := (case maxreg of Some v \<Rightarrow> sint v | None \<Rightarrow> in_max_registered_clients info1),
         in_transaction_counter := (case started of Some v \<Rightarrow> sint v | None \<Rightarrow> in_transaction_counter info1),
         in_max_started_transactions :=
           (case maxstarted of Some v \<Rightarrow> sint v | None \<Rightarrow> in_max_started_transactions info1),
         in_signature_counter := (case sigs of Some v \<Rightarrow> sint v | None \<Rightarrow> in_signature_counter info1),
         in_hardware_version := (case hwv of Some v \<Rightarrow> fit 32 (show_nat (unat v)) | None \<Rightarrow> in_hardware_version info1),
         in_firmware_version := (case fwv of Some v \<Rightarrow> fit 32 (show_nat (unat v)) | None \<Rightarrow> in_firmware_version info1)\<rparr>) });
     v \<leftarrow> (if w_ptr s P_get_version then hw_text A Get_version else ret None);
     ret (case v of Some t \<Rightarrow> info2\<lparr>in_worm_api_version := util_strlcpy (Some t) 32\<rparr> | None \<Rightarrow> info2) }"

text \<open>What both export operations do first, under the lock.\<close>

definition renew_for_export :: "'hw worm_api \<Rightarrow> 'db engine \<Rightarrow> ('db, 'hw, 'a, unit) prog" where
  "renew_for_export A E = do {
     _ \<leftarrow> ensure_self_test_passed A E False;
     valid \<leftarrow> worm_has_valid_time A;
     (if \<not> valid then do { _ \<leftarrow> perform_time_sync A E; ret () } else ret ()) }"

definition export_ready :: "'hw worm_api \<Rightarrow> ('db, 'hw, 'a, bool) prog" where
  "export_ready A = do {
     passed \<leftarrow> worm_has_passed_self_test A;
     (if passed then worm_has_valid_time A else ret False) }"

definition tse_worm_export_prepare :: "'hw worm_api \<Rightarrow> 'db engine \<Rightarrow> ('db, 'hw, 'a, int) prog" where
  "tse_worm_export_prepare A E = do {
     s \<leftarrow> State_Monad.get;
     if \<not> w_active s \<or> \<not> w_ptr s P_export_tar then ret (-1) else do {
       _ \<leftarrow> mu_lock;
       _ \<leftarrow> renew_for_export A E;
       ready \<leftarrow> export_ready A;
       _ \<leftarrow> mu_unlock;
       ret (if ready then 0 else -1) } }"

text \<open>The chunks go to the callback one by one until it refuses one.\<close>

fun deliver_chunks :: "('c \<Rightarrow> u8 list \<Rightarrow> 'c \<times> bool) \<Rightarrow> 'c \<Rightarrow> u8 list list \<Rightarrow> 'c \<times> bool" where
  "deliver_chunks cb ctx [] = (ctx, True)"
| "deliver_chunks cb ctx (chunk # chunks) =
     (case cb ctx chunk of (ctx', ok) \<Rightarrow> if ok then deliver_chunks cb ctx' chunks else (ctx', False))"

text \<open>The code of the export and the callback's context after it.\<close>

definition run_export ::
  "'hw worm_api \<Rightarrow> ('c \<Rightarrow> u8 list \<Rightarrow> 'c \<times> bool) \<Rightarrow> 'c \<Rightarrow> ('db, 'hw, 'a, int \<times> 'c) prog" where
  "run_export A cb ctx = do {
     s \<leftarrow> State_Monad.get;
     let ((chunks, rc_all, rc_abort), h) = api_export A (w_store s) (hw s);
     let (ctx', taken) = deliver_chunks cb ctx chunks;
     let rc = (if taken then rc_all else rc_abort);
     _ \<leftarrow> State_Monad.set (s\<lparr>hw := h, w_trace := w_trace s @ [(Export_tar (w_store s), rc)]\<rparr>);
     ret (rc, ctx') }"

definition tse_worm_export_tar ::
  "'hw worm_api \<Rightarrow> 'db engine \<Rightarrow> ('c \<Rightarrow> u8 list \<Rightarrow> 'c \<times> bool) \<Rightarrow> 'c \<Rightarrow> ('db, 'hw, 'a, int \<times> 'c) prog" where
  "tse_worm_export_tar A E cb ctx = do {
     s \<leftarrow> State_Monad.get;
     if \<not> w_active s \<or> \<not> w_ptr s P_export_tar then ret (-1, ctx) else do {
       _ \<leftarrow> mu_lock;
       _ \<leftarrow> renew_for_export A E;
       r \<leftarrow> run_export A cb ctx;
       _ \<leftarrow> mu_unlock;
       ret (if fst r = WORM_ERROR_NOERROR then 0 else -1, snd r) } }"

definition tse_worm_public_key_hex :: "('db, 'hw, 'a) server_scheme \<Rightarrow> string" where
  "tse_worm_public_key_hex s = (if w_public_key_hex s \<noteq> [] then w_public_key_hex s else cfg_tse_serial (g_config s))"

definition tse_worm_public_key_b64 :: "('db, 'hw, 'a) server_scheme \<Rightarrow> string option" where
  "tse_worm_public_key_b64 s = (if w_public_key_b64 s \<noteq> [] then Some (w_public_key_b64 s) else None)"

definition tse_worm_certificate_base64 :: "('db, 'hw, 'a) server_scheme \<Rightarrow> string option" where
  "tse_worm_certificate_base64 s = (if w_certificate s \<noteq> [] then Some (w_certificate s) else None)"

definition tse_worm_log_time_format :: "'hw worm_api \<Rightarrow> ('db, 'hw, 'a, string) prog" where
  "tse_worm_log_time_format A = do {
     s \<leftarrow> State_Monad.get;
     fmt \<leftarrow> (if w_ptr s P_log_time_format then hw_text A Log_time_format else ret None);
     ret (case fmt of Some f \<Rightarrow> if f \<noteq> [] then f else ''unixTime'' | None \<Rightarrow> ''unixTime'') }"

end
