(* ===== verification/Tse_Worm_Safety.thy ===== *)
theory Tse_Worm_Safety
  imports Tse_Worm
begin

text \<open>
  What the TSE client does to the device, read off the trace of library calls: which calls each
  operation makes, that user sessions are always closed and a refused PIN is not tried again, that a
  transaction is started or finished at most twice and its response objects are freed, and that the
  lock is free again after every operation.
\<close>

section \<open>What an operation leaves alone\<close>

text \<open>
  \<open>stays C\<close>: only calls satisfying \<open>C\<close> are added to the trace, and the configuration, the function
  pointers, the store handle, the cached texts and the lock are as before.
\<close>

definition stays :: "(wcall \<Rightarrow> bool) \<Rightarrow> ('db, 'hw, 'a) server_scheme \<Rightarrow> ('db, 'hw, 'a) server_scheme \<Rightarrow> bool" where
  "stays C s t \<longleftrightarrow> (\<exists>ext. w_trace t = w_trace s @ ext \<and> list_all (\<lambda>e. C (fst e)) ext) \<and>
     g_config t = g_config s \<and> g_created_at t = g_created_at s \<and> w_ptr t = w_ptr s \<and>
     w_legacy t = w_legacy s \<and> w_active t = w_active s \<and> w_store t = w_store s \<and>
     w_serial t = w_serial s \<and> w_public_key_hex t = w_public_key_hex s \<and>
     w_public_key_b64 t = w_public_key_b64 s \<and> w_certificate t = w_certificate s \<and>
     w_store_path t = w_store_path s \<and> w_mu t = w_mu s \<and> w_stuck t = w_stuck s"

lemma stays_refl [simp]: "reflp (stays C)"
  by (rule reflpI) (auto simp: stays_def)

lemma stays_trans [simp]: "transp (stays C)"
proof (rule transpI)
  fix s t u :: "('a, 'b, 'c) server_scheme"
  assume "stays C s t" "stays C t u"
  then show "stays C s u" by (auto simp: stays_def)
qed

lemma stays_mono: "stays C s t \<Longrightarrow> (\<And>c. C c \<Longrightarrow> D c) \<Longrightarrow> stays D s t"
  by (auto simp: stays_def list_all_iff)

named_theorems stays_intros \<open>operations that only make calls of a class\<close>

lemma stays_return [stays_intros]: "state_io_rel (stays C) (ret x)"
  by (rule io_return) simp

lemma stays_get [stays_intros]: "state_io_rel (stays C) State_Monad.get"
  by (rule io_gets) simp

lemma stays_bind [stays_intros]:
  "state_io_rel (stays C) m \<Longrightarrow> (\<And>x. state_io_rel (stays C) (f x)) \<Longrightarrow>
   state_io_rel (stays C) (State_Monad.bind m f)"
  by (rule io_bind) simp_all

lemmas [stays_intros] = io_if io_option

lemma stays_hw [stays_intros]:
  "C c \<Longrightarrow> state_io_rel (stays C) (hw_rc A c)"
  "C c \<Longrightarrow> state_io_rel (stays C) (hw_handle A c)"
  "C c \<Longrightarrow> state_io_rel (stays C) (hw_u64 A c)"
  "C c \<Longrightarrow> state_io_rel (stays C) (hw_bytes A c)"
  "C c \<Longrightarrow> state_io_rel (stays C) (hw_text A c)"
  "C c \<Longrightarrow> state_io_rel (stays C) (hw_void A c)"
  by (auto simp: state_io_rel_def stays_def hw_rc_def hw_handle_def hw_u64_def hw_bytes_def
      hw_text_def hw_void_def)

lemma stays_time_now [stays_intros]: "state_io_rel (stays C) time_now"
  by (auto simp: state_io_rel_def stays_def)

lemma stays_sql [stays_intros]: "state_io_rel (stays C) (sql_run E q)"
  by (auto simp: state_io_rel_def stays_def)

lemma stays_db [stays_intros]:
  "state_io_rel (stays C) (db_get_setting E k n)"
  "state_io_rel (stays C) (db_set_setting E k v)"
  unfolding db_get_setting_def db_set_setting_def by (intro stays_intros)+

lemma stays_mark [stays_intros]: "state_io_rel (stays C) (worm_client_mark_registered c)"
  by (auto simp: state_io_rel_def stays_def worm_client_mark_registered_def)

section \<open>Classes of calls\<close>

fun is_query :: "wcall \<Rightarrow> bool" where
  "is_query (Info_new _) = True"
| "is_query (Info_free _) = True"
| "is_query (Info_read _) = True"
| "is_query (Info_u64 _ _) = True"
| "is_query _ = False"

fun is_admin :: "wcall \<Rightarrow> bool" where
  "is_admin (User_login _ u _) = (u = WORM_USER_ADMIN)"
| "is_admin (User_logout _ u) = (u = WORM_USER_ADMIN)"
| "is_admin (Register_client _ _) = True"
| "is_admin _ = False"

fun is_session :: "wcall \<Rightarrow> bool" where
  "is_session (User_login _ u _) = (u = WORM_USER_TIME_ADMIN)"
| "is_session (User_logout _ u) = (u = WORM_USER_TIME_ADMIN)"
| "is_session (Update_time _ _) = True"
| "is_session _ = False"

fun is_response :: "wcall \<Rightarrow> bool" where
  "is_response (Resp_new _) = True"
| "is_response (Resp_free _) = True"
| "is_response (Resp_u64 _ _) = True"
| "is_response (Resp_signature _) = True"
| "is_response (Tx_start _ _ _ _ _) = True"
| "is_response (Tx_finish _ _ _ _ _ _) = True"
| "is_response _ = False"

definition upkeep :: "wcall \<Rightarrow> bool" where
  "upkeep c \<longleftrightarrow> is_query c \<or> is_admin c \<or> (\<exists>st cl. c = Run_self_test st cl)"

definition clockwork :: "wcall \<Rightarrow> bool" where
  "clockwork c \<longleftrightarrow> upkeep c \<or> is_session c"

lemma upkeepI [simp]:
  "is_query c \<Longrightarrow> upkeep c" "is_admin c \<Longrightarrow> upkeep c" "upkeep (Run_self_test st cl)"
  by (auto simp: upkeep_def)

lemma clockworkI [simp]: "upkeep c \<Longrightarrow> clockwork c" "is_session c \<Longrightarrow> clockwork c"
  by (auto simp: clockwork_def)

lemma admin_not_session: "is_admin c \<Longrightarrow> \<not> is_session c"
  by (cases c) (auto simp: worm_codes)

lemma upkeep_not_session: "upkeep c \<Longrightarrow> \<not> is_session c"
  by (cases c) (auto simp: upkeep_def worm_codes)

lemma clockwork_not_response: "clockwork c \<Longrightarrow> \<not> is_response c"
  by (cases c) (auto simp: upkeep_def clockwork_def)

section \<open>The operations by class\<close>

lemma stays_with_info [stays_intros]:
  "(\<And>c. is_query c \<Longrightarrow> C c) \<Longrightarrow> (\<And>i. state_io_rel (stays C) (body i)) \<Longrightarrow>
   state_io_rel (stays C) (with_info A d body)"
  unfolding with_info_def by (intro stays_intros) auto

lemma stays_info_get [stays_intros]:
  "(\<And>c. is_query c \<Longrightarrow> C c) \<Longrightarrow> state_io_rel (stays C) (info_get A p i)"
  unfolding info_get_def by (intro stays_intros) auto

lemma stays_has_passed [stays_intros]:
  "(\<And>c. is_query c \<Longrightarrow> C c) \<Longrightarrow> state_io_rel (stays C) (worm_has_passed_self_test A)"
  unfolding worm_has_passed_self_test_def by (intro stays_intros) auto

lemma stays_has_valid_time [stays_intros]:
  "(\<And>c. is_query c \<Longrightarrow> C c) \<Longrightarrow> state_io_rel (stays C) (worm_has_valid_time A)"
  unfolding worm_has_valid_time_def by (intro stays_intros) auto

lemma stays_diagnostics [stays_intros]:
  "(\<And>c. is_query c \<Longrightarrow> C c) \<Longrightarrow> state_io_rel (stays C) (log_worm_diagnostics A)"
  unfolding log_worm_diagnostics_def by (intro stays_intros) auto

lemma stays_login [stays_intros]:
  "(\<And>st. C (User_login st u pin)) \<Longrightarrow> state_io_rel (stays C) (worm_user_login_call A u pin)"
  "(\<And>st. C (User_logout st u)) \<Longrightarrow> state_io_rel (stays C) (worm_user_logout_call A u)"
  unfolding worm_user_login_call_def worm_user_logout_call_def by (intro stays_intros; simp)+

lemma stays_register_as_admin [stays_intros]:
  "(\<And>c. is_admin c \<Longrightarrow> C c) \<Longrightarrow> state_io_rel (stays C) (register_as_admin A client)"
  unfolding register_as_admin_def by (intro stays_intros) auto

lemma stays_run_self_test [stays_intros]:
  "(\<And>c. upkeep c \<Longrightarrow> C c) \<Longrightarrow> state_io_rel (stays C) (run_self_test_with A E client)"
  unfolding run_self_test_with_def by (intro stays_intros) auto

lemma stays_ensure_self_test [stays_intros]:
  "(\<And>c. upkeep c \<Longrightarrow> C c) \<Longrightarrow> state_io_rel (stays C) (ensure_self_test_passed A E force)"
  unfolding ensure_self_test_passed_def Let_def by (intro stays_intros) auto

section \<open>TimeAdmin sessions\<close>

definition session_of :: "(wcall \<times> int) list \<Rightarrow> (wcall \<times> int) list" where
  "session_of es = filter (\<lambda>e. is_session (fst e)) es"

text \<open>A session opens with a login that succeeds and must be closed by a logout.\<close>

fun sessions_closed :: "bool \<Rightarrow> (wcall \<times> int) list \<Rightarrow> bool" where
  "sessions_closed opened [] = (\<not> opened)"
| "sessions_closed opened ((c, rc) # es) =
     (case c of
        User_login _ _ _ \<Rightarrow> \<not> opened \<and> sessions_closed (rc = WORM_ERROR_NOERROR) es
      | User_logout _ _ \<Rightarrow> opened \<and> sessions_closed False es
      | Update_time _ _ \<Rightarrow> opened \<and> sessions_closed True es
      | _ \<Rightarrow> False)"

fun is_login :: "wcall \<Rightarrow> bool" where
  "is_login (User_login _ _ _) = True"
| "is_login _ = False"

text \<open>The TSE refused the PIN, or for another reason that a self-test does not cure.\<close>

definition refused :: "int \<Rightarrow> bool" where
  "refused rc \<longleftrightarrow> rc \<noteq> WORM_ERROR_NOERROR \<and> \<not> worm_rc_needs_self_test rc"

fun pin_spared :: "(wcall \<times> int) list \<Rightarrow> bool" where
  "pin_spared [] = True"
| "pin_spared ((c, rc) # es) =
     ((is_login c \<and> refused rc \<longrightarrow> \<not> list_ex (\<lambda>e. is_login (fst e)) es) \<and> pin_spared es)"

text \<open>\<open>s\<close> goes to \<open>t\<close> with the session calls \<open>es\<close>.\<close>

definition sess :: "(wcall \<times> int) list \<Rightarrow> ('db, 'hw, 'a) server_scheme \<Rightarrow> ('db, 'hw, 'a) server_scheme \<Rightarrow> bool" where
  "sess es s t \<longleftrightarrow> stays clockwork s t \<and> (\<exists>ext. w_trace t = w_trace s @ ext \<and> session_of ext = es)"

lemma sess_refl: "sess [] s s"
  by (auto simp: sess_def session_of_def intro: reflpD [OF stays_refl])

lemma sess_trans: "sess es s t \<Longrightarrow> sess fs t u \<Longrightarrow> sess (es @ fs) s u"
  unfolding sess_def session_of_def using transpD [OF stays_trans] by fastforce

lemma wp_seq: "wp m P s \<Longrightarrow> (\<And>x t. P x t \<Longrightarrow> wp (f x) Q t) \<Longrightarrow> wp (State_Monad.bind m f) Q s"
  unfolding wp_bind by (rule wp_mono)

lemma sess_quiet:
  assumes "state_io_rel (stays upkeep) m"
  shows "wp m (\<lambda>_ t. sess [] s t) s"
proof (rule wp_io [OF assms])
  fix t assume st: "stays upkeep s t"
  then obtain ext where e: "w_trace t = w_trace s @ ext" "list_all (\<lambda>e. upkeep (fst e)) ext"
    by (auto simp: stays_def)
  from e(2) have "session_of ext = []"
    by (auto simp: session_of_def list_all_iff filter_empty_conv dest: upkeep_not_session)
  moreover have "stays clockwork s t" using st by (rule stays_mono) simp
  ultimately show "sess [] s t" using e(1) by (auto simp: sess_def)
qed

lemma stays_step:
  "C c \<Longrightarrow> stays C s (s\<lparr>hw := h, w_trace := w_trace s @ [(c, r)]\<rparr>)"
  by (auto simp: stays_def)

lemma sess_login:
  "wp (worm_user_login_call A WORM_USER_TIME_ADMIN pin)
     (\<lambda>rc t. sess [(User_login (w_store s) WORM_USER_TIME_ADMIN pin, rc)] s t) s"
  by (auto simp: worm_user_login_call_def hw_rc_def wps sess_def session_of_def intro: stays_step)

lemma sess_logout:
  "wp (worm_user_logout_call A WORM_USER_TIME_ADMIN)
     (\<lambda>rc t. sess [(User_logout (w_store s) WORM_USER_TIME_ADMIN, rc)] s t) s"
  by (auto simp: worm_user_logout_call_def hw_rc_def wps sess_def session_of_def intro: stays_step)

lemma sess_update:
  "wp (update_tse_time A) (\<lambda>rc t. \<exists>n. sess [(Update_time (w_store s) n, rc)] s t) s"
  by (auto simp: update_tse_time_def hw_rc_def wps wp_def sess_def session_of_def stays_def)

lemma sess_finish:
  "wp (finish_time_sync A rc) (\<lambda>ok t. ok = (rc = WORM_ERROR_NOERROR) \<and>
     (\<exists>lrc. sess [(User_logout (w_store s) WORM_USER_TIME_ADMIN, lrc)] s t)) s"
  by (auto simp: finish_time_sync_def worm_user_logout_call_def hw_rc_def wps wp_def sess_def
      session_of_def stays_def)

lemma sess_ensure: "wp (ensure_self_test_passed A E force) (\<lambda>_ t. sess [] s t) s"
  by (rule sess_quiet) (intro stays_intros)

lemma sess_valid: "wp (worm_has_valid_time A) (\<lambda>_ t. sess [] s t) s"
  by (rule sess_quiet) (intro stays_intros, simp)

text \<open>What a synchronisation may do to the session: the shapes the code's branches give.\<close>

definition sync_good :: "bool \<Rightarrow> (wcall \<times> int) list \<Rightarrow> bool" where
  "sync_good ok es \<longleftrightarrow> sessions_closed False es \<and> pin_spared es
     \<and> length (filter (\<lambda>e. is_login (fst e)) es) \<le> 3
     \<and> (es \<noteq> [] \<longrightarrow> ok = (\<exists>st n. (Update_time st n, WORM_ERROR_NOERROR) \<in> set es))"

text \<open>The part after a successful login, up to the logout.\<close>

definition in_session :: "bool \<Rightarrow> (wcall \<times> int) list \<Rightarrow> bool" where
  "in_session ok es \<longleftrightarrow> sessions_closed True es \<and> pin_spared es
     \<and> length (filter (\<lambda>e. is_login (fst e)) es) \<le> 1
     \<and> ok = (\<exists>st n. (Update_time st n, WORM_ERROR_NOERROR) \<in> set es)"

definition sync_session :: "'hw worm_api \<Rightarrow> 'db engine \<Rightarrow> string \<Rightarrow> ('db, 'hw, 'a, bool) prog" where
  "sync_session A E pin = do {
     update_rc \<leftarrow> update_tse_time A;
     if worm_rc_needs_self_test update_rc then do {
       _ \<leftarrow> worm_user_logout_call A WORM_USER_TIME_ADMIN;
       _ \<leftarrow> ensure_self_test_passed A E True;
       relogin_rc \<leftarrow> worm_user_login_call A WORM_USER_TIME_ADMIN pin;
       if relogin_rc \<noteq> WORM_ERROR_NOERROR then ret False else do {
         update_rc2 \<leftarrow> update_tse_time A;
         finish_time_sync A update_rc2 } }
     else finish_time_sync A update_rc }"

lemma sync_session_sess:
  "wp (sync_session A E pin) (\<lambda>ok t. \<exists>es. sess es s t \<and> in_session ok es) s"
  unfolding sync_session_def
proof (rule wp_seq [OF sess_update])
  fix rc t assume "\<exists>n. sess [(Update_time (w_store s) n, rc)] s t"
  then obtain n where t: "sess [(Update_time (w_store s) n, rc)] s t" by blast
  have quick: "wp (finish_time_sync A rc) (\<lambda>ok u. \<exists>es. sess es s u \<and> in_session ok es) t"
  proof (rule wp_mono [OF sess_finish])
    fix ok u assume "ok = (rc = WORM_ERROR_NOERROR)
      \<and> (\<exists>lrc. sess [(User_logout (w_store t) WORM_USER_TIME_ADMIN, lrc)] t u)"
    then obtain lrc where "ok = (rc = WORM_ERROR_NOERROR)"
      and u: "sess [(User_logout (w_store t) WORM_USER_TIME_ADMIN, lrc)] t u" by blast
    then show "\<exists>es. sess es s u \<and> in_session ok es"
      using sess_trans [OF t u] by (intro exI conjI) (assumption, auto simp: in_session_def)
  qed
  show "wp (if worm_rc_needs_self_test rc then do {
       _ \<leftarrow> worm_user_logout_call A WORM_USER_TIME_ADMIN;
       _ \<leftarrow> ensure_self_test_passed A E True;
       relogin_rc \<leftarrow> worm_user_login_call A WORM_USER_TIME_ADMIN pin;
       if relogin_rc \<noteq> WORM_ERROR_NOERROR then ret False else do {
         update_rc2 \<leftarrow> update_tse_time A;
         finish_time_sync A update_rc2 } }
     else finish_time_sync A rc) (\<lambda>ok u. \<exists>es. sess es s u \<and> in_session ok es) t"
  proof (cases "worm_rc_needs_self_test rc")
    case True
    then have rc: "rc \<noteq> WORM_ERROR_NOERROR" by (auto simp: worm_rc_needs_self_test_def worm_codes)
    show ?thesis
      unfolding if_P [OF True]
    proof (rule wp_seq [OF sess_logout], rule wp_seq [OF sess_ensure], rule wp_seq [OF sess_login])
      fix r1 t1 r2 t2 r3 t3
      assume t1: "sess [(User_logout (w_store t) WORM_USER_TIME_ADMIN, r1)] t t1"
        and t2: "sess [] t1 t2"
        and t3: "sess [(User_login (w_store t2) WORM_USER_TIME_ADMIN pin, r3)] t2 t3"
      note sofar = sess_trans [OF sess_trans [OF sess_trans [OF t t1] t2] t3]
      show "wp (if r3 \<noteq> WORM_ERROR_NOERROR then ret False else do {
          update_rc2 \<leftarrow> update_tse_time A; finish_time_sync A update_rc2 })
        (\<lambda>ok u. \<exists>es. sess es s u \<and> in_session ok es) t3"
      proof (cases "r3 = WORM_ERROR_NOERROR")
        case False
        then show ?thesis
          using sofar rc by (simp add: wps) (intro exI conjI, assumption, auto simp: in_session_def)
      next
        case r3: True
        have "wp (do { update_rc2 \<leftarrow> update_tse_time A; finish_time_sync A update_rc2 })
          (\<lambda>ok u. \<exists>es. sess es s u \<and> in_session ok es) t3"
        proof (rule wp_seq [OF sess_update], rule wp_mono [OF sess_finish])
          fix r4 t4 ok u
          assume "\<exists>n. sess [(Update_time (w_store t3) n, r4)] t3 t4"
            and "ok = (r4 = WORM_ERROR_NOERROR)
              \<and> (\<exists>lrc. sess [(User_logout (w_store t4) WORM_USER_TIME_ADMIN, lrc)] t4 u)"
          then obtain m lrc where t4: "sess [(Update_time (w_store t3) m, r4)] t3 t4"
            and ok: "ok = (r4 = WORM_ERROR_NOERROR)"
            and u: "sess [(User_logout (w_store t4) WORM_USER_TIME_ADMIN, lrc)] t4 u" by blast
          show "\<exists>es. sess es s u \<and> in_session ok es"
            using sess_trans [OF sess_trans [OF sofar t4] u] r3 rc ok
            by (intro exI conjI) (assumption, auto simp: in_session_def refused_def)
        qed
        then show ?thesis using r3 by simp
      qed
    qed
  next
    case False
    then show ?thesis using quick by simp
  qed
qed

lemma perform_time_sync_eq:
  "perform_time_sync A E = do {
     s \<leftarrow> State_Monad.get;
     let pin = cfg_worm_time_admin_pin (g_config s);
     if pin = [] then worm_has_valid_time A
     else if \<not> w_ptr s P_user_login \<or> \<not> w_ptr s P_update_time \<or> \<not> w_ptr s P_user_logout
       then worm_has_valid_time A
     else do {
       _ \<leftarrow> ensure_self_test_passed A E False;
       rc1 \<leftarrow> worm_user_login_call A WORM_USER_TIME_ADMIN pin;
       login_rc \<leftarrow> (if worm_rc_needs_self_test rc1 then do {
            _ \<leftarrow> ensure_self_test_passed A E True;
            worm_user_login_call A WORM_USER_TIME_ADMIN pin }
          else ret rc1);
       if login_rc \<noteq> WORM_ERROR_NOERROR then ret False else sync_session A E pin } }"
  by (simp only: perform_time_sync_def sync_session_def)

text \<open>The login, tried once more after a forced self-test.\<close>

lemma sess_login_twice:
  "wp (do {
       rc1 \<leftarrow> worm_user_login_call A WORM_USER_TIME_ADMIN pin;
       (if worm_rc_needs_self_test rc1 then do {
            _ \<leftarrow> ensure_self_test_passed A E True;
            worm_user_login_call A WORM_USER_TIME_ADMIN pin }
          else ret rc1) })
     (\<lambda>rc t. \<exists>st st' rc1 es. sess es s t \<and>
        (es = [(User_login st WORM_USER_TIME_ADMIN pin, rc)] \<or>
         worm_rc_needs_self_test rc1 \<and>
         es = [(User_login st WORM_USER_TIME_ADMIN pin, rc1), (User_login st' WORM_USER_TIME_ADMIN pin, rc)])) s"
proof (rule wp_seq [OF sess_login])
  fix rc1 t assume t: "sess [(User_login (w_store s) WORM_USER_TIME_ADMIN pin, rc1)] s t"
  show "wp (if worm_rc_needs_self_test rc1 then do {
            _ \<leftarrow> ensure_self_test_passed A E True;
            worm_user_login_call A WORM_USER_TIME_ADMIN pin } else ret rc1)
     (\<lambda>rc t. \<exists>st st' rc1 es. sess es s t \<and>
        (es = [(User_login st WORM_USER_TIME_ADMIN pin, rc)] \<or>
         worm_rc_needs_self_test rc1 \<and>
         es = [(User_login st WORM_USER_TIME_ADMIN pin, rc1), (User_login st' WORM_USER_TIME_ADMIN pin, rc)])) t"
  proof (cases "worm_rc_needs_self_test rc1")
    case True
    show ?thesis
      unfolding if_P [OF True]
    proof (rule wp_seq [OF sess_ensure], rule wp_mono [OF sess_login])
      fix r2 t2 rc u
      assume "sess [] t t2" "sess [(User_login (w_store t2) WORM_USER_TIME_ADMIN pin, rc)] t2 u"
      from sess_trans [OF sess_trans [OF t this(1)] this(2)] True
      show "\<exists>st st' rc1 es. sess es s u \<and>
        (es = [(User_login st WORM_USER_TIME_ADMIN pin, rc)] \<or>
         worm_rc_needs_self_test rc1 \<and>
         es = [(User_login st WORM_USER_TIME_ADMIN pin, rc1), (User_login st' WORM_USER_TIME_ADMIN pin, rc)])"
        by auto
    qed
  next
    case False
    then show ?thesis using t by (auto simp: wps)
  qed
qed

lemma perform_time_sync_sess:
  "wp (perform_time_sync A E) (\<lambda>ok t. \<exists>es. sess es s t \<and> sync_good ok es) s"
proof -
  have nil: "sync_good ok []" for ok by (simp add: sync_good_def)
  have valid: "wp (worm_has_valid_time A) (\<lambda>ok t. \<exists>es. sess es s t \<and> sync_good ok es) s"
    by (rule wp_mono [OF sess_valid]) (use nil in blast)
  let ?pin = "cfg_worm_time_admin_pin (g_config s)"
  have main: "wp (do {
       _ \<leftarrow> ensure_self_test_passed A E False;
       login_rc \<leftarrow> do {
         rc1 \<leftarrow> worm_user_login_call A WORM_USER_TIME_ADMIN ?pin;
         (if worm_rc_needs_self_test rc1 then do {
            _ \<leftarrow> ensure_self_test_passed A E True;
            worm_user_login_call A WORM_USER_TIME_ADMIN ?pin }
          else ret rc1) };
       if login_rc \<noteq> WORM_ERROR_NOERROR then ret False else sync_session A E ?pin })
     (\<lambda>ok t. \<exists>es. sess es s t \<and> sync_good ok es) s"
  proof (rule wp_seq [OF sess_ensure], rule wp_seq [OF sess_login_twice])
    fix r1 t1 rc t
    assume "sess [] s t1"
      and "\<exists>st st' rc1 es. sess es t1 t \<and>
        (es = [(User_login st WORM_USER_TIME_ADMIN ?pin, rc)] \<or>
         worm_rc_needs_self_test rc1 \<and>
         es = [(User_login st WORM_USER_TIME_ADMIN ?pin, rc1), (User_login st' WORM_USER_TIME_ADMIN ?pin, rc)])"
    then obtain es st st' rc1 where t: "sess es s t"
      and es: "es = [(User_login st WORM_USER_TIME_ADMIN ?pin, rc)] \<or> worm_rc_needs_self_test rc1 \<and>
        es = [(User_login st WORM_USER_TIME_ADMIN ?pin, rc1), (User_login st' WORM_USER_TIME_ADMIN ?pin, rc)]"
      using sess_trans [of "[]" s t1] by fastforce
    have rc1: "worm_rc_needs_self_test rc1 \<Longrightarrow> rc1 \<noteq> WORM_ERROR_NOERROR"
      by (auto simp: worm_rc_needs_self_test_def worm_codes)
    show "wp (if rc \<noteq> WORM_ERROR_NOERROR then ret False else sync_session A E ?pin)
      (\<lambda>ok t. \<exists>es. sess es s t \<and> sync_good ok es) t"
    proof (cases "rc = WORM_ERROR_NOERROR")
      case False
      then have "sync_good False es" using es rc1 by (auto simp: sync_good_def refused_def)
      then show ?thesis using False t by (auto simp: wps)
    next
      case True
      have "wp (sync_session A E ?pin) (\<lambda>ok t. \<exists>es. sess es s t \<and> sync_good ok es) t"
      proof (rule wp_mono [OF sync_session_sess])
        fix ok u assume "\<exists>fs. sess fs t u \<and> in_session ok fs"
        then obtain fs where u: "sess fs t u" and fs: "in_session ok fs" by blast
        have "sync_good ok (es @ fs)"
          using es fs True rc1 by (auto simp: sync_good_def in_session_def refused_def)
        then show "\<exists>es. sess es s u \<and> sync_good ok es" using sess_trans [OF t u] by blast
      qed
      then show ?thesis using True by simp
    qed
  qed
  show ?thesis
    unfolding perform_time_sync_eq using valid main by (simp add: wps)
qed

lemma stays_sync_time [stays_intros]:
  "state_io_rel (stays C) (modify (\<lambda>s. s\<lparr>w_last_time_sync := now\<rparr>))"
  by (rule io_modify) (simp add: stays_def)

lemma stays_finish_sync [stays_intros]:
  "(\<And>c. is_session c \<Longrightarrow> C c) \<Longrightarrow> state_io_rel (stays C) (finish_time_sync A rc)"
  unfolding finish_time_sync_def by (intro stays_intros) auto

lemma stays_update [stays_intros]:
  "(\<And>c. is_session c \<Longrightarrow> C c) \<Longrightarrow> state_io_rel (stays C) (update_tse_time A)"
  unfolding update_tse_time_def by (intro stays_intros) auto

lemma stays_sync [stays_intros]:
  "(\<And>c. clockwork c \<Longrightarrow> C c) \<Longrightarrow> state_io_rel (stays C) (perform_time_sync A E)"
  unfolding perform_time_sync_def Let_def by (intro stays_intros) auto

lemma stays_recover [stays_intros]:
  "(\<And>c. clockwork c \<Longrightarrow> C c) \<Longrightarrow> state_io_rel (stays C) (recover_after_worm_error A E rc)"
  unfolding recover_after_worm_error_def by (intro stays_intros) auto

lemma stays_prepare [stays_intros]:
  "(\<And>c. clockwork c \<Longrightarrow> C c) \<Longrightarrow> state_io_rel (stays C) (prepare_tse A E)"
  unfolding prepare_tse_def by (intro stays_intros) auto

section \<open>The lock\<close>

lemma stays_locked:
  "\<not> w_mu s \<Longrightarrow> stays C (s\<lparr>w_mu := True\<rparr>) t \<Longrightarrow> stays C s (t\<lparr>w_mu := False\<rparr>)"
  by (auto simp: stays_def)

lemma wp_lock: "\<not> w_mu s \<Longrightarrow> wp mu_lock Q s = Q () (s\<lparr>w_mu := True\<rparr>)"
  by (simp add: mu_lock_def wps)

lemma wp_unlock: "wp mu_unlock Q = (\<lambda>s. Q () (s\<lparr>w_mu := False\<rparr>))"
  by (simp add: mu_unlock_def wps)

lemma wp_stays: "state_io_rel (stays C) m \<Longrightarrow> wp m (\<lambda>_ t. stays C s t) s"
  by (erule wp_io)

lemma register_client_stays:
  assumes "\<not> w_mu s"
  shows "wp (tse_worm_register_client A E client) (\<lambda>_ t. stays upkeep s t) s"
proof (cases "w_active s \<and> w_ptr s P_register_client")
  case False
  then show ?thesis by (auto simp: tse_worm_register_client_def wps intro: reflpD [OF stays_refl])
next
  case True
  have reg: "wp (register_as_admin A safe) (\<lambda>_ t. stays upkeep (s\<lparr>w_mu := True\<rparr>) t) (s\<lparr>w_mu := True\<rparr>)" for safe
    by (rule wp_stays) (intro stays_intros, simp)
  have rest: "wp (do { _ \<leftarrow> worm_client_mark_registered client; _ \<leftarrow> db_set_setting E k v; ret x })
      (\<lambda>_ u. stays upkeep s u) t" if "stays upkeep s t" for k v x t
  proof -
    have "wp (do { _ \<leftarrow> worm_client_mark_registered client; _ \<leftarrow> db_set_setting E k v; ret x })
      (\<lambda>_ u. stays upkeep t u) t"
      by (rule wp_stays) (intro stays_intros)
    then show ?thesis by (rule wp_mono) (blast intro: transpD [OF stays_trans] that)
  qed
  from True assms show ?thesis
    by (simp add: tse_worm_register_client_def wps wp_lock Let_def)
      (rule wp_mono [OF reg], auto simp: wps wp_unlock stays_locked intro!: rest [unfolded wps])
qed

lemma ensure_client_stays:
  assumes "\<not> w_mu s"
  shows "wp (ensure_client_registered A E client) (\<lambda>_ t. stays upkeep s t) s"
proof -
  have mark: "wp (worm_client_mark_registered client) (\<lambda>_ u. stays upkeep s u) t" if "stays upkeep s t" for t
  proof -
    have "wp (worm_client_mark_registered client) (\<lambda>_ u. stays upkeep t u) t"
      by (rule wp_stays) (intro stays_intros)
    then show ?thesis by (rule wp_mono) (blast intro: transpD [OF stays_trans] that)
  qed
  show ?thesis
    by (auto simp: ensure_client_registered_def wps intro: reflpD [OF stays_refl]
        intro!: wp_mono [OF register_client_stays [OF assms]] mark)
qed

section \<open>Response objects and attempts\<close>

definition txn_class :: "wcall \<Rightarrow> bool" where
  "txn_class c \<longleftrightarrow> clockwork c \<or> is_response c"

definition resp_of :: "(wcall \<times> int) list \<Rightarrow> (wcall \<times> int) list" where
  "resp_of es = filter (\<lambda>e. is_response (fst e)) es"

definition resp :: "(wcall \<times> int) list \<Rightarrow> ('db, 'hw, 'a) server_scheme \<Rightarrow> ('db, 'hw, 'a) server_scheme \<Rightarrow> bool" where
  "resp es s t \<longleftrightarrow> stays txn_class s t \<and> (\<exists>ext. w_trace t = w_trace s @ ext \<and> resp_of ext = es)"

text \<open>
  The life of response objects: at most one at a time, used only while it is live, and freed at the
  end.  The first argument is the live handle, 0 when there is none.
\<close>

fun responses_ok :: "int \<Rightarrow> (wcall \<times> int) list \<Rightarrow> bool" where
  "responses_ok h [] = (h = 0)"
| "responses_ok h ((c, r) # es) =
     (case c of
        Resp_new _ \<Rightarrow> h = 0 \<and> responses_ok r es
      | Resp_free i \<Rightarrow> h \<noteq> 0 \<and> i = h \<and> responses_ok 0 es
      | Resp_u64 _ i \<Rightarrow> h \<noteq> 0 \<and> i = h \<and> responses_ok h es
      | Resp_signature i \<Rightarrow> h \<noteq> 0 \<and> i = h \<and> responses_ok h es
      | Tx_start _ _ _ _ i \<Rightarrow> h \<noteq> 0 \<and> i = h \<and> responses_ok h es
      | Tx_finish _ _ _ _ _ i \<Rightarrow> h \<noteq> 0 \<and> i = h \<and> responses_ok h es
      | _ \<Rightarrow> False)"

lemma responses_ok_simps [simp]:
  "responses_ok h ((Resp_new st, r) # es) = (h = 0 \<and> responses_ok r es)"
  "responses_ok h ((Resp_free i, r) # es) = (h \<noteq> 0 \<and> i = h \<and> responses_ok 0 es)"
  by simp_all

fun is_attempt :: "wcall \<Rightarrow> bool" where
  "is_attempt (Tx_start _ _ _ _ _) = True"
| "is_attempt (Tx_finish _ _ _ _ _ _) = True"
| "is_attempt _ = False"

definition attempts :: "(wcall \<times> int) list \<Rightarrow> (wcall \<times> int) list" where
  "attempts es = filter (\<lambda>e. is_attempt (fst e)) es"

definition recoverable :: "int \<Rightarrow> bool" where
  "recoverable rc \<longleftrightarrow> worm_rc_needs_self_test rc \<or> rc = WORM_ERROR_NO_TIME_SET"

lemma recoverable_not_ok: "recoverable rc \<Longrightarrow> rc \<noteq> WORM_ERROR_NOERROR"
  by (auto simp: recoverable_def worm_rc_needs_self_test_def worm_codes)

lemma resp_refl: "resp [] s s"
  by (auto simp: resp_def resp_of_def intro: reflpD [OF stays_refl])

lemma resp_trans: "resp es s t \<Longrightarrow> resp fs t u \<Longrightarrow> resp (es @ fs) s u"
  unfolding resp_def resp_of_def using transpD [OF stays_trans] by fastforce

lemma resp_clockwork: "stays clockwork s t \<Longrightarrow> resp [] s t"
proof -
  assume st: "stays clockwork s t"
  then obtain ext where e: "w_trace t = w_trace s @ ext" "list_all (\<lambda>e. clockwork (fst e)) ext"
    by (auto simp: stays_def)
  from e(2) have "resp_of ext = []"
    by (auto simp: resp_of_def list_all_iff filter_empty_conv dest: clockwork_not_response)
  moreover have "stays txn_class s t" using st by (rule stays_mono) (simp add: txn_class_def)
  ultimately show ?thesis using e(1) by (auto simp: resp_def)
qed

lemma resp_quiet: "state_io_rel (stays clockwork) m \<Longrightarrow> wp m (\<lambda>_ t. resp [] s t) s"
  by (erule wp_io) (rule resp_clockwork)

lemma resp_step:
  "is_response c \<Longrightarrow> resp [(c, r)] s (s\<lparr>hw := h, w_trace := w_trace s @ [(c, r)]\<rparr>)"
  by (auto simp: resp_def resp_of_def txn_class_def intro!: stays_step)

lemma resp_calls:
  "is_response c \<Longrightarrow> wp (hw_handle A c) (\<lambda>r t. resp [(c, r)] s t) s"
  "is_response c \<Longrightarrow> wp (hw_rc A c) (\<lambda>r t. resp [(c, r)] s t) s"
  "is_response c \<Longrightarrow> wp (hw_void A c) (\<lambda>_ t. resp [(c, 0)] s t) s"
  "is_response c \<Longrightarrow> wp (hw_u64 A c) (\<lambda>r t. resp [(c, uint r)] s t) s"
  "is_response c \<Longrightarrow> wp (hw_bytes A c) (\<lambda>_ t. resp [(c, 0)] s t) s"
  by (simp_all add: hw_handle_def hw_rc_def hw_void_def hw_u64_def hw_bytes_def wps resp_step)

lemma recover_value:
  "wp (recover_after_worm_error A E rc) (\<lambda>b t. b = recoverable rc \<and> resp [] s t) s"
proof -
  have "wp (recover_after_worm_error A E rc) (\<lambda>_ t. resp [] s t) s"
    by (rule resp_quiet) (intro stays_intros)
  moreover have "value_of (recover_after_worm_error A E rc) s = recoverable rc"
    by (simp add: recover_after_worm_error_def recoverable_def split_beta)
  ultimately show ?thesis by (simp add: wp_run)
qed

text \<open>Reading a response: getters on the live handle only.\<close>

fun reads :: "int \<Rightarrow> wcall \<Rightarrow> bool" where
  "reads h (Resp_u64 _ i) = (i = h)"
| "reads h (Resp_signature i) = (i = h)"
| "reads h _ = False"

definition reading :: "int \<Rightarrow> ('db, 'hw, 'a) server_scheme \<Rightarrow> ('db, 'hw, 'a) server_scheme \<Rightarrow> bool" where
  "reading h s t \<longleftrightarrow> stays (reads h) s t"

lemma reads_response: "reads h c \<Longrightarrow> is_response c \<and> \<not> is_attempt c"
  by (cases c) auto

lemma responses_ok_reads:
  "h \<noteq> 0 \<Longrightarrow> list_all (\<lambda>e. reads h (fst e)) es \<Longrightarrow> responses_ok h (es @ fs) = responses_ok h fs"
proof (induction es)
  case (Cons e es)
  obtain c r where e: "e = (c, r)" by (cases e)
  with Cons show ?case by (cases c) auto
qed simp

declare responses_ok.simps(2) [simp del]

lemma fill_tx_reads:
  "wp (fill_tx_from_response A h)
     (\<lambda>_ t. \<exists>es. resp es s t \<and> list_all (\<lambda>e. reads h (fst e)) es) s"
proof (rule wp_io)
  show "state_io_rel (stays (reads h)) (fill_tx_from_response A h)"
    unfolding fill_tx_from_response_def resp_int_def Let_def by (intro stays_intros) auto
  fix t assume st: "stays (reads h) s t"
  then obtain ext where e: "w_trace t = w_trace s @ ext" "list_all (\<lambda>e. reads h (fst e)) ext"
    by (auto simp: stays_def)
  then have "resp_of ext = ext"
    using reads_response by (auto simp: resp_of_def list_all_iff filter_id_conv)
  moreover have "stays txn_class s t"
    using st by (rule stays_mono) (use reads_response in \<open>auto simp: txn_class_def\<close>)
  ultimately show "\<exists>es. resp es s t \<and> list_all (\<lambda>e. reads h (fst e)) es"
    using e by (auto simp: resp_def)
qed

text \<open>The call made on a response object, and what the two attempts look like.\<close>

definition call_shape :: "(int \<Rightarrow> wcall) \<Rightarrow> bool" where
  "call_shape call \<longleftrightarrow> (\<exists>st cl pd pt. call = Tx_start st cl pd pt) \<or> (\<exists>st cl n pd pt. call = Tx_finish st cl n pd pt)"

lemma call_shape_simps:
  assumes "call_shape call"
  shows "is_response (call h)" "is_attempt (call h)"
    "responses_ok l ((call h, r) # es) = (l \<noteq> 0 \<and> h = l \<and> responses_ok l es)"
  using assms by (auto simp: call_shape_def responses_ok.simps(2))

definition tried :: "(int \<Rightarrow> wcall) \<Rightarrow> int option \<Rightarrow> (wcall \<times> int) list \<Rightarrow> bool" where
  "tried call final es \<longleftrightarrow> length (attempts es) \<le> 2
     \<and> list_all (\<lambda>e. \<exists>h. fst e = call h) (attempts es)
     \<and> (length (attempts es) = 2 \<longrightarrow> recoverable (snd (hd (attempts es))))
     \<and> (case final of None \<Rightarrow> attempts es = [] \<or> (\<exists>h r. attempts es = [(call h, r)] \<and> recoverable r)
        | Some rc \<Rightarrow> attempts es \<noteq> [] \<and> snd (last (attempts es)) = rc)"

lemma attempts_simps [simp]:
  "attempts [] = []" "attempts ((c, r) # es) = (if is_attempt c then (c, r) # attempts es else attempts es)"
  "attempts (es @ fs) = attempts es @ attempts fs"
  by (simp_all add: attempts_def)

lemma call_with_retry_resp:
  assumes "call_shape call"
  shows "wp (call_with_retry A E call)
     (\<lambda>r t. \<exists>es. resp es s t \<and>
        (case r of None \<Rightarrow> responses_ok 0 es \<and> tried call None es
         | Some (h, rc) \<Rightarrow> h \<noteq> 0 \<and> tried call (Some rc) es
             \<and> (\<forall>fs. responses_ok h fs \<longrightarrow> responses_ok 0 (es @ fs)))) s"
proof -
  note shape = call_shape_simps [OF assms]
  let ?Q = "\<lambda>r t. \<exists>es. resp es s t \<and>
        (case r of None \<Rightarrow> responses_ok 0 es \<and> tried call None es
         | Some (h, rc) \<Rightarrow> h \<noteq> 0 \<and> tried call (Some rc) es
             \<and> (\<forall>fs. responses_ok h fs \<longrightarrow> responses_ok 0 (es @ fs)))"
  have second: "wp (do {
      _ \<leftarrow> hw_void A (Resp_free h);
      h2 \<leftarrow> hw_handle A (Resp_new (w_store s));
      if h2 = 0 then ret None else do { rc2 \<leftarrow> hw_rc A (call h2); ret (Some (h2, rc2)) } }) ?Q t"
    if t: "resp [(Resp_new (w_store s), h), (call h, rc)] s t" "h \<noteq> 0" "recoverable rc" for h rc t
  proof (rule wp_seq [OF resp_calls(3)], simp, rule wp_seq [OF resp_calls(1)], simp)
    fix t1 h2 t2
    assume t12: "resp [(Resp_free h, 0)] t t1" "resp [(Resp_new (w_store s), h2)] t1 t2"
    note sofar = resp_trans [OF resp_trans [OF t(1) t12(1)] t12(2)]
    show "wp (if h2 = 0 then ret None else do { rc2 \<leftarrow> hw_rc A (call h2); ret (Some (h2, rc2)) }) ?Q t2"
    proof (cases "h2 = 0")
      case True
      then show ?thesis
        using sofar t(2,3) by (simp add: wps) (intro exI conjI, assumption, auto simp: shape tried_def)
    next
      case False
      have "wp (do { rc2 \<leftarrow> hw_rc A (call h2); ret (Some (h2, rc2)) }) ?Q t2"
      proof (rule wp_seq [OF resp_calls(2)], rule shape(1))
        fix rc2 t3 assume t3: "resp [(call h2, rc2)] t2 t3"
        show "wp (ret (Some (h2, rc2))) ?Q t3"
          using resp_trans [OF sofar t3] t(2,3) False
          by (simp add: wps) (intro exI conjI, assumption, auto simp: shape tried_def)
      qed
      then show ?thesis using False by simp
    qed
  qed
  have first: "wp (do {
      rc \<leftarrow> hw_rc A (call h);
      retry \<leftarrow> (if rc \<noteq> WORM_ERROR_NOERROR then recover_after_worm_error A E rc else ret False);
      if \<not> retry then ret (Some (h, rc)) else do {
        _ \<leftarrow> hw_void A (Resp_free h);
        h2 \<leftarrow> hw_handle A (Resp_new (w_store s));
        if h2 = 0 then ret None else do { rc2 \<leftarrow> hw_rc A (call h2); ret (Some (h2, rc2)) } } }) ?Q t"
    if t: "resp [(Resp_new (w_store s), h)] s t" "h \<noteq> 0" for h t
  proof (rule wp_seq [OF resp_calls(2)], rule shape(1))
    fix rc t1 assume t1: "resp [(call h, rc)] t t1"
    note sofar = resp_trans [OF t(1) t1]
    have rec: "wp (if rc \<noteq> WORM_ERROR_NOERROR then recover_after_worm_error A E rc else ret False)
        (\<lambda>b u. b = recoverable rc \<and> resp [] t1 u) t1"
      using recover_value [of A E rc t1] recoverable_not_ok by (auto simp: wps resp_refl)
    show "wp (do {
      retry \<leftarrow> (if rc \<noteq> WORM_ERROR_NOERROR then recover_after_worm_error A E rc else ret False);
      if \<not> retry then ret (Some (h, rc)) else do {
        _ \<leftarrow> hw_void A (Resp_free h);
        h2 \<leftarrow> hw_handle A (Resp_new (w_store s));
        if h2 = 0 then ret None else do { rc2 \<leftarrow> hw_rc A (call h2); ret (Some (h2, rc2)) } } }) ?Q t1"
    proof (rule wp_seq [OF rec])
      fix b u assume "b = recoverable rc \<and> resp [] t1 u"
      then have b: "b = recoverable rc" and u: "resp [(Resp_new (w_store s), h), (call h, rc)] s u"
        using resp_trans [OF sofar, of "[]" u] by auto
      show "wp (if \<not> b then ret (Some (h, rc)) else do {
        _ \<leftarrow> hw_void A (Resp_free h);
        h2 \<leftarrow> hw_handle A (Resp_new (w_store s));
        if h2 = 0 then ret None else do { rc2 \<leftarrow> hw_rc A (call h2); ret (Some (h2, rc2)) } }) ?Q u"
      proof (cases b)
        case True
        then show ?thesis using second [OF u t(2)] b by simp
      next
        case False
        then show ?thesis
          using u t(2) by (simp add: wps) (intro exI conjI, assumption, auto simp: shape tried_def)
      qed
    qed
  qed
  show ?thesis
    unfolding call_with_retry_def wp_bind wp_get
  proof (rule wp_mono [OF resp_calls(1)], simp)
    fix h t assume t: "resp [(Resp_new (w_store s), h)] s t"
    show "wp (if h = 0 then ret None else do {
        rc \<leftarrow> hw_rc A (call h);
        retry \<leftarrow> (if rc \<noteq> WORM_ERROR_NOERROR then recover_after_worm_error A E rc else ret False);
        if \<not> retry then ret (Some (h, rc)) else do {
          _ \<leftarrow> hw_void A (Resp_free h);
          h2 \<leftarrow> hw_handle A (Resp_new (w_store s));
          if h2 = 0 then ret None else do { rc2 \<leftarrow> hw_rc A (call h2); ret (Some (h2, rc2)) } } }) ?Q t"
    proof (cases "h = 0")
      case True
      then show ?thesis
        using t by (simp add: wps) (intro exI conjI, assumption, auto simp: tried_def)
    next
      case False
      then show ?thesis using first [OF t] by simp
    qed
  qed
qed

section \<open>A transaction under the lock\<close>

lemma resp_locked:
  assumes "\<not> w_mu s" "resp es (s\<lparr>w_mu := True\<rparr>) t"
  shows "resp es s (t\<lparr>w_mu := False\<rparr>)"
  using assms stays_locked [of s txn_class t] by (auto simp: resp_def)

lemma tried_append [simp]: "attempts fs = [] \<Longrightarrow> tried call f (es @ fs) = tried call f es"
  by (cases f) (simp_all add: tried_def)

lemma attempts_reads: "list_all (\<lambda>e. reads h (fst e)) es \<Longrightarrow> attempts es = []"
  using reads_response by (auto simp: attempts_def list_all_iff filter_empty_conv)

definition under_lock ::
  "'hw worm_api \<Rightarrow> 'db engine \<Rightarrow> (int \<Rightarrow> wcall) \<Rightarrow> 'r \<Rightarrow> (int \<Rightarrow> 'r) \<Rightarrow> (tse_transaction \<Rightarrow> 'r) \<Rightarrow>
   ('db, 'hw, 'a, 'r) prog" where
  "under_lock A E call none fail good = do {
     _ \<leftarrow> mu_lock;
     _ \<leftarrow> prepare_tse A E;
     r \<leftarrow> call_with_retry A E call;
     (case r of
        None \<Rightarrow> do { _ \<leftarrow> mu_unlock; ret none }
      | Some (response, rc) \<Rightarrow>
          if rc \<noteq> WORM_ERROR_NOERROR then do {
            _ \<leftarrow> hw_void A (Resp_free response);
            _ \<leftarrow> log_worm_diagnostics A;
            _ \<leftarrow> mu_unlock;
            ret (fail rc) }
          else do {
            tx \<leftarrow> fill_tx_from_response A response;
            _ \<leftarrow> hw_void A (Resp_free response);
            _ \<leftarrow> mu_unlock;
            ret (good tx) }) }"

lemma start_under_lock:
  "tse_worm_start_transaction A E client n = do {
     s \<leftarrow> State_Monad.get;
     if \<not> w_active s then ret (Inl []) else do {
       _ \<leftarrow> ensure_client_registered A E client;
       under_lock A E (Tx_start (w_store s) (worm_safe_client_id client 40) [] worm_tse_process_type)
         (Inl (fit n ''worm_transaction_response_new failed''))
         (\<lambda>rc. Inl (fit n (worm_failure_text ''worm_transaction_start'' rc)))
         (\<lambda>tx. Inr (tx\<lparr>tx_process_type := fit 512 worm_tse_process_type, tx_client_id := fit 256 client,
                     tx_state := ''ACTIVE''\<rparr>)) } }"
  by (simp only: tse_worm_start_transaction_def under_lock_def Let_def)

lemma finish_under_lock:
  "tse_worm_finish_transaction A E client num pdata k n = do {
     s \<leftarrow> State_Monad.get;
     if \<not> w_active s then ret (Inl (None, None)) else
       under_lock A E (Tx_finish (w_store s) (worm_safe_client_id client 40) (word_of_int num)
           (finish_payload pdata) worm_tse_process_type)
         (Inl (None, Some (fit n ''worm_transaction_response_new failed'')))
         (\<lambda>rc. Inl (Some (take k ''ErrorNoTransaction''), Some (fit n (worm_failure_text ''worm_transaction_finish'' rc))))
         (\<lambda>tx. Inr (tx\<lparr>tx_client_id := fit 256 client, tx_process_type := fit 512 worm_tse_process_type,
                     tx_state := ''FINISHED'', tx_number := num\<rparr>)) }"
  by (simp only: tse_worm_finish_transaction_def under_lock_def Let_def)

definition txn_outcome ::
  "(int \<Rightarrow> wcall) \<Rightarrow> 'r \<Rightarrow> (int \<Rightarrow> 'r) \<Rightarrow> (tse_transaction \<Rightarrow> 'r) \<Rightarrow> (wcall \<times> int) list \<Rightarrow> 'r \<Rightarrow> bool" where
  "txn_outcome call none fail good es r \<longleftrightarrow> responses_ok 0 es \<and>
     (r = none \<and> tried call None es
      \<or> (\<exists>rc. rc \<noteq> WORM_ERROR_NOERROR \<and> r = fail rc \<and> tried call (Some rc) es)
      \<or> (\<exists>tx. r = good tx \<and> tried call (Some WORM_ERROR_NOERROR) es))"

lemma under_lock_resp:
  assumes "\<not> w_mu s" and "call_shape call"
  shows "wp (under_lock A E call none fail good)
    (\<lambda>r t. \<exists>es. resp es s t \<and> txn_outcome call none fail good es r) s"
  unfolding under_lock_def
proof (simp only: wp_bind [of mu_lock] wp_lock [OF assms(1)], rule wp_seq [OF resp_quiet])
  let ?l = "s\<lparr>w_mu := True\<rparr>"
  let ?Q = "\<lambda>r t. \<exists>es. resp es s t \<and> txn_outcome call none fail good es r"
  show "state_io_rel (stays clockwork) (prepare_tse A E)" by (intro stays_intros)
  fix x t assume t: "resp [] ?l t"
  show "wp (do {
     r \<leftarrow> call_with_retry A E call;
     (case r of
        None \<Rightarrow> do { _ \<leftarrow> mu_unlock; ret none }
      | Some (response, rc) \<Rightarrow>
          if rc \<noteq> WORM_ERROR_NOERROR then do {
            _ \<leftarrow> hw_void A (Resp_free response);
            _ \<leftarrow> log_worm_diagnostics A;
            _ \<leftarrow> mu_unlock;
            ret (fail rc) }
          else do {
            tx \<leftarrow> fill_tx_from_response A response;
            _ \<leftarrow> hw_void A (Resp_free response);
            _ \<leftarrow> mu_unlock;
            ret (good tx) }) }) ?Q t"
  proof (rule wp_seq [OF call_with_retry_resp [OF assms(2)]])
    fix r u
    assume "\<exists>es. resp es t u \<and>
        (case r of None \<Rightarrow> responses_ok 0 es \<and> tried call None es
         | Some (h, rc) \<Rightarrow> h \<noteq> 0 \<and> tried call (Some rc) es
             \<and> (\<forall>fs. responses_ok h fs \<longrightarrow> responses_ok 0 (es @ fs)))"
    then obtain es where es: "resp es ?l u" "case r of None \<Rightarrow> responses_ok 0 es \<and> tried call None es
         | Some (h, rc) \<Rightarrow> h \<noteq> 0 \<and> tried call (Some rc) es
             \<and> (\<forall>fs. responses_ok h fs \<longrightarrow> responses_ok 0 (es @ fs))"
      using resp_trans [OF t] by fastforce
    have fin: "?Q r (v\<lparr>w_mu := False\<rparr>)" if "resp fs ?l v" "txn_outcome call none fail good fs r" for fs v r
      using resp_locked [OF assms(1) that(1)] that(2) by blast
    show "wp (case r of
        None \<Rightarrow> do { _ \<leftarrow> mu_unlock; ret none }
      | Some (response, rc) \<Rightarrow>
          if rc \<noteq> WORM_ERROR_NOERROR then do {
            _ \<leftarrow> hw_void A (Resp_free response);
            _ \<leftarrow> log_worm_diagnostics A;
            _ \<leftarrow> mu_unlock;
            ret (fail rc) }
          else do {
            tx \<leftarrow> fill_tx_from_response A response;
            _ \<leftarrow> hw_void A (Resp_free response);
            _ \<leftarrow> mu_unlock;
            ret (good tx) }) ?Q u"
    proof (cases r)
      case None
      then have "txn_outcome call none fail good es none" using es by (simp add: txn_outcome_def)
      from fin [OF es(1) this] show ?thesis by (simp add: None wps wp_unlock)
    next
      case (Some p)
      obtain h rc where p: "p = (h, rc)" by (cases p)
      with es Some have h: "h \<noteq> 0" "tried call (Some rc) es" "\<And>fs. responses_ok h fs \<Longrightarrow> responses_ok 0 (es @ fs)"
        by auto
      have bad: "wp (do { _ \<leftarrow> hw_void A (Resp_free h); _ \<leftarrow> log_worm_diagnostics A; _ \<leftarrow> mu_unlock; ret (fail rc) }) ?Q u"
        if "rc \<noteq> WORM_ERROR_NOERROR"
      proof (rule wp_seq [OF resp_calls(3)], simp, rule wp_seq [OF resp_quiet], intro stays_intros, simp)
        fix u1 u2 assume "resp [(Resp_free h, 0)] u u1" "resp [] u1 u2"
        then have "resp (es @ [(Resp_free h, 0)]) ?l u2" using resp_trans [OF resp_trans [OF es(1)]] by fastforce
        then show "wp (do { _ \<leftarrow> mu_unlock; ret (fail rc) }) ?Q u2"
          using that h by (simp only: wps wp_unlock) (erule fin, auto simp: txn_outcome_def)
      qed
      have fine: "wp (do { tx \<leftarrow> fill_tx_from_response A h; _ \<leftarrow> hw_void A (Resp_free h); _ \<leftarrow> mu_unlock;
            ret (good tx) }) ?Q u" if "rc = WORM_ERROR_NOERROR"
      proof (rule wp_seq [OF fill_tx_reads], rule wp_seq [OF resp_calls(3)], simp)
        fix tx u1 x u2
        assume "\<exists>fs. resp fs u u1 \<and> list_all (\<lambda>e. reads h (fst e)) fs" and u2: "resp [(Resp_free h, 0)] u1 u2"
        then obtain fs where fs: "resp fs u u1" "list_all (\<lambda>e. reads h (fst e)) fs" by blast
        have "resp (es @ fs @ [(Resp_free h, 0)]) ?l u2"
          using resp_trans [OF resp_trans [OF es(1) fs(1)] u2] by simp
        moreover have "responses_ok 0 (es @ fs @ [(Resp_free h, 0)])"
          using h fs(2) by (simp add: responses_ok_reads)
        ultimately show "wp (do { _ \<leftarrow> mu_unlock; ret (good tx) }) ?Q u2"
          using that h attempts_reads [OF fs(2)]
          by (simp only: wps wp_unlock) (erule fin, auto simp: txn_outcome_def)
      qed
      show ?thesis using bad fine p Some by simp
    qed
  qed
qed

section \<open>Export\<close>

lemma upkeep_clockwork: "stays upkeep s t \<Longrightarrow> stays clockwork s t"
  by (erule stays_mono) simp

lemma stays_renew [stays_intros]:
  "(\<And>c. clockwork c \<Longrightarrow> C c) \<Longrightarrow> state_io_rel (stays C) (renew_for_export A E)"
  unfolding renew_for_export_def by (intro stays_intros) auto

lemma stays_ready [stays_intros]:
  "(\<And>c. is_query c \<Longrightarrow> C c) \<Longrightarrow> state_io_rel (stays C) (export_ready A)"
  unfolding export_ready_def by (intro stays_intros) auto

lemma stays_run_export [stays_intros]:
  "(\<And>st. C (Export_tar st)) \<Longrightarrow> state_io_rel (stays C) (run_export A cb ctx)"
  by (auto simp: state_io_rel_def run_export_def stays_def Let_def split_beta)

lemma wp_with_lock:
  assumes "\<not> w_mu s" "state_io_rel (stays C) m"
  shows "wp (do { _ \<leftarrow> mu_lock; x \<leftarrow> m; _ \<leftarrow> mu_unlock; ret (f x) }) (\<lambda>_ t. stays C s t) s"
  unfolding wp_bind [of mu_lock] wp_lock [OF assms(1)]
  by (rule wp_seq [OF wp_stays [OF assms(2)]]) (simp add: wps wp_unlock stays_locked [OF assms(1)])

lemma export_prepare_stays:
  assumes "\<not> w_mu s"
  shows "wp (tse_worm_export_prepare A E) (\<lambda>_ t. stays clockwork s t) s"
proof -
  have "wp (do { _ \<leftarrow> mu_lock; ready \<leftarrow> do { _ \<leftarrow> renew_for_export A E; export_ready A }; _ \<leftarrow> mu_unlock;
      ret (if ready then 0 else -1 :: int) }) (\<lambda>_ t. stays clockwork s t) s"
    by (rule wp_with_lock [OF assms]) (intro stays_intros; simp)
  then show ?thesis
    by (simp add: tse_worm_export_prepare_def wp_bind [of State_Monad.get] wp_get wp_return wp_if
        reflpD [OF stays_refl])
qed

definition export_class :: "wcall \<Rightarrow> bool" where
  "export_class c \<longleftrightarrow> clockwork c \<or> (\<exists>st. c = Export_tar st)"

lemma export_tar_stays:
  assumes "\<not> w_mu s"
  shows "wp (tse_worm_export_tar A E cb ctx) (\<lambda>_ t. stays export_class s t) s"
proof -
  have "wp (do { _ \<leftarrow> mu_lock; r \<leftarrow> do { _ \<leftarrow> renew_for_export A E; run_export A cb ctx }; _ \<leftarrow> mu_unlock;
      ret (if fst r = WORM_ERROR_NOERROR then 0 else -1 :: int, snd r) }) (\<lambda>_ t. stays export_class s t) s"
    by (rule wp_with_lock [OF assms]) (intro stays_intros; simp add: export_class_def)
  then show ?thesis
    by (simp add: tse_worm_export_tar_def wp_bind [of State_Monad.get] wp_get wp_return wp_if
        reflpD [OF stays_refl])
qed

text \<open>Readiness is reported only after the TSE said that its self-test has passed.\<close>

lemma has_passed_event:
  "wp (worm_has_passed_self_test A) (\<lambda>b t. stays is_query s t \<and>
     (b \<longrightarrow> (\<exists>i v ext. w_trace t = w_trace s @ ext \<and> (Info_u64 P_has_passed_self_test i, v) \<in> set ext \<and> v \<noteq> 0))) s"
proof -
  have "wp (worm_has_passed_self_test A) (\<lambda>_ t. stays is_query s t) s"
    by (rule wp_stays) (intro stays_intros)
  moreover have "wp (worm_has_passed_self_test A) (\<lambda>b t. b \<longrightarrow> (\<exists>i v ext. w_trace t = w_trace s @ ext
      \<and> (Info_u64 P_has_passed_self_test i, v) \<in> set ext \<and> v \<noteq> 0)) s"
    by (auto simp: worm_has_passed_self_test_def with_info_def hw_handle_def hw_rc_def hw_u64_def hw_void_def
        wps unsigned_eq_0_iff cong: if_cong)
  ultimately show ?thesis by (simp add: wp_run)
qed

lemma export_prepare_event:
  assumes "\<not> w_mu s"
  shows "wp (tse_worm_export_prepare A E) (\<lambda>rc t. rc = 0 \<longrightarrow> w_active s \<and> w_ptr s P_export_tar \<and>
    (\<exists>i v ext. w_trace t = w_trace s @ ext \<and> (Info_u64 P_has_passed_self_test i, v) \<in> set ext \<and> v \<noteq> 0)) s"
proof (cases "\<not> w_active s \<or> \<not> w_ptr s P_export_tar")
  case True
  then show ?thesis by (simp add: tse_worm_export_prepare_def wps)
next
  case False
  let ?Q = "\<lambda>rc t. rc = (0 :: int) \<longrightarrow> w_active s \<and> w_ptr s P_export_tar \<and>
    (\<exists>i v ext. w_trace t = w_trace s @ ext \<and> (Info_u64 P_has_passed_self_test i, v) \<in> set ext \<and> v \<noteq> 0)"
  have "wp (do { _ \<leftarrow> renew_for_export A E; ready \<leftarrow> export_ready A; _ \<leftarrow> mu_unlock;
      ret (if ready then 0 else -1) }) ?Q (s\<lparr>w_mu := True\<rparr>)"
  proof (rule wp_seq [OF wp_stays])
    show "state_io_rel (stays clockwork) (renew_for_export A E)" by (intro stays_intros)
    fix x t assume "stays clockwork (s\<lparr>w_mu := True\<rparr>) t"
    then obtain e1 where e1: "w_trace t = w_trace s @ e1" by (auto simp: stays_def)
    show "wp (do { ready \<leftarrow> export_ready A; _ \<leftarrow> mu_unlock; ret (if ready then 0 else -1) }) ?Q t"
      unfolding export_ready_def State_Monad.bind_assoc
    proof (rule wp_seq [OF has_passed_event])
      fix passed u assume u: "stays is_query t u \<and> (passed \<longrightarrow> (\<exists>i v ext. w_trace u = w_trace t @ ext
        \<and> (Info_u64 P_has_passed_self_test i, v) \<in> set ext \<and> v \<noteq> 0))"
      show "wp (do { ready \<leftarrow> (if passed then worm_has_valid_time A else ret False); _ \<leftarrow> mu_unlock;
          ret (if ready then 0 else -1) }) ?Q u"
      proof (cases passed)
        case passed: True
        with u obtain i v e2 where e2: "w_trace u = w_trace t @ e2"
          "(Info_u64 P_has_passed_self_test i, v) \<in> set e2" "v \<noteq> 0" by blast
        have "wp (worm_has_valid_time A) (\<lambda>_ v. stays is_query u v) u"
          by (rule wp_stays) (intro stays_intros)
        then show ?thesis
        proof (simp add: passed, elim wp_seq)
          fix ready w assume "stays is_query u w"
          then obtain e3 where "w_trace w = w_trace u @ e3" by (auto simp: stays_def)
          then have "w_trace (w\<lparr>w_mu := False\<rparr>) = w_trace s @ (e1 @ e2 @ e3)" using e1 e2 by simp
          moreover have "(Info_u64 P_has_passed_self_test i, v) \<in> set (e1 @ e2 @ e3)" using e2 by simp
          ultimately show "wp (do { _ \<leftarrow> mu_unlock; ret (if ready then 0 else -1) }) ?Q w"
            using False e2(3) unfolding wps wp_unlock by blast
        qed
      qed (simp add: wps wp_unlock)
    qed
  qed
  then show ?thesis
    using False by (simp add: tse_worm_export_prepare_def wp_bind [of State_Monad.get] wp_get wp_if
        wp_bind [of mu_lock] wp_lock [OF assms])
qed

section \<open>Client identifiers\<close>

lemma length_hex16 [simp]: "length (hex16 h) = 16"
  by (simp add: hex16_def)

lemma worm_safe_client_id_long:
  "30 < length client \<Longrightarrow> 31 \<le> n \<Longrightarrow>
   worm_safe_client_id client n = take 13 client @ CHR ''-'' # hex16 (worm_fnv1a64 client)"
  by (cases client) (simp_all add: worm_safe_client_id_def Let_def)

section \<open>Properties\<close>

lemma attempts_resp_of [simp]: "attempts (resp_of es) = attempts es"
proof -
  have "is_attempt c \<Longrightarrow> is_response c" for c by (cases c) auto
  then show ?thesis by (auto simp: attempts_def resp_of_def intro: filter_cong)
qed

definition tries_ok :: "(int \<Rightarrow> wcall) \<Rightarrow> (wcall \<times> int) list \<Rightarrow> 'e + 'r \<Rightarrow> bool" where
  "tries_ok call es r \<longleftrightarrow> responses_ok 0 es \<and> length (attempts es) \<le> 2
    \<and> (length (attempts es) = 2 \<longrightarrow> recoverable (snd (hd (attempts es))))
    \<and> list_all (\<lambda>e. \<exists>h. fst e = call h) (attempts es)
    \<and> (isl r \<longleftrightarrow> attempts es = [] \<or> snd (last (attempts es)) \<noteq> WORM_ERROR_NOERROR)"

lemma txn_outcome_tries:
  "txn_outcome call (Inl none) (\<lambda>rc. Inl (fail rc)) (\<lambda>tx. Inr (good tx)) es r \<Longrightarrow> tries_ok call es r"
  using recoverable_not_ok by (auto simp: txn_outcome_def tried_def tries_ok_def)

lemma start_transaction_resp:
  assumes "\<not> w_mu s"
  shows "wp (tse_worm_start_transaction A E client n) (\<lambda>r t. \<exists>es. resp es s t \<and>
    tries_ok (Tx_start (w_store s) (worm_safe_client_id client 40) [] worm_tse_process_type) es r) s"
proof (cases "w_active s")
  case False
  then show ?thesis
    unfolding start_under_lock by (auto simp: wps tries_ok_def intro!: exI [of _ "[]"] resp_refl)
next
  case True
  have main: "wp (do { _ \<leftarrow> ensure_client_registered A E client;
       under_lock A E (Tx_start (w_store s) (worm_safe_client_id client 40) [] worm_tse_process_type)
         (Inl none) (\<lambda>rc. Inl (fail rc)) (\<lambda>tx. Inr (good tx)) })
     (\<lambda>r t. \<exists>es. resp es s t \<and> txn_outcome (Tx_start (w_store s) (worm_safe_client_id client 40) []
        worm_tse_process_type) (Inl none) (\<lambda>rc. Inl (fail rc)) (\<lambda>tx. Inr (good tx)) es r) s" for none fail good
  proof (rule wp_seq [OF ensure_client_stays [OF assms]], rule wp_mono [OF under_lock_resp])
    fix x t assume st: "stays upkeep s t"
    then show "\<not> w_mu t" using assms by (simp add: stays_def)
    show "call_shape (Tx_start (w_store s) (worm_safe_client_id client 40) [] worm_tse_process_type)"
      unfolding call_shape_def by blast
    fix r u
    assume "\<exists>es. resp es t u \<and> txn_outcome (Tx_start (w_store s) (worm_safe_client_id client 40) []
        worm_tse_process_type) (Inl none) (\<lambda>rc. Inl (fail rc)) (\<lambda>tx. Inr (good tx)) es r"
    then show "\<exists>es. resp es s u \<and> txn_outcome (Tx_start (w_store s) (worm_safe_client_id client 40) []
        worm_tse_process_type) (Inl none) (\<lambda>rc. Inl (fail rc)) (\<lambda>tx. Inr (good tx)) es r"
      using resp_trans [OF resp_clockwork [OF upkeep_clockwork [OF st]]] by fastforce
  qed
  show ?thesis
    unfolding start_under_lock wp_bind [of State_Monad.get] wp_get
    by (simp only: True not_True_eq_False if_False) (rule wp_mono [OF main], elim exE conjE, intro exI conjI, assumption, erule txn_outcome_tries)
qed

lemma finish_transaction_resp:
  assumes "\<not> w_mu s"
  shows "wp (tse_worm_finish_transaction A E client num pdata k n) (\<lambda>r t. \<exists>es. resp es s t \<and>
    tries_ok (Tx_finish (w_store s) (worm_safe_client_id client 40) (word_of_int num)
          (finish_payload pdata) worm_tse_process_type) es r) s"
proof (cases "w_active s")
  case False
  then show ?thesis
    unfolding finish_under_lock by (auto simp: wps tries_ok_def intro!: exI [of _ "[]"] resp_refl)
next
  case True
  have "call_shape (Tx_finish (w_store s) (worm_safe_client_id client 40) (word_of_int num)
      (finish_payload pdata) worm_tse_process_type)" unfolding call_shape_def by blast
  note main = under_lock_resp [OF assms this]
  show ?thesis
    unfolding finish_under_lock wp_bind [of State_Monad.get] wp_get
    by (simp only: True not_True_eq_False if_False) (rule wp_mono [OF main], elim exE conjE, intro exI conjI, assumption, erule txn_outcome_tries)
qed

lemma resp_tries:
  assumes "\<exists>es. resp es s t \<and> tries_ok call es r" and "\<not> w_mu s"
    and call: "\<And>h. call h = call' h"
  shows "\<exists>ext. let tries = attempts ext in
      w_trace t = w_trace s @ ext \<and> responses_ok 0 (resp_of ext) \<and> length tries \<le> 2
      \<and> (length tries = 2 \<longrightarrow> recoverable (snd (hd tries)))
      \<and> list_all (\<lambda>e. \<exists>h. fst e = call' h) tries
      \<and> (isl r \<longleftrightarrow> tries = [] \<or> snd (last tries) \<noteq> WORM_ERROR_NOERROR)
      \<and> \<not> w_mu t \<and> w_stuck t = w_stuck s"
proof -
  from assms(1) obtain es where es: "resp es s t" "tries_ok call es r" by blast
  then obtain ext where ext: "w_trace t = w_trace s @ ext" "resp_of ext = es"
    by (auto simp: resp_def)
  moreover have "attempts ext = attempts es" using attempts_resp_of [of ext] ext(2) by simp
  moreover have "\<not> w_mu t \<and> w_stuck t = w_stuck s" using es(1) assms(2) by (simp add: resp_def stays_def)
  ultimately show ?thesis
    using es(2) by (intro exI [of _ ext]) (simp add: tries_ok_def Let_def call)
qed

text \<open>A device and a process for the examples below: every call succeeds.\<close>

definition sample_api :: "unit worm_api" where
  "sample_api = \<lparr>api_rc = (\<lambda>_ h. (0, h)), api_open = (\<lambda>_ h. ((0, 1), h)), api_handle = (\<lambda>_ h. (1, h)),
     api_u64 = (\<lambda>_ h. (1, h)), api_bytes = (\<lambda>_ h. (Some [1, 2, 3], h)), api_text = (\<lambda>_ h. (Some ''1'', h)),
     api_void = (\<lambda>_ h. h), api_export = (\<lambda>_ h. (([[1, 2, 3]], 0, 1), h))\<rparr>"

definition sample_server :: "(tables, unit) server" where
  "sample_server = \<lparr>os_time = (\<lambda>_. 1700000000), os_ticks = 0, os_urandom = (\<lambda>_ n. Some (replicate n 7)),
     os_draws = 0, os_utc_offset = (\<lambda>_. 0), db_conn = fresh_tables, g_config = config_load empty_env,
     g_created_at = [], hw = (), w_ptr = (\<lambda>_. True), w_legacy = False, w_active = True, w_store = 1,
     w_serial = [], w_public_key_hex = [], w_public_key_b64 = [], w_certificate = [], w_store_path = [],
     w_last_time_sync = 0, w_clients = [], w_mu = False, w_stuck = False, w_trace = [],
     s_running = True, w_stack = (\<lambda>_. [])\<rparr>"

text \<open>
  C19. Time synchronisation leaves no TimeAdmin session open and spares the PIN: among the session
  calls it makes, every successful login is followed by a logout, updates happen only while logged
  in, there are at most three logins, none after the TSE refused one for a reason a self-test does
  not cure (a wrong or blocked PIN), and when there were session calls the result is true exactly
  when an update of the clock succeeded.
\<close>

theorem time_sync_sessions:
  "\<exists>ext. w_trace (poststate (perform_time_sync A E) s) = w_trace s @ ext
     \<and> sync_good (value_of (perform_time_sync A E) s) (session_of ext)"
  using perform_time_sync_sess [of A E s] by (auto simp: wp_run sess_def)

text \<open>
  C17. Starting a transaction on the TSE: at most one retry, and only after an error the recovery
  handles; every attempt is a start with the client's safe id and the fixed process type; each
  response object is used only while it is live and freed; the result is a transaction exactly when
  the last attempt succeeded; and the lock is free again.
\<close>

theorem start_transaction_device:
  assumes "\<not> w_mu s"
  shows "\<exists>ext. let r = value_of (tse_worm_start_transaction A E client n) s;
        t = poststate (tse_worm_start_transaction A E client n) s; tries = attempts ext in
      w_trace t = w_trace s @ ext \<and> responses_ok 0 (resp_of ext) \<and> length tries \<le> 2
      \<and> (length tries = 2 \<longrightarrow> recoverable (snd (hd tries)))
      \<and> list_all (\<lambda>e. \<exists>h. fst e = Tx_start (w_store s) (worm_safe_client_id client 40) [] ''Kassenbeleg-V1'' h) tries
      \<and> (isl r \<longleftrightarrow> tries = [] \<or> snd (last tries) \<noteq> WORM_ERROR_NOERROR)
      \<and> \<not> w_mu t \<and> w_stuck t = w_stuck s"
  using start_transaction_resp [OF assms, of A E client n]
  unfolding wp_run Let_def [of "value_of _ _"] Let_def [of "poststate _ _"]
  by (rule resp_tries [OF _ assms]) (simp add: worm_tse_process_type_def)

theorem start_transaction_device_witness:
  "\<not> w_mu (poststate (tse_worm_start_transaction sample_api sql_exec ''till'' 256) sample_server)"
  using start_transaction_device [of sample_server sample_api sql_exec "''till''" 256]
  by (auto simp: sample_server_def Let_def)

text \<open>
  C18. Finishing a transaction on the TSE: at most one retry, and only after an error the recovery
  handles; every attempt is a finish of the given number for the client's safe id with the decoded
  process data; response objects are used only while live and freed; the result is a transaction
  exactly when the last attempt succeeded; and the lock is free again.
\<close>

theorem finish_transaction_device:
  assumes "\<not> w_mu s"
  shows "\<exists>ext. let r = value_of (tse_worm_finish_transaction A E client num pdata k n) s;
        t = poststate (tse_worm_finish_transaction A E client num pdata k n) s; tries = attempts ext in
      w_trace t = w_trace s @ ext \<and> responses_ok 0 (resp_of ext) \<and> length tries \<le> 2
      \<and> (length tries = 2 \<longrightarrow> recoverable (snd (hd tries)))
      \<and> list_all (\<lambda>e. \<exists>h. fst e = Tx_finish (w_store s) (worm_safe_client_id client 40) (word_of_int num)
            (finish_payload pdata) ''Kassenbeleg-V1'' h) tries
      \<and> (isl r \<longleftrightarrow> tries = [] \<or> snd (last tries) \<noteq> WORM_ERROR_NOERROR)
      \<and> \<not> w_mu t \<and> w_stuck t = w_stuck s"
  using finish_transaction_resp [OF assms, of A E client num pdata k n]
  unfolding wp_run Let_def [of "value_of _ _"] Let_def [of "poststate _ _"]
  by (rule resp_tries [OF _ assms]) (simp add: worm_tse_process_type_def)

theorem finish_transaction_device_witness:
  "\<not> w_mu (poststate (tse_worm_finish_transaction sample_api sql_exec ''till'' 7 ''aGk='' 64 256) sample_server)"
  using finish_transaction_device [of sample_server sample_api sql_exec "''till''" 7 "''aGk=''" 64 256]
  by (auto simp: sample_server_def Let_def)

text \<open>
  No operation can block on the lock it holds: registering, starting, finishing, preparing an
  export and exporting, called with the lock free, never lock it twice and leave it free, on every
  path.
\<close>

theorem worm_lock_free:
  assumes "\<not> w_mu s"
    and "t \<in> {poststate (tse_worm_register_client A E client) s,
        poststate (tse_worm_start_transaction A E client n) s,
        poststate (tse_worm_finish_transaction A E client num pdata k n) s,
        poststate (tse_worm_export_prepare A E) s,
        poststate (tse_worm_export_tar A E cb ctx) s}"
  shows "\<not> w_mu t \<and> w_stuck t = w_stuck s"
proof -
  have st: "stays C s t \<Longrightarrow> \<not> w_mu t \<and> w_stuck t = w_stuck s" for C
    using assms(1) by (simp add: stays_def)
  note facts = register_client_stays [OF assms(1), of A E client, unfolded wp_run]
    start_transaction_resp [OF assms(1), of A E client n, unfolded wp_run resp_def]
    finish_transaction_resp [OF assms(1), of A E client num pdata k n, unfolded wp_run resp_def]
    export_prepare_stays [OF assms(1), of A E, unfolded wp_run]
    export_tar_stays [OF assms(1), of A E cb ctx, unfolded wp_run]
  from assms(2) have "\<exists>C. stays C s t"
    using facts by (elim insertE emptyE) (simp_all, blast+)
  then show ?thesis using st by blast
qed

theorem worm_lock_free_witness:
  "\<not> w_mu (poststate (tse_worm_export_prepare sample_api sql_exec) sample_server)"
proof -
  have "\<not> w_mu sample_server" by (simp add: sample_server_def)
  from worm_lock_free [OF this, of "poststate (tse_worm_export_prepare sample_api sql_exec) sample_server"
      sample_api sql_exec "[]" 0 0 "[]" 0 "\<lambda>c _. (c, True)" "()"] show ?thesis by simp
qed

text \<open>
  An export is only announced as ready when the TSE itself reported a passed self-test during
  the preparation.
\<close>

theorem export_ready_after_self_test:
  assumes "\<not> w_mu s" and "value_of (tse_worm_export_prepare A E) s = 0"
  shows "w_active s \<and> (\<exists>i v ext. w_trace (poststate (tse_worm_export_prepare A E) s) = w_trace s @ ext
    \<and> (Info_u64 P_has_passed_self_test i, v) \<in> set ext \<and> v \<noteq> 0)"
  using export_prepare_event [OF assms(1)] assms(2) unfolding wp_run by blast

theorem export_ready_after_self_test_witness:
  "\<exists>i v. (Info_u64 P_has_passed_self_test i, v) \<in> set (w_trace (poststate (tse_worm_export_prepare sample_api sql_exec) sample_server))"
proof -
  have "\<not> w_mu sample_server" "w_trace sample_server = []" by (simp_all add: sample_server_def)
  moreover have "value_of (tse_worm_export_prepare sample_api sql_exec) sample_server = 0"
    by (simp add: tse_worm_export_prepare_def renew_for_export_def export_ready_def ensure_self_test_passed_def
        worm_has_passed_self_test_def worm_has_valid_time_def with_info_def hw_handle_def hw_rc_def hw_u64_def
        hw_void_def mu_lock_def mu_unlock_def sample_api_def sample_server_def worm_codes)
  ultimately show ?thesis
    using export_ready_after_self_test [of sample_server sample_api sql_exec] by auto
qed

text \<open>
  The id sent to the TSE always fits its 30-byte slots and is never empty: an id of 1 to 30 bytes
  is sent as it is, an empty one as \<open>default\<close>, and a longer one as its first 13 bytes, a dash and
  the 16 hexadecimal digits of its FNV-1a hash, so two long ids share a TSE id only when both agree.
\<close>

theorem safe_client_id:
  "let safe = worm_safe_client_id client 40 in
     safe \<noteq> [] \<and> length safe \<le> 30
     \<and> (client \<noteq> [] \<and> length client \<le> 30 \<longrightarrow> safe = client)
     \<and> (30 < length client \<and> 30 < length other \<and> worm_safe_client_id other 40 = safe \<longrightarrow>
          take 13 client = take 13 other \<and> hex16 (worm_fnv1a64 client) = hex16 (worm_fnv1a64 other))"
proof -
  consider "client = []" | "client \<noteq> []" "length client \<le> 30" | "30 < length client" by linarith
  then show ?thesis
  proof cases
    case 3
    have "take 13 client @ x = take 13 other @ y \<Longrightarrow> 30 < length other \<Longrightarrow> take 13 client = take 13 other \<and> x = y" for x y
      using 3 by (subst (asm) append_eq_append_conv) auto
    then show ?thesis using 3 by (cases "30 < length other") (auto simp: worm_safe_client_id_long Let_def)
  qed (auto simp: worm_safe_client_id_def Let_def)
qed

theorem safe_client_id_witness:
  "length (worm_safe_client_id ''0123456789012345678901234567890123456789'' 40) \<le> 30"
  using safe_client_id [of "''0123456789012345678901234567890123456789''" "[]"] by (simp add: Let_def)

text \<open>
  The cache of registered clients never exceeds its 64 slots nor holds an id twice, marking a
  client that fits makes it cached unless the table is full, and no cached client is forgotten.
\<close>

theorem client_cache:
  assumes "length (w_clients s) \<le> 64" and "distinct (w_clients s)" and "length client < 256"
  shows "let t = poststate (worm_client_mark_registered client) s in
    length (w_clients t) \<le> 64 \<and> distinct (w_clients t)
    \<and> (worm_client_is_cached_registered t client \<longleftrightarrow>
         worm_client_is_cached_registered s client \<or> length (w_clients s) < 64)
    \<and> (\<forall>c. worm_client_is_cached_registered s c \<longrightarrow> worm_client_is_cached_registered t c)"
  using assms
  by (auto simp: worm_client_mark_registered_def worm_client_is_cached_registered_def list_ex_iff Let_def)

theorem client_cache_witness:
  "worm_client_is_cached_registered (poststate (worm_client_mark_registered ''till'') sample_server) ''till''"
proof -
  have "w_clients sample_server = []" by (simp add: sample_server_def)
  then show ?thesis using client_cache [of sample_server "''till''"] by (simp add: Let_def)
qed

end
