(* ===== verification/Tse_Store.thy ===== *)
theory Tse_Store
  imports Tse_Worm_Safety
begin

text \<open>
  \<^verbatim>\<open>c/src/store.c\<close>: the register of clients and the journal of transactions, kept in SQLite by the
  simulator and by the TSE when one is active.  What the hardware does is in \<open>Tse_Worm\<close>; here it
  is a job handed to the worker thread.

  An output buffer that a path leaves unwritten keeps what the caller had in it: the buffer's old
  content is an argument \<open>out0\<close>, and an unwritten error text is \<open>None\<close>.
\<close>

section \<open>Handing a job to the worker\<close>

text \<open>
  \<^verbatim>\<open>tse_worker_run\<close> as its caller sees it: the job has run when it returns, or the worker does not
  run and the job's initial result stands.  \<open>Tse_Worker\<close> models the threads.
\<close>

definition run_job :: "('db, 'hw, 'a, 'r) prog \<Rightarrow> 'r \<Rightarrow> ('db, 'hw, 'a, 'r) prog" where
  "run_job job dflt = do {
     s \<leftarrow> State_Monad.get;
     (if s_running s then job else ret dflt) }"

section \<open>Rows\<close>

definition load_transaction_row :: "'db engine \<Rightarrow> sql_value list \<Rightarrow> ('db, 'hw, 'a, tse_transaction) prog" where
  "load_transaction_row E row = do {
     let text = (\<lambda>i n. case column_text (row ! i) of None \<Rightarrow> [] | Some t \<Rightarrow> fit n t);
     serial \<leftarrow> db_get_setting E ''tse_serial'' 128;
     s \<leftarrow> State_Monad.get;
     let serial_buf = (case serial of Some b \<Rightarrow> b | None \<Rightarrow> w_stack s ''serial_buf'');
     ret \<lparr>tx_number = column_int64 (row ! 0),
       tx_client_id = text 1 256, tx_external_id = text 2 256,
       tx_process_type = text 3 512, tx_process_data = text 4 4096, tx_state = text 5 32,
       tx_time_start = text 6 64, tx_time_end = text 7 64,
       tx_signature_counter = column_int64 (row ! 8), tx_signature_value = text 9 256,
       tx_serial_number = store_normalize_serial (Some serial_buf) 128\<rparr> }"

section \<open>Clients\<close>

definition store_register_client :: "'hw worm_api \<Rightarrow> 'db engine \<Rightarrow> string \<Rightarrow> ('db, 'hw, 'a, int) prog" where
  "store_register_client A E serial_number = do {
     s \<leftarrow> State_Monad.get;
     if w_active s then run_job (tse_worm_register_client A E serial_number) (-1)
     else do {
       now \<leftarrow> util_now_iso;
       r \<leftarrow> sql_run E (UpsertClient serial_number now);
       ret (if r = Done then 0 else -1) } }"

section \<open>Transactions\<close>

text \<open>An external id that is \<^verbatim>\<open>NULL\<close> or empty is stored as \<^verbatim>\<open>NULL\<close>.\<close>

definition external_or_null :: "string option \<Rightarrow> string option" where
  "external_or_null ext = (case ext of Some e \<Rightarrow> if e \<noteq> [] then Some e else None | None \<Rightarrow> None)"

definition record_transaction_open ::
  "'db engine \<Rightarrow> tse_transaction \<Rightarrow> string option \<Rightarrow> ('db, 'hw, 'a, unit) prog" where
  "record_transaction_open E tx ext = do {
     now \<leftarrow> util_now_iso;
     _ \<leftarrow> sql_run E (UpsertTransaction (tx_number tx) (tx_client_id tx) (external_or_null ext)
            (tx_process_type tx) [] now (tx_signature_counter tx) (tx_signature_value tx));
     ret () }"

definition record_transaction_finished :: "'db engine \<Rightarrow> int \<Rightarrow> ('db, 'hw, 'a, unit) prog" where
  "record_transaction_finished E number = do {
     now \<leftarrow> util_now_iso;
     _ \<leftarrow> sql_run E (FinishTransaction now number);
     ret () }"

text \<open>The rows of a query, in order; any other result is no row.\<close>

definition result_rows :: "sql_result \<Rightarrow> sql_value list list" where
  "result_rows r = (case r of Rows rows \<Rightarrow> rows | _ \<Rightarrow> [])"

definition store_list_open_transactions ::
  "'db engine \<Rightarrow> nat \<Rightarrow> ('db, 'hw, 'a, int \<times> tse_transaction list) prog" where
  "store_list_open_transactions E max_count = do {
     r \<leftarrow> sql_run E SelectOpenTransactions;
     if r = PrepareFailed then ret (-1, []) else do {
       txs \<leftarrow> State_Monad.traverse_list (load_transaction_row E) (take max_count (result_rows r));
       ret (0, txs) } }"

text \<open>The last step of a start and of a finish: read the row back into the caller's buffer.\<close>

definition read_back :: "'db engine \<Rightarrow> int \<Rightarrow> tse_transaction \<Rightarrow> ('db, 'hw, 'a, tse_transaction option) prog" where
  "read_back E number out0 = do {
     r \<leftarrow> sql_run E (SelectTransaction number);
     if r = PrepareFailed then ret None
     else (case result_rows r of
             [] \<Rightarrow> ret (Some out0)
           | row # _ \<Rightarrow> do { tx \<leftarrow> load_transaction_row E row; ret (Some tx) }) }"

text \<open>\<open>None\<close> is the -1, with the buffer as it was.\<close>

definition sim_start_transaction ::
  "'db engine \<Rightarrow> string \<Rightarrow> string \<Rightarrow> string \<Rightarrow> string option \<Rightarrow> tse_transaction \<Rightarrow>
   ('db, 'hw, 'a, tse_transaction option) prog" where
  "sim_start_transaction E client_id process_type process_data ext out0 = do {
     tx_num \<leftarrow> db_increment_counter E ''transaction_counter'';
     sig_counter \<leftarrow> db_increment_counter E ''signature_counter'';
     now \<leftarrow> util_now_iso;
     sig \<leftarrow> util_random_base64 128 32;
     (case sig of
        None \<Rightarrow> ret None
      | Some sg \<Rightarrow> do {
          r \<leftarrow> sql_run E (InsertTransaction tx_num client_id (external_or_null ext) process_type
                 process_data now sig_counter sg);
          if r \<noteq> Done then ret None else read_back E tx_num out0 }) }"

definition store_start_transaction ::
  "'hw worm_api \<Rightarrow> 'db engine \<Rightarrow> string \<Rightarrow> string \<Rightarrow> string \<Rightarrow> string option \<Rightarrow> tse_transaction \<Rightarrow>
   ('db, 'hw, 'a, tse_transaction option) prog" where
  "store_start_transaction A E client_id process_type process_data ext out0 = do {
     s \<leftarrow> State_Monad.get;
     if w_active s then do {
       r \<leftarrow> run_job (tse_worm_start_transaction A E client_id 256) (Inl []);
       (case r of
          Inl err \<Rightarrow> ret None
        | Inr tx \<Rightarrow> do {
            let tx' = (case external_or_null ext of Some e \<Rightarrow> tx\<lparr>tx_external_id := fit 256 e\<rparr> | None \<Rightarrow> tx);
            _ \<leftarrow> record_transaction_open E tx' ext;
            ret (Some tx') }) }
     else sim_start_transaction E client_id process_type process_data ext out0 }"

text \<open>An error is the pair of texts left for the caller.\<close>

definition no_transaction_error :: "nat \<Rightarrow> nat \<Rightarrow> string option \<times> string option" where
  "no_transaction_error code_len msg_len =
     (Some (take code_len ''ErrorNoTransaction''),
      Some (take msg_len ''No open transaction for this number''))"

text \<open>The rest of a finish, for a row that was read as active: a new signature and the update.\<close>

definition sim_close_transaction ::
  "'db engine \<Rightarrow> tse_transaction \<Rightarrow> int \<Rightarrow> string \<Rightarrow> string \<Rightarrow> tse_transaction \<Rightarrow>
   ('db, 'hw, 'a, (string option \<times> string option) + tse_transaction) prog" where
  "sim_close_transaction E existing number process_type process_data out0 = do {
     sig_counter \<leftarrow> db_increment_counter E ''signature_counter'';
     now \<leftarrow> util_now_iso;
     sig \<leftarrow> util_random_base64 128 32;
     (case sig of
        None \<Rightarrow> ret (Inl (None, None))
      | Some sg \<Rightarrow> do {
          u \<leftarrow> sql_run E (UpdateTransaction
                 (if process_type \<noteq> [] then process_type else tx_process_type existing)
                 (if process_data \<noteq> [] then process_data else tx_process_data existing)
                 now sig_counter sg number);
          if u \<noteq> Done then ret (Inl (None, None)) else do {
            out \<leftarrow> read_back E number out0;
            ret (case out of None \<Rightarrow> Inl (None, None) | Some tx \<Rightarrow> Inr tx) } }) }"

definition sim_finish_transaction ::
  "'db engine \<Rightarrow> int \<Rightarrow> string \<Rightarrow> string \<Rightarrow> tse_transaction \<Rightarrow> nat \<Rightarrow> nat \<Rightarrow>
   ('db, 'hw, 'a, (string option \<times> string option) + tse_transaction) prog" where
  "sim_finish_transaction E number process_type process_data out0 code_len msg_len = do {
     r \<leftarrow> sql_run E (SelectTransaction number);
     if r = PrepareFailed then ret (Inl (None, None))
     else (case result_rows r of
       [] \<Rightarrow> ret (Inl (no_transaction_error code_len msg_len))
     | row # _ \<Rightarrow> do {
         existing \<leftarrow> load_transaction_row E row;
         if tx_state existing \<noteq> ''ACTIVE'' then ret (Inl (no_transaction_error code_len msg_len))
         else sim_close_transaction E existing number process_type process_data out0 }) }"

definition store_finish_transaction ::
  "'hw worm_api \<Rightarrow> 'db engine \<Rightarrow> string \<Rightarrow> int \<Rightarrow> string \<Rightarrow> string \<Rightarrow> tse_transaction \<Rightarrow> nat \<Rightarrow> nat \<Rightarrow>
   ('db, 'hw, 'a, (string option \<times> string option) + tse_transaction) prog" where
  "store_finish_transaction A E client_id number process_type process_data out0 code_len msg_len = do {
     s \<leftarrow> State_Monad.get;
     if w_active s then do {
       r \<leftarrow> run_job (tse_worm_finish_transaction A E client_id number process_data code_len msg_len)
              (Inl (None, None));
       (case r of
          Inl err \<Rightarrow> ret (Inl err)
        | Inr tx \<Rightarrow> do { _ \<leftarrow> record_transaction_finished E number; ret (Inr tx) }) }
     else sim_finish_transaction E number process_type process_data out0 code_len msg_len }"

section \<open>Information\<close>

definition created_at_text :: "'db engine \<Rightarrow> tse_info \<Rightarrow> ('db, 'hw, 'a, string) prog" where
  "created_at_text E info = do {
     s \<leftarrow> State_Monad.get;
     if g_created_at s \<noteq> [] then ret (util_strlcpy (Some (g_created_at s)) 64)
     else do {
       v \<leftarrow> db_get_setting E ''created_at'' 64;
       ret (case v of Some c \<Rightarrow> c | None \<Rightarrow> in_created_at info) } }"

text \<open>\<open>buf\<close> keeps the last text read into it when a setting is missing, as in the code.\<close>

definition store_info :: "'hw worm_api \<Rightarrow> 'db engine \<Rightarrow> ('db, 'hw, 'a, tse_info) prog" where
  "store_info A E = do {
     s \<leftarrow> State_Monad.get;
     if w_active s then do {
       info \<leftarrow> run_job (tse_worm_fill_info A blank_info) blank_info;
       created \<leftarrow> created_at_text E info;
       ret (info\<lparr>in_fcc_version := util_strlcpy (Some (cfg_fcc_version (g_config s))) 64,
                in_db_path := util_strlcpy (Some (cfg_tse_device (g_config s))) 512,
                in_initialized := True, in_created_at := created\<rparr>) }
     else do {
       v1 \<leftarrow> db_get_setting E ''tse_serial'' 128;
       let buf1 = (case v1 of Some b \<Rightarrow> b | None \<Rightarrow> w_stack s ''buf'');
       v2 \<leftarrow> db_get_setting E ''signature_counter'' 128;
       let buf2 = (case v2 of Some b \<Rightarrow> b | None \<Rightarrow> buf1);
       v3 \<leftarrow> db_get_setting E ''transaction_counter'' 128;
       let buf3 = (case v3 of Some b \<Rightarrow> b | None \<Rightarrow> buf2);
       created \<leftarrow> created_at_text E blank_info;
       r \<leftarrow> sql_run E CountClients;
       ret (blank_info\<lparr>in_serial_number := store_normalize_serial (Some buf1) 128,
         in_signature_counter := atoll buf2, in_transaction_counter := atoll buf3,
         in_created_at := created,
         in_fcc_version := util_strlcpy (Some (cfg_fcc_version (g_config s))) 64,
         in_db_path := util_strlcpy (Some (cfg_db_path (g_config s))) 512,
         in_initialized := True,
         in_registered_clients := (case result_rows r of row # _ \<Rightarrow> column_int64 (row ! 0) | [] \<Rightarrow> 0),
         in_max_registered_clients := 100, in_max_started_transactions := 500\<rparr>) } }"

section \<open>What the operations leave alone\<close>

text \<open>A run that only used the database and the system, and left the journal as it was.\<close>

definition quiet :: "('db \<Rightarrow> tables) \<Rightarrow> ('db, 'a) dbs_scheme \<Rightarrow> ('db, 'a) dbs_scheme \<Rightarrow> bool" where
  "quiet view s t \<longleftrightarrow> (\<exists>d i j. t = s\<lparr>os_ticks := i, os_draws := j, db_conn := d\<rparr>)
     \<and> t_transactions (view (db_conn t)) = t_transactions (view (db_conn s))"

lemma quiet_refl [simp]: "quiet view s s"
  unfolding quiet_def
  by (intro conjI exI [where x = "db_conn s"] exI [where x = "os_ticks s"] exI [where x = "os_draws s"]) simp_all

lemma reflp_quiet [frame, simp]: "reflp (quiet view)"
  by (rule reflpI) simp

lemma transp_quiet [frame, simp]: "transp (quiet view)"
proof (rule transpI)
  fix s t u :: "('a, 'b) dbs_scheme"
  assume "quiet view s t" "quiet view t u"
  then obtain d i j d' i' j' where "t = s\<lparr>os_ticks := i, os_draws := j, db_conn := d\<rparr>"
    "u = t\<lparr>os_ticks := i', os_draws := j', db_conn := d'\<rparr>"
    "t_transactions (view (db_conn u)) = t_transactions (view (db_conn s))"
    by (auto simp: quiet_def)
  then show "quiet view s u"
    unfolding quiet_def by (intro conjI exI [of _ d'] exI [of _ i'] exI [of _ j']) auto
qed

lemma quiet_trans: "quiet view s t \<Longrightarrow> quiet view t u \<Longrightarrow> quiet view s u"
  by (rule transpD [OF transp_quiet])

lemma quietI: "t = s\<lparr>os_ticks := i, os_draws := j, db_conn := d\<rparr> \<Longrightarrow>
    t_transactions (view d) = t_transactions (view (db_conn s)) \<Longrightarrow> quiet view s t"
  unfolding quiet_def by auto

lemma quiet_os: "quiet view s (s\<lparr>os_ticks := i\<rparr>)" "quiet view s (s\<lparr>os_draws := i\<rparr>)"
  by (rule quietI [where i = i and j = "os_draws s" and d = "db_conn s"]; simp)
    (rule quietI [where i = "os_ticks s" and j = i and d = "db_conn s"]; simp)

lemma quiet_time [frame]: "state_io_rel (quiet view) time_now"
  by (simp add: state_io_rel_def quiet_os)

lemma quiet_now [frame]: "state_io_rel (quiet view) util_now_iso"
  by (simp add: state_io_rel_def quiet_os)

lemma quiet_random [frame]: "state_io_rel (quiet view) (util_random_base64 n k)"
  by (auto simp: state_io_rel_def util_random_base64_def quiet_os)

definition no_journal :: "sql \<Rightarrow> bool" where
  "no_journal q \<longleftrightarrow> (\<forall>t. t_transactions (fst (sql_exec t q)) = t_transactions t)"

lemma no_journal [simp]:
  "no_journal (SelectSetting k)" "no_journal (UpsertSetting k v)" "no_journal (SelectTransaction n)"
  "no_journal SelectOpenTransactions" "no_journal CountClients" "no_journal (UpsertClient c now)"
  by (simp_all add: no_journal_def)

context sqlite_engine begin

abbreviation tx_of :: "('db, 'x) dbs_scheme \<Rightarrow> (int \<times> tx_row) list" where
  "tx_of s \<equiv> t_transactions (view (db_conn s))"

text \<open>A statement under the atomic engine: failed without effect, or run as its text says.\<close>

lemma wp_sql:
  assumes "\<And>r d. sql_failed r \<Longrightarrow> view d = view (db_conn s) \<Longrightarrow> Q r (s\<lparr>db_conn := d\<rparr>)"
    and "\<And>r d. view d = fst (sql_exec (view (db_conn s)) q) \<Longrightarrow> r = snd (sql_exec (view (db_conn s)) q) \<Longrightarrow>
      Q r (s\<lparr>db_conn := d\<rparr>)"
  shows "wp (sql_run E q) Q s"
  using step_atomic [of "db_conn s" q] assms by (auto simp: wp_run) (metis fst_conv snd_conv)

lemma quiet_sql [frame]:
  assumes "no_journal q"
  shows "state_io_rel (quiet view) (sql_run E q)"
proof (rule io_wp, rule wp_sql)
  fix s :: "('db, 'x) dbs_scheme" and d
  show "view d = view (db_conn s) \<Longrightarrow> quiet view s (s\<lparr>db_conn := d\<rparr>)"
    by (rule quietI [where i = "os_ticks s" and j = "os_draws s" and d = d]) simp_all
  show "view d = fst (sql_exec (view (db_conn s)) q) \<Longrightarrow> quiet view s (s\<lparr>db_conn := d\<rparr>)"
    using assms by (intro quietI [where i = "os_ticks s" and j = "os_draws s" and d = d]) (simp_all add: no_journal_def)
qed

lemma quiet_get_setting [frame]: "state_io_rel (quiet view) (db_get_setting E k n)"
  unfolding db_get_setting_def by (intro frame) simp

lemma quiet_set_setting [frame]: "state_io_rel (quiet view) (db_set_setting E k v)"
  unfolding db_set_setting_def by (intro frame) simp

lemma quiet_increment [frame]: "state_io_rel (quiet view) (db_increment_counter E k)"
  unfolding db_increment_counter_def Let_def by (intro frame)

lemma quiet_load_row [frame]: "state_io_rel (quiet view) (load_transaction_row E row)"
  unfolding load_transaction_row_def Let_def by (intro frame)

lemma io_rows [frame]:
  "state_io_rel R m \<Longrightarrow> (\<And>row rows. state_io_rel R (f row rows)) \<Longrightarrow>
   state_io_rel R (case xs of [] \<Rightarrow> m | row # rows \<Rightarrow> f row rows)"
  by (auto split: list.split)

lemma quiet_read_back [frame]: "state_io_rel (quiet view) (read_back E n out0)"
  unfolding read_back_def by (intro frame) simp

end

end
