(* ===== verification/Tse_Response.thy ===== *)
theory Tse_Response
  imports Tse_Store Tse_Json
begin

text \<open>
  \<^verbatim>\<open>c/src/response.c\<close>: the JSON texts of the responses.  A builder gives what its buffer of
  \<open>outlen\<close> bytes holds afterwards: \<^verbatim>\<open>snprintf\<close> cuts a text that does not fit, and the callers
  send the cut text, because they ignore the -1.
\<close>

section \<open>Pieces of JSON text\<close>

text \<open>
  A field escaped into a buffer of \<open>n\<close> bytes.  When the escaped text does not fit the -1 is ignored
  and the buffer is used as it is: \<open>uninit\<close>.  \<open>escaped_fits\<close> below: the fields are bounded so that
  this does not happen.
\<close>

definition escaped :: "string \<Rightarrow> string \<Rightarrow> nat \<Rightarrow> string" where
  "escaped uninit text n = (case json_escape text n of Some e \<Rightarrow> e | None \<Rightarrow> uninit)"

definition quoted :: "string \<Rightarrow> string" where
  "quoted s = [DQ] @ s @ [DQ]"

text \<open>One member of an object, \<^verbatim>\<open>"key":"text"\<close>.\<close>

definition member_text :: "string \<Rightarrow> string \<Rightarrow> string" where
  "member_text key text = quoted key @ '':'' @ quoted text"

lemma escaped_fits: "2 * length t < n \<Longrightarrow> escaped uninit t n = esc_text t"
  using length_esc_text [of t] by (simp add: escaped_def json_escape_eq)

section \<open>The algorithm of a public key\<close>

text \<open>
  The bytes of the key that are copied to the 256-byte buffer \<^verbatim>\<open>raw\<close>; only their number matters.
  A Base64 text is decoded into a buffer of 512 first, so a longer key would be copied past \<^verbatim>\<open>raw\<close>:
  \<open>public_key_fits\<close> shows that no key the program holds, in buffers of 256, is that long.
\<close>

definition public_key_bytes :: "string \<Rightarrow> nat" where
  "public_key_bytes pubkey =
     (if util_is_hex_serial pubkey
      then (if even (length pubkey) \<and> length pubkey div 2 \<le> 256 then length pubkey div 2 else 0)
      else case util_base64_decode pubkey 512 of None \<Rightarrow> 0 | Some bs \<Rightarrow> length bs)"

definition algorithm_for_public_key :: "string \<Rightarrow> string" where
  "algorithm_for_public_key pubkey =
     (if pubkey = [] then ''ecdsa-plain-SHA256''
      else if public_key_bytes pubkey = 97 then ''ecdsa-plain-SHA384''
      else if public_key_bytes pubkey = 133 then ''ecdsa-plain-SHA512''
      else ''ecdsa-plain-SHA256'')"

lemma b64_decode_loop_length:
  "b64_decode_loop outlen cs buf bits out = Some bs \<Longrightarrow> bits < 8 \<Longrightarrow>
   8 * length bs \<le> 8 * length out + bits + 6 * length cs"
proof (induction outlen cs buf bits out rule: b64_decode_loop.induct)
  case (2 outlen c cs buf bits out)
  then show ?case by (fastforce simp: Let_def split: if_splits)
qed (auto split: if_splits)

lemma public_key_fits: "length pubkey < 256 \<Longrightarrow> public_key_bytes pubkey \<le> 256"
  using b64_decode_loop_length [of 512 pubkey 0 0 "[]"]
  by (fastforce simp: public_key_bytes_def util_base64_decode_def split: option.splits)

section \<open>The builders\<close>

definition response_start_transaction_json :: "tse_transaction \<Rightarrow> nat \<Rightarrow> ('db, 'hw, 'a, string) prog" where
  "response_start_transaction_json tx outlen = do {
     let serial = store_normalize_serial (Some (tx_serial_number tx)) 128;
     log_time \<leftarrow> util_fcc_log_time (tx_time_start tx) 64;
     ret (fit outlen (''{'' @ member_text ''transactionNumber'' (show_int (tx_number tx)) @ '','' @
       member_text ''signatureCounter'' (show_int (tx_signature_counter tx)) @ '','' @
       member_text ''signatureValue'' (tx_signature_value tx) @ '','' @ member_text ''logTime'' log_time @ '','' @
       member_text ''serialNumber'' serial @ ''}'')) }"

definition response_finish_transaction_json :: "tse_transaction \<Rightarrow> nat \<Rightarrow> ('db, 'hw, 'a, string) prog" where
  "response_finish_transaction_json tx outlen = do {
     log_time \<leftarrow> util_fcc_log_time (if tx_time_end tx \<noteq> [] then tx_time_end tx else tx_time_start tx) 64;
     s \<leftarrow> State_Monad.get;
     ret (fit outlen (''{'' @ member_text ''signatureCounter'' (show_int (tx_signature_counter tx)) @ '','' @
       member_text ''signatureValue'' (tx_signature_value tx) @ '','' @ member_text ''logTime'' log_time @ '','' @
       member_text ''processType'' (escaped (w_stack s ''esc_ptype'') (tx_process_type tx) 1024) @ ''}'')) }"

definition open_transaction_json :: "tse_transaction \<Rightarrow> ('db, 'hw, 'a, string) prog" where
  "open_transaction_json tx = do {
     log_time \<leftarrow> util_fcc_log_time (tx_time_start tx) 64;
     s \<leftarrow> State_Monad.get;
     ret (''{'' @ member_text ''transactionNumber'' (show_int (tx_number tx)) @ '','' @
       member_text ''clientId'' (escaped (w_stack s ''esc_client'') (tx_client_id tx) 512) @ '','' @
       member_text ''externalTransactionId'' (escaped (w_stack s ''esc_ext'') (tx_external_id tx) 512) @ '','' @
       member_text ''processType'' (escaped (w_stack s ''esc_ptype'') (tx_process_type tx) 1024) @ '','' @
       member_text ''startTime'' log_time @ ''}'') }"

text \<open>
  One \<^verbatim>\<open>snprintf\<close> of the list: \<open>Inl\<close> is the early return with the buffer cut, \<open>Inr\<close> the text so far.
\<close>

definition append_text :: "nat \<Rightarrow> string \<Rightarrow> string \<Rightarrow> string + string" where
  "append_text outlen out text =
     (if outlen - length out \<le> length text then Inl (out @ fit (outlen - length out) text) else Inr (out @ text))"

fun append_transactions :: "nat \<Rightarrow> bool \<Rightarrow> tse_transaction list \<Rightarrow> string \<Rightarrow> ('db, 'hw, 'a, string + string) prog" where
  "append_transactions outlen first [] out = ret (Inr out)"
| "append_transactions outlen first (tx # txs) out = do {
     text \<leftarrow> open_transaction_json tx;
     (case append_text outlen out ((if first then [] else '','') @ text) of
        Inl full \<Rightarrow> ret (Inl full)
      | Inr out' \<Rightarrow> append_transactions outlen False txs out') }"

definition response_open_transactions_json :: "tse_transaction list \<Rightarrow> nat \<Rightarrow> ('db, 'hw, 'a, string) prog" where
  "response_open_transactions_json txs outlen =
     (case append_text outlen [] (''{'' @ quoted ''openTransactions'' @ '':['') of
        Inl full \<Rightarrow> ret full
      | Inr out \<Rightarrow> do {
          r \<leftarrow> append_transactions outlen True txs out;
          ret (case r of
             Inl full \<Rightarrow> full
           | Inr out2 \<Rightarrow> (case append_text outlen out2 ('']'' @ '','' @ quoted ''count'' @ '':'' @ show_nat (length txs) @ ''}'') of
               Inl full \<Rightarrow> full | Inr out3 \<Rightarrow> out3)) })"

definition response_tss_details_json :: "'hw worm_api \<Rightarrow> string \<Rightarrow> nat \<Rightarrow> ('db, 'hw, 'a, string) prog" where
  "response_tss_details_json A serial outlen = do {
     s \<leftarrow> State_Monad.get;
     let norm = store_normalize_serial (Some serial) 128;
     let pubkey = (case (if w_active s then tse_worm_public_key_b64 s else None) of
                     Some k \<Rightarrow> k
                   | None \<Rightarrow> if cfg_tse_public_key_b64 (g_config s) \<noteq> [] then cfg_tse_public_key_b64 (g_config s)
                            else if w_active s then tse_worm_public_key_hex s else norm);
     let cert = (case (if w_active s then tse_worm_certificate_base64 s else None) of
                   Some c \<Rightarrow> c
                 | None \<Rightarrow> if cfg_leaf_certificate (g_config s) \<noteq> [] then cfg_leaf_certificate (g_config s)
                          else if w_active s then ''HARDWARE'' else ''SIMULATOR'');
     signing \<leftarrow> (if w_active s then tse_worm_log_time_format A else ret ''utcTime'');
     ret (fit outlen (''{'' @ member_text ''serial'' norm @ '','' @
         member_text ''timeFormat'' (''yyyy-MM-dd'' @ [CHR 0x27] @ ''T'' @ [CHR 0x27] @ ''HH:mm:ssX'') @ '','' @
         member_text ''encoding'' ''UTF-8'' @ '','' @ member_text ''publicKey'' pubkey @ '','' @
         member_text ''algorithm'' (algorithm_for_public_key pubkey) @ '','' @ member_text ''signingTimeFormat'' signing @ '','' @
         member_text ''leafCertificate'' cert @ ''}'')) }"

definition response_info_json :: "int \<Rightarrow> int \<Rightarrow> int \<Rightarrow> int \<Rightarrow> nat \<Rightarrow> string" where
  "response_info_json registered_clients max_registered_clients transaction_counter max_started outlen =
     fit outlen (''{'' @ member_text ''maxNumberClients'' (show_int max_registered_clients) @ '','' @
       member_text ''maxNumberTransactions'' (show_int max_started) @ '','' @
       member_text ''currentNumberOfTransactions'' (show_int transaction_counter) @ '','' @
       member_text ''registeredClients'' (show_int registered_clients) @ ''}'')"

definition response_health_json :: "config \<Rightarrow> tse_info \<Rightarrow> nat \<Rightarrow> string" where
  "response_health_json cfg info outlen =
     fit outlen (''{'' @ member_text ''status'' ''ok'' @ '','' @ member_text ''service'' ''cloudtse'' @ '','' @
       member_text ''version'' (cfg_fcc_version cfg) @ '','' @
       member_text ''serialNumber'' (in_serial_number info) @ '','' @
       quoted ''registeredClients'' @ '':'' @ show_int (in_registered_clients info) @ '','' @
       quoted ''initialized'' @ '':true,'' @ member_text ''createdAt'' (in_created_at info) @ '','' @
       member_text ''fccVersion'' (in_fcc_version info) @ '','' @
       member_text ''hardwareVersion'' (in_hardware_version info) @ '','' @
       member_text ''firmwareVersion'' (in_firmware_version info) @ '','' @
       member_text ''wormApiVersion'' (in_worm_api_version info) @ ''}'')"

definition response_oauth_json :: "string \<Rightarrow> nat \<Rightarrow> string" where
  "response_oauth_json access_token outlen =
     fit outlen (''{'' @ member_text ''access_token'' access_token @ '','' @
       member_text ''token_type'' ''Bearer'' @ '','' @ quoted ''expires_in'' @ '':86400,'' @
       member_text ''scope'' ''tse'' @ ''}'')"

definition response_error_json :: "string \<Rightarrow> string \<Rightarrow> string \<Rightarrow> nat \<Rightarrow> string" where
  "response_error_json uninit error description outlen =
     (let esc = escaped uninit description 512 in
      fit outlen (''{'' @ member_text ''error'' error @ '','' @
        member_text ''error_description'' esc @ '','' @ member_text ''message'' esc @ ''}''))"

definition response_tx_error_json :: "string \<Rightarrow> string \<Rightarrow> string \<Rightarrow> nat \<Rightarrow> string" where
  "response_tx_error_json uninit code message outlen =
     fit outlen (''{'' @ member_text ''code'' code @ '','' @
       member_text ''message'' (escaped uninit message 512) @ ''}'')"

definition response_not_found_json :: "string \<Rightarrow> string \<Rightarrow> string \<Rightarrow> nat \<Rightarrow> string" where
  "response_not_found_json uninit meth path outlen =
     (let msg = fit 256 (''No handler for '' @ meth @ '' '' @ path) in
      fit outlen (''{'' @ member_text ''error'' ''not_found'' @ '','' @
        member_text ''message'' (escaped uninit msg 512) @ ''}''))"

end
