(* ===== verification/Tse_Http.thy ===== *)
theory Tse_Http
  imports Tse_Util
begin

text \<open>
  \<^verbatim>\<open>c/src/http.c\<close> without its sockets: finding the end of a request in the bytes received, parsing
  it, and the bytes of a response.  The connection loop is in \<open>Tse_Conn\<close>.

  A buffer is the list of its bytes; \<open>received\<close> of them are received data and the rest is what the
  memory held before, which a scan for a terminator can reach.
\<close>

section \<open>Requests and responses\<close>

record http_request =
  rq_method :: string
  rq_path :: string
  rq_http_minor :: int
  rq_headers :: "(string \<times> string) list"
  rq_body :: string
  rq_body_len :: nat

definition blank_request :: http_request where
  "blank_request = \<lparr>rq_method = [], rq_path = [], rq_http_minor = 0, rq_headers = [], rq_body = [], rq_body_len = 0\<rparr>"

definition HTTP_MAX_HEADERS :: nat where "HTTP_MAX_HEADERS = 32"
definition HTTP_HEADER_NAME_LEN :: nat where "HTTP_HEADER_NAME_LEN = 64"
definition HTTP_HEADER_VALUE_LEN :: nat where "HTTP_HEADER_VALUE_LEN = 2048"
definition HTTP_MAX_BODY :: nat where "HTTP_MAX_BODY = 65536"
definition HTTP_MAX_PATH :: nat where "HTTP_MAX_PATH = 512"

lemmas http_limits = HTTP_MAX_HEADERS_def HTTP_HEADER_NAME_LEN_def HTTP_HEADER_VALUE_LEN_def
  HTTP_MAX_BODY_def HTTP_MAX_PATH_def

section \<open>Where a request ends\<close>

fun find_header_end :: "string \<Rightarrow> nat option" where
  "find_header_end [] = None"
| "find_header_end (c # s) =
     (if prefix (CRLF @ CRLF) (c # s) then Some 0 else map_option Suc (find_header_end s))"

definition skip_spaces :: "string \<Rightarrow> string" where
  "skip_spaces s = dropWhile (\<lambda>c. c = CHR '' '') s"

definition header_has_chunked :: "string \<Rightarrow> nat \<Rightarrow> bool" where
  "header_has_chunked buf hdr_end \<longleftrightarrow> list_ex (\<lambda>p.
     prefix_nocase ''Transfer-Encoding:'' (drop p buf) \<and>
     prefix_nocase ''chunked'' (skip_spaces (drop (p + 18) buf))) [0..<hdr_end]"

definition chunked_body_complete :: "string \<Rightarrow> nat \<Rightarrow> nat \<Rightarrow> bool" where
  "chunked_body_complete buf received hdr_len =
     (let body = drop hdr_len (take received buf); body_len = received - hdr_len
      in if body_len < 5 then False
         else list_ex (\<lambda>i. prefix (''0'' @ CRLF @ CRLF) (drop i body)) [0..<body_len - 4])"

text \<open>The first \<^verbatim>\<open>Content-Length:\<close> anywhere in the header, converted to \<^verbatim>\<open>size_t\<close>.\<close>

definition content_length :: "string \<Rightarrow> nat \<Rightarrow> nat option" where
  "content_length buf hdr_end =
     map_option (\<lambda>p. to_size (atoi (skip_spaces (drop (p + 15) buf))))
       (find (\<lambda>p. prefix_nocase ''Content-Length:'' (drop p buf)) [0..<hdr_end])"

text \<open>The length of the first request, when it is all there.\<close>

definition request_complete :: "string \<Rightarrow> nat \<Rightarrow> nat option" where
  "request_complete buf received =
     (case find_header_end (take received buf) of None \<Rightarrow> None
      | Some hdr_end \<Rightarrow>
          let hdr_len = hdr_end + 4 in
          case content_length buf hdr_end of
            Some content_len \<Rightarrow>
              let msg_len = size_add hdr_len content_len in if msg_len \<le> received then Some msg_len else None
          | None \<Rightarrow>
              if header_has_chunked buf hdr_end
              then if chunked_body_complete buf received hdr_len then Some received else None
              else if hdr_len \<le> received then Some hdr_len else None)"

section \<open>Parsing\<close>

text \<open>\<^verbatim>\<open>%Ns\<close> of \<^verbatim>\<open>sscanf\<close>: at most \<open>n\<close> characters of the next word.\<close>

definition scan_word :: "nat \<Rightarrow> string \<Rightarrow> (string \<times> string) option" where
  "scan_word n s = (let t = dropWhile is_space s; w = take n (takeWhile (\<lambda>c. \<not> is_space c) t)
     in if w = [] then None else Some (w, drop (length w) t))"

text \<open>\<^verbatim>\<open>sscanf(version, "HTTP/%*d.%d", ...)\<close>, with 1 when it does not match.\<close>

definition http_minor :: "string \<Rightarrow> int" where
  "http_minor version =
     (if prefix ''HTTP/'' version then
        (case read_int (drop 5 version) of
           Some (_, CHR ''.'' # rest) \<Rightarrow> (case read_int rest of Some (m, _) \<Rightarrow> m | None \<Rightarrow> 1)
         | _ \<Rightarrow> 1)
      else 1)"

definition header_line :: "string \<Rightarrow> (string \<times> string) option" where
  "header_line line = map_option (\<lambda>(name, val).
     (fit HTTP_HEADER_NAME_LEN name, fit HTTP_HEADER_VALUE_LEN (skip_spaces val))) (split_at CHR '':'' line)"

definition http_get_header :: "http_request \<Rightarrow> string \<Rightarrow> string option" where
  "http_get_header req name = map_option snd (find (\<lambda>h. eq_nocase (fst h) name) (rq_headers req))"

text \<open>\<^verbatim>\<open>strtoul(s, NULL, 16)\<close> on a 64-bit \<^verbatim>\<open>unsigned long\<close>: blanks, a sign, \<^verbatim>\<open>0x\<close>, digits.\<close>

definition xdigit_value :: "char \<Rightarrow> nat" where
  "xdigit_value c = (let n = char_code c in if n \<le> 57 then n - 48 else if n \<le> 70 then n - 55 else n - 87)"

definition hex_value :: "string \<Rightarrow> nat" where
  "hex_value ds = foldl (\<lambda>a c. 16 * a + xdigit_value c) 0 ds"

definition skip_sign :: "string \<Rightarrow> string" where
  "skip_sign t = (if t \<noteq> [] \<and> (hd t = CHR ''-'' \<or> hd t = CHR ''+'') then tl t else t)"

definition skip_0x :: "string \<Rightarrow> string" where
  "skip_0x u = (if prefix_nocase ''0x'' u \<and> drop 2 u \<noteq> [] \<and> is_xdigit (u ! 2) then drop 2 u else u)"

definition strtoul16 :: "string \<Rightarrow> nat" where
  "strtoul16 s =
     (let t = dropWhile is_space s;
          n = min (hex_value (takeWhile is_xdigit (skip_0x (skip_sign t)))) (2 ^ 64 - 1)
      in if t \<noteq> [] \<and> hd t = CHR ''-'' then (2 ^ 64 - n) mod 2 ^ 64 else n)"

text \<open>The index of the first CRLF.\<close>

fun crlf_index :: "string \<Rightarrow> nat option" where
  "crlf_index [] = None"
| "crlf_index (c # s) = (if prefix CRLF (c # s) then Some 0 else map_option Suc (crlf_index s))"

lemma crlf_index_bound: "crlf_index s = Some i \<Longrightarrow> i + 1 < length s"
  by (induction s arbitrary: i) (auto split: if_splits)

text \<open>
  The loop of \<^verbatim>\<open>decode_chunked_body\<close>, at \<open>pos\<close> with \<open>out\<close> written so far.  Both bounds are
  checked on wrapping sums; \<open>None\<close> is the \<^verbatim>\<open>memcpy\<close> that reads or writes past its buffer.
\<close>

function decode_chunks :: "string \<Rightarrow> nat \<Rightarrow> string \<Rightarrow> nat \<Rightarrow> string option" where
  "decode_chunks raw pos out outlen =
     (if length raw \<le> pos then Some out
      else case crlf_index (drop pos raw) of None \<Rightarrow> Some out
      | Some size_len \<Rightarrow>
          if size_len = 0 \<or> 16 \<le> size_len then Some out else
          let chunk_size = strtoul16 (c_str (take size_len (drop pos raw)));
              pos1 = pos + size_len + 2
          in if chunk_size = 0 \<or> length raw < size_add pos1 chunk_size
                \<or> outlen \<le> size_add (length out) chunk_size then Some out
             else if length raw < pos1 + chunk_size \<or> outlen < length out + chunk_size then None
             else let pos2 = pos1 + chunk_size
                  in decode_chunks raw (if prefix CRLF (drop pos2 raw) then pos2 + 2 else pos2)
                       (out @ take chunk_size (drop pos1 raw)) outlen)"
  by pat_completeness auto
termination
  by (relation "measure (\<lambda>(raw, pos, out, outlen). length raw - pos)") (auto split: if_splits)

declare decode_chunks.simps [simp del]

definition decode_chunked_body :: "string \<Rightarrow> nat \<Rightarrow> nat \<Rightarrow> string option" where
  "decode_chunked_body raw body_off outlen = decode_chunks raw body_off [] outlen"

text \<open>A parsed request, a refused one (the -1), or a run that left its buffers.\<close>

datatype 'a parsed = Parsed 'a | Refused | Overrun

text \<open>\<open>uninit\<close> is what the buffer \<^verbatim>\<open>version\<close> holds when the request line has no third word.\<close>

definition http_parse_request :: "string \<Rightarrow> string \<Rightarrow> http_request parsed" where
  "http_parse_request uninit raw =
     (case find_header_end raw of None \<Rightarrow> Refused
      | Some hdr_end \<Rightarrow>
          (case tokens (\<lambda>c. c = CR \<or> c = LF) (c_str (take (min hdr_end 1023) raw)) of
             [] \<Rightarrow> Refused
           | line # rest \<Rightarrow>
               (case scan_word 15 line of None \<Rightarrow> Refused
                | Some (meth, r1) \<Rightarrow>
                    (case scan_word 511 r1 of None \<Rightarrow> Refused
                     | Some (path, r2) \<Rightarrow>
                         let version = (case scan_word 15 r2 of Some (v, _) \<Rightarrow> v | None \<Rightarrow> uninit);
                             req = blank_request\<lparr>rq_method := fit 16 meth, rq_path := fit HTTP_MAX_PATH path,
                               rq_http_minor := http_minor version,
                               rq_headers := take HTTP_MAX_HEADERS (List.map_filter header_line rest)\<rparr>;
                             body_off = hdr_end + 4
                         in if length raw \<le> body_off then Parsed req
                            else if header_has_chunked raw hdr_end then
                              (case decode_chunked_body raw body_off HTTP_MAX_BODY of
                                 None \<Rightarrow> Overrun
                               | Some body \<Rightarrow> Parsed (req\<lparr>rq_body := body, rq_body_len := length body\<rparr>))
                            else let body = take (HTTP_MAX_BODY - 1) (drop body_off raw)
                                 in Parsed (req\<lparr>rq_body := body, rq_body_len := length body\<rparr>)))))"

text \<open>
  \<^verbatim>\<open>http_parse_body\<close>: the body as the handlers see it.  The copy of the content type is not
  terminated when it is 127 characters or longer: \<open>uninit\<close> is what follows it in memory.
\<close>

definition http_parse_body :: "string \<Rightarrow> string \<Rightarrow> string \<Rightarrow> nat \<Rightarrow> string" where
  "http_parse_body uninit raw content_type json_outlen =
     (let body = c_str raw;
          ct = map to_lower (take 127 content_type @ (if 127 \<le> length content_type then uninit else []))
      in if body = [] then []
         else if str_str ct ''application/json'' \<noteq> None then fit json_outlen body
         else if str_str ct ''application/x-www-form-urlencoded'' \<noteq> None then ''{''
         else fit json_outlen body)"

definition http_normalize_path :: "string \<Rightarrow> nat \<Rightarrow> string" where
  "http_normalize_path url_path outlen =
     (let path = take (outlen - 1) (takeWhile (\<lambda>c. c \<noteq> CHR ''?'') url_path);
          kept = rev (dropWhile (\<lambda>c. c = CHR ''/'') (rev path));
          out = (if kept = [] then take 1 path else kept)
      in if out = [] then ''/'' else out)"

text \<open>The decoded bytes of a Base64 text as a C string.\<close>

definition text_of_bytes :: "u8 list \<Rightarrow> string" where
  "text_of_bytes bs = map (\<lambda>b. char_of (unat b)) bs"

definition http_parse_basic_auth :: "http_request \<Rightarrow> nat \<Rightarrow> nat \<Rightarrow> (string \<times> string) option" where
  "http_parse_basic_auth req id_len secret_len =
     (case http_get_header req ''Authorization'' of None \<Rightarrow> None
      | Some auth \<Rightarrow>
          if \<not> prefix_nocase ''Basic '' auth then None
          else (case util_base64_decode (drop 6 auth) 512 of None \<Rightarrow> None
            | Some bs \<Rightarrow>
                let decoded = c_str (text_of_bytes bs) in
                (case split_at CHR '':'' decoded of
                   None \<Rightarrow> Some (fit id_len decoded, [])
                 | Some (client, secret) \<Rightarrow> Some (fit id_len client, fit secret_len secret))))"

definition http_parse_bearer :: "http_request \<Rightarrow> nat \<Rightarrow> string option" where
  "http_parse_bearer req token_len =
     (case http_get_header req ''Authorization'' of None \<Rightarrow> None
      | Some auth \<Rightarrow>
          if \<not> prefix_nocase ''Bearer '' auth then None
          else let token = fit token_len (skip_spaces (drop 7 auth)) in if token = [] then None else Some token)"

definition should_keep_alive :: "http_request \<Rightarrow> bool" where
  "should_keep_alive req =
     (case http_get_header req ''Connection'' of
        Some conn \<Rightarrow> if eq_nocase conn ''close'' then False
          else if eq_nocase conn ''keep-alive'' then True else 1 \<le> rq_http_minor req
      | None \<Rightarrow> 1 \<le> rq_http_minor req)"

section \<open>Responses\<close>

record http_response =
  rs_status :: int
  rs_body :: string
  rs_body_len :: nat
  rs_no_body :: bool
  rs_stream :: bool
  rs_stream_content_type :: string

definition blank_response :: http_response where
  "blank_response = \<lparr>rs_status = 0, rs_body = [], rs_body_len = 0, rs_no_body = False, rs_stream = False,
     rs_stream_content_type = []\<rparr>"

definition status_text :: "int \<Rightarrow> string" where
  "status_text status = (if status = 400 then ''Bad Request'' else if status = 401 then ''Unauthorized''
     else if status = 404 then ''Not Found'' else if status = 500 then ''Internal Server Error'' else ''OK'')"

definition cors_headers :: string where
  "cors_headers = ''Access-Control-Allow-Origin: *'' @ CRLF @
     ''Access-Control-Allow-Methods: GET, POST, PUT, PATCH, DELETE, OPTIONS'' @ CRLF @
     ''Access-Control-Allow-Headers: Content-Type, Authorization'' @ CRLF"

definition response_header :: "http_response \<Rightarrow> bool \<Rightarrow> string" where
  "response_header res keep_alive =
     (let connection = (if keep_alive then ''keep-alive'' else ''close'') in
      if rs_no_body res then
        ''HTTP/1.1 '' @ show_int (rs_status res) @ '' No Content'' @ CRLF @ cors_headers @
        ''Connection: '' @ connection @ CRLF @ CRLF
      else if rs_stream res then
        ''HTTP/1.1 200 OK'' @ CRLF @ ''Content-Type: '' @
        (if rs_stream_content_type res \<noteq> [] then rs_stream_content_type res
         else ''text/plain; charset=utf-8'') @ CRLF @ cors_headers @ ''Connection: close'' @ CRLF @ CRLF
      else
        ''HTTP/1.1 '' @ show_int (rs_status res) @ '' '' @ status_text (rs_status res) @ CRLF @
        ''Content-Type: application/json; charset=utf-8'' @ CRLF @
        ''Content-Length: '' @ show_nat (rs_body_len res) @ CRLF @ cors_headers @
        ''Connection: '' @ connection @ CRLF @ CRLF)"

text \<open>
  The blocks handed to \<^verbatim>\<open>http_write_all\<close>, in order: one when header and body fit the combined
  buffer.  The body of a stream is written by its own function.
\<close>

definition response_writes :: "http_response \<Rightarrow> bool \<Rightarrow> string list" where
  "response_writes res keep_alive =
     (let header = response_header res keep_alive; body = take (rs_body_len res) (rs_body res) in
      if rs_no_body res \<or> rs_stream res then [header]
      else if length header + rs_body_len res \<le> HTTP_MAX_BODY + 2048 then [header @ body]
      else if 0 < rs_body_len res then [header, body] else [header])"

text \<open>\<^verbatim>\<open>http_send_json\<close>.\<close>

definition json_response :: "int \<Rightarrow> string \<Rightarrow> http_response" where
  "json_response status json = blank_response\<lparr>rs_status := status, rs_body_len := length json,
     rs_body := fit HTTP_MAX_BODY json\<rparr>"

end
