(* ===== verification/Tse_Handlers.thy ===== *)
theory Tse_Handlers
  imports Tse_Response Tse_Http
begin

text \<open>
  \<^verbatim>\<open>c/src/handlers.c\<close>: authorisation, the handlers of the REST interface and the routing.  The
  log output (\<^verbatim>\<open>log_request\<close>, \<^verbatim>\<open>log_response\<close>) is left out.

  A handler that fills in the zeroed response it is given is a program that returns the response.
  An automatic buffer that a path leaves unwritten holds what \<open>w_stack\<close> gives under its name.
\<close>

section \<open>Responses of a handler\<close>

definition set_json_response :: "http_response \<Rightarrow> int \<Rightarrow> string \<Rightarrow> http_response" where
  "set_json_response res status json = (let body = fit HTTP_MAX_BODY json in
     res\<lparr>rs_status := status, rs_no_body := False, rs_body := body, rs_body_len := length body\<rparr>)"

text \<open>A handler's answer with a JSON text, and with an error text built in a buffer of 256 bytes.\<close>

definition reply :: "int \<Rightarrow> string \<Rightarrow> ('db, 'hw, 'a, http_response) prog" where
  "reply status json = ret (set_json_response blank_response status json)"

definition reply_error :: "int \<Rightarrow> string \<Rightarrow> string \<Rightarrow> nat \<Rightarrow> ('db, 'hw, 'a, http_response) prog" where
  "reply_error status error description outlen = do {
     s \<leftarrow> State_Monad.get;
     reply status (response_error_json (w_stack s ''esc'') error description outlen) }"

section \<open>Authorisation\<close>

definition get_bearer_client :: "'db engine \<Rightarrow> http_request \<Rightarrow> nat \<Rightarrow> ('db, 'hw, 'a, string option) prog" where
  "get_bearer_client E req outlen =
     (case http_parse_bearer req 128 of
        None \<Rightarrow> ret None
      | Some token \<Rightarrow> db_load_oauth_token E token outlen)"

text \<open>\<open>None\<close> lets the request pass; otherwise the response to send.\<close>

definition validate_bearer :: "'db engine \<Rightarrow> http_request \<Rightarrow> ('db, 'hw, 'a, http_response option) prog" where
  "validate_bearer E req = do {
     client \<leftarrow> get_bearer_client E req 256;
     (case client of
        Some serial \<Rightarrow> ret None
      | None \<Rightarrow> do {
          res \<leftarrow> reply_error 401 ''unauthorized'' ''Invalid or missing Bearer token'' 256;
          ret (Some res) }) }"

text \<open>What every protected handler does first.\<close>

definition with_bearer ::
  "'db engine \<Rightarrow> http_request \<Rightarrow> ('db, 'hw, 'a, http_response) prog \<Rightarrow> ('db, 'hw, 'a, http_response) prog" where
  "with_bearer E req handler = do {
     refused \<leftarrow> validate_bearer E req;
     (case refused of Some res \<Rightarrow> ret res | None \<Rightarrow> handler) }"

section \<open>Tokens\<close>

definition eas_ok :: "config \<Rightarrow> string \<Rightarrow> bool" where
  "eas_ok cfg secret \<longleftrightarrow> cfg_eas_code cfg = ''*'' \<or> secret = cfg_eas_code cfg"

definition issue_token :: "'hw worm_api \<Rightarrow> 'db engine \<Rightarrow> string \<Rightarrow> ('db, 'hw, 'a, http_response) prog" where
  "issue_token A E client_serial = do {
     _ \<leftarrow> (if client_serial \<noteq> ''unknown'' then store_register_client A E client_serial else ret 0);
     token \<leftarrow> util_random_hex 64 24;
     (case token of
        None \<Rightarrow> reply_error 500 ''internal_error'' ''token generation failed'' 256
      | Some t \<Rightarrow> do {
          _ \<leftarrow> db_save_oauth_token E t (Some client_serial) 86400;
          reply 200 (response_oauth_json t 256) }) }"

definition handle_oauth :: "'hw worm_api \<Rightarrow> 'db engine \<Rightarrow> http_request \<Rightarrow> ('db, 'hw, 'a, http_response) prog" where
  "handle_oauth A E req = do {
     s \<leftarrow> State_Monad.get;
     (case http_parse_basic_auth req 256 256 of
        None \<Rightarrow> reply_error 401 ''unauthorized'' ''Missing Authorization: Basic header'' 256
      | Some (client_id, client_secret) \<Rightarrow>
          if \<not> eas_ok (g_config s) client_secret then
            reply_error 401 ''unauthorized'' (fit 128 (''Invalid EAS code (got: '' @
              (if client_secret \<noteq> [] then ''[present]'' else ''[missing]'') @ '')'')) 256
          else
            let client_serial = (if client_id \<noteq> [] then client_id else ''unknown'') in
            if \<not> config_is_client_allowed (g_config s) (Some client_serial) then
              reply_error 401 ''unauthorized'' ''Client is not authorized to register'' 256
            else issue_token A E client_serial) }"

section \<open>Fields of a request\<close>

text \<open>
  The body is read as a C string.  \<open>body_field\<close> is the text left in a field's buffer, which the
  handler has set to the empty string before.
\<close>

definition pick_body_field :: "http_request \<Rightarrow> string \<Rightarrow> nat \<Rightarrow> string option" where
  "pick_body_field req key buflen =
     (case json_get_string (c_str (rq_body req)) key buflen of
        Some v \<Rightarrow> if v \<noteq> [] then Some v else None
      | None \<Rightarrow> None)"

definition body_field :: "http_request \<Rightarrow> string \<Rightarrow> nat \<Rightarrow> string" where
  "body_field req key buflen = (case pick_body_field req key buflen of Some v \<Rightarrow> v | None \<Rightarrow> [])"

definition resolve_client_id :: "'db engine \<Rightarrow> http_request \<Rightarrow> nat \<Rightarrow> ('db, 'hw, 'a, string) prog" where
  "resolve_client_id E req outlen =
     (case pick_body_field req ''clientId'' 256 of
        Some tmp \<Rightarrow> ret (util_trim (fit outlen tmp))
      | None \<Rightarrow> do {
          client \<leftarrow> get_bearer_client E req 256;
          ret (case client of
                 Some tmp \<Rightarrow> if tmp \<noteq> [] then util_trim (fit outlen tmp) else fit outlen ''default''
               | None \<Rightarrow> fit outlen ''default'') })"

section \<open>Transactions\<close>

text \<open>An uninitialised \<^verbatim>\<open>tse_transaction_t\<close>; its numbers are written as their decimal text.\<close>

definition stack_transaction :: "(string \<Rightarrow> string) \<Rightarrow> tse_transaction" where
  "stack_transaction stack = \<lparr>tx_number = atoll (stack ''tx.transaction_number''),
     tx_client_id = fit 256 (stack ''tx.client_id''), tx_external_id = fit 256 (stack ''tx.external_transaction_id''),
     tx_process_type = fit 512 (stack ''tx.process_type''), tx_process_data = fit 4096 (stack ''tx.process_data''),
     tx_state = fit 32 (stack ''tx.state''), tx_time_start = fit 64 (stack ''tx.time_start''),
     tx_time_end = fit 64 (stack ''tx.time_end''), tx_signature_counter = atoll (stack ''tx.signature_counter''),
     tx_signature_value = fit 256 (stack ''tx.signature_value''), tx_serial_number = fit 128 (stack ''tx.serial_number'')\<rparr>"

text \<open>The answers to the outcome of a start and of a finish.\<close>

definition start_answer :: "tse_transaction option \<Rightarrow> ('db, 'hw, 'a, http_response) prog" where
  "start_answer r = (case r of
     None \<Rightarrow> reply_error 500 ''internal_error'' ''transaction start failed'' 256
   | Some tx \<Rightarrow> do {
       json \<leftarrow> response_start_transaction_json tx HTTP_MAX_BODY;
       reply 200 json })"

definition finish_answer :: "(string option \<times> string option) + tse_transaction \<Rightarrow> ('db, 'hw, 'a, http_response) prog" where
  "finish_answer r = (case r of
     Inl (code, msg) \<Rightarrow> do {
       s \<leftarrow> State_Monad.get;
       let err_code = (case code of Some c \<Rightarrow> c | None \<Rightarrow> w_stack s ''err_code'');
       let err_msg = (case msg of Some m \<Rightarrow> m | None \<Rightarrow> w_stack s ''err_msg'');
       reply 400 (response_tx_error_json (w_stack s ''esc'')
         (if err_code \<noteq> [] then err_code else ''transaction_error'') err_msg 512) }
   | Inr tx \<Rightarrow> do {
       json \<leftarrow> response_finish_transaction_json tx HTTP_MAX_BODY;
       reply 200 json })"

definition handle_start_transaction :: "'hw worm_api \<Rightarrow> 'db engine \<Rightarrow> http_request \<Rightarrow> ('db, 'hw, 'a, http_response) prog" where
  "handle_start_transaction A E req = with_bearer E req (do {
     client_id \<leftarrow> resolve_client_id E req 256;
     s \<leftarrow> State_Monad.get;
     let external_id = body_field req ''externalTransactionId'' 256;
     r \<leftarrow> store_start_transaction A E client_id (body_field req ''processType'' 512)
            (body_field req ''processData'' 4096) (if external_id \<noteq> [] then Some external_id else None)
            (stack_transaction (w_stack s));
     start_answer r })"

definition handle_finish_transaction ::
  "'hw worm_api \<Rightarrow> 'db engine \<Rightarrow> http_request \<Rightarrow> string \<Rightarrow> ('db, 'hw, 'a, http_response) prog" where
  "handle_finish_transaction A E req tx_id = with_bearer E req (do {
     client_id \<leftarrow> resolve_client_id E req 256;
     s \<leftarrow> State_Monad.get;
     r \<leftarrow> store_finish_transaction A E client_id (atoll tx_id) (body_field req ''processType'' 512)
            (body_field req ''processData'' 4096) (stack_transaction (w_stack s)) 64 256;
     finish_answer r })"

section \<open>Information\<close>

definition handle_tss_details :: "'hw worm_api \<Rightarrow> 'db engine \<Rightarrow> http_request \<Rightarrow> ('db, 'hw, 'a, http_response) prog" where
  "handle_tss_details A E req = with_bearer E req (do {
     info \<leftarrow> store_info A E;
     json \<leftarrow> response_tss_details_json A (in_serial_number info) 8192;
     reply 200 json })"

definition handle_info :: "'hw worm_api \<Rightarrow> 'db engine \<Rightarrow> http_request \<Rightarrow> ('db, 'hw, 'a, http_response) prog" where
  "handle_info A E req = with_bearer E req (do {
     info \<leftarrow> store_info A E;
     reply 200 (response_info_json (in_registered_clients info) (in_max_registered_clients info)
       (in_transaction_counter info) (in_max_started_transactions info) 512) })"

definition handle_list_transactions :: "'db engine \<Rightarrow> http_request \<Rightarrow> ('db, 'hw, 'a, http_response) prog" where
  "handle_list_transactions E req = with_bearer E req (do {
     (rc, txs) \<leftarrow> store_list_open_transactions E 128;
     (if rc \<noteq> 0 then reply_error 500 ''internal_error'' ''failed to list open transactions'' 256
      else do {
        json \<leftarrow> response_open_transactions_json txs HTTP_MAX_BODY;
        reply 200 json }) })"

definition handle_health :: "'hw worm_api \<Rightarrow> 'db engine \<Rightarrow> ('db, 'hw, 'a, http_response) prog" where
  "handle_health A E = do {
     info \<leftarrow> store_info A E;
     s \<leftarrow> State_Monad.get;
     reply 200 (response_health_json (g_config s) info HTTP_MAX_BODY) }"

text \<open>
  The export answers with a stream, whose writer \<open>Tse_Conn\<close> models.  \<open>mem\<close> says whether the
  \<^verbatim>\<open>calloc\<close> of its context succeeds.
\<close>

definition handle_export_transactions ::
  "'hw worm_api \<Rightarrow> 'db engine \<Rightarrow> bool \<Rightarrow> http_request \<Rightarrow> ('db, 'hw, 'a, http_response) prog" where
  "handle_export_transactions A E mem req = with_bearer E req (do {
     s \<leftarrow> State_Monad.get;
     (if \<not> w_active s then reply_error 503 ''service_unavailable'' ''TSE not active'' 256
      else do {
        rc \<leftarrow> run_job (tse_worm_export_prepare A E) (-1);
        (if rc \<noteq> 0 then reply_error 503 ''service_unavailable''
             ''TSE not ready for export (self-test or time sync failed)'' 512
         else if \<not> mem then reply_error 500 ''internal_error'' ''out of memory'' 256
         else ret (blank_response\<lparr>rs_stream := True,
             rs_stream_content_type := util_strlcpy (Some ''text/plain; charset=utf-8'') 64\<rparr>)) }) })"

section \<open>Routing\<close>

definition match_tx_finish :: "string \<Rightarrow> nat \<Rightarrow> string option" where
  "match_tx_finish path tx_id_len =
     (if \<not> prefix ''/transaction/'' path then None
      else let tx_id = drop 13 path in
        if tx_id = [] then None
        else if list_ex (\<lambda>c. \<not> is_digit c) tx_id then None
        else if tx_id_len \<le> length tx_id then None
        else Some (util_strlcpy (Some tx_id) tx_id_len))"

definition reply_not_found :: "string \<Rightarrow> string \<Rightarrow> ('db, 'hw, 'a, http_response) prog" where
  "reply_not_found meth path = do {
     s \<leftarrow> State_Monad.get;
     reply 404 (response_not_found_json (w_stack s ''esc'') meth path 512) }"

definition handlers_route :: "'hw worm_api \<Rightarrow> 'db engine \<Rightarrow> bool \<Rightarrow> http_request \<Rightarrow> ('db, 'hw, 'a, http_response) prog" where
  "handlers_route A E mem req =
     (let path = http_normalize_path (rq_path req) HTTP_MAX_PATH; meth = rq_method req in
      if meth = ''OPTIONS'' then ret (blank_response\<lparr>rs_status := 204, rs_no_body := True\<rparr>)
      else if meth = ''GET'' \<or> meth = ''HEAD'' then
        (if path = ''/tssdetails'' then handle_tss_details A E req
         else if path = ''/info'' then handle_info A E req
         else if path = ''/transactions'' then handle_list_transactions E req
         else if path = ''/export/transactions'' then handle_export_transactions A E mem req
         else if path = ''/'' \<or> path = ''/health'' then handle_health A E
         else reply_not_found meth path)
      else if meth = ''POST'' \<and> path = ''/oauth/token'' then handle_oauth A E req
      else if meth = ''POST'' \<and> path = ''/transaction'' then handle_start_transaction A E req
      else (case (if meth = ''PUT'' \<or> meth = ''PATCH'' then match_tx_finish path 32 else None) of
              Some tx_id \<Rightarrow> handle_finish_transaction A E req tx_id
            | None \<Rightarrow> reply_not_found meth path))"

end
