(* ===== verification/Tse_Conn.thy ===== *)
theory Tse_Conn
  imports Tse_Handlers
begin

text \<open>
  The connection loop of \<^verbatim>\<open>c/src/http.c\<close> (\<^verbatim>\<open>http_write_all\<close>, \<^verbatim>\<open>fill_buffer\<close>,
  \<^verbatim>\<open>http_send_response\<close>, \<^verbatim>\<open>handle_client\<close>, \<^verbatim>\<open>http_serve\<close>) and the export
  stream of \<^verbatim>\<open>c/src/handlers.c\<close>.

  What the sockets do is a parameter: the outcomes of the coming waits and writes, as lists.  When
  a list is used up, a wait for room or for data times out, unless the peer has closed its side.
  \<^verbatim>\<open>*s_running\<close> may be cleared at any time by the signal handler, so seeing it cleared is one of
  the outcomes.
\<close>

section \<open>Writing\<close>

datatype sending = Sends nat | Send_interrupted | Send_failed | Not_writable | Send_stopped

record writer =
  wr_sends :: "sending list"
  wr_output :: string

fun write_loop :: "string \<Rightarrow> sending list \<Rightarrow> string \<Rightarrow> bool \<times> sending list \<times> string" where
  "write_loop [] evs out = (True, evs, out)"
| "write_loop data [] out = (False, [], out)"
| "write_loop data (Sends n # evs) out = write_loop (drop n data) evs (out @ take n data)"
| "write_loop data (Send_interrupted # evs) out = write_loop data evs out"
| "write_loop data (e # evs) out = (False, evs, out)"

text \<open>True is the 0, all written; false the -1.\<close>

definition http_write_all :: "writer \<Rightarrow> string \<Rightarrow> bool \<times> writer" where
  "http_write_all wr data = (case write_loop data (wr_sends wr) (wr_output wr) of
     (ok, evs, out) \<Rightarrow> (ok, \<lparr>wr_sends = evs, wr_output = out\<rparr>))"

section \<open>The export stream\<close>

text \<open>\<open>mem\<close> says whether \<^verbatim>\<open>malloc\<close> succeeds; the flag of the context is its \<^verbatim>\<open>write_rc\<close>, true when failed.\<close>

definition export_tar_chunk_cb :: "bool \<Rightarrow> writer \<times> bool \<Rightarrow> u8 list \<Rightarrow> (writer \<times> bool) \<times> bool" where
  "export_tar_chunk_cb mem ctx chunk = (case ctx of (wr, failed) \<Rightarrow>
     if failed then (ctx, False)
     else if \<not> mem then ((wr, True), False)
     else case util_base64_encode chunk ((length chunk + 2) div 3 * 4 + 1) of
       None \<Rightarrow> ((wr, True), False)
     | Some b64 \<Rightarrow>
         let (ok1, wr1) = http_write_all wr b64;
             (ok2, wr2) = (if ok1 then http_write_all wr1 [LF] else (False, wr1))
         in ((wr2, \<not> ok2), ok2))"

definition export_stream_writer :: "'hw worm_api \<Rightarrow> 'db engine \<Rightarrow> bool \<Rightarrow> writer \<Rightarrow> ('db, 'hw, 'a, writer) prog" where
  "export_stream_writer A E mem wr = do {
     r \<leftarrow> run_job (tse_worm_export_tar A E (export_tar_chunk_cb mem) (wr, False)) (-1, (wr, False));
     ret (fst (snd r)) }"

text \<open>The results of the writes are ignored.\<close>

definition http_send_response ::
  "'hw worm_api \<Rightarrow> 'db engine \<Rightarrow> bool \<Rightarrow> writer \<Rightarrow> http_response \<Rightarrow> bool \<Rightarrow> ('db, 'hw, 'a, writer) prog" where
  "http_send_response A E mem wr res keep_alive =
     (let wr' = foldl (\<lambda>w block. snd (http_write_all w block)) wr (response_writes res keep_alive) in
      if \<not> rs_no_body res \<and> rs_stream res then export_stream_writer A E mem wr' else ret wr')"

section \<open>Reading\<close>

text \<open>\<open>Arrives n\<close>: the peer's next bytes can be read, at most \<open>n\<close> at once; a read of no byte is the end.\<close>

datatype arrival = Arrives nat | Read_interrupted | Read_failed | Not_readable | Read_stopped

record reader =
  rd_input :: string
  rd_arrivals :: "arrival list"
  rd_closed :: bool

definition CLIENT_BUFFER :: nat where "CLIENT_BUFFER = HTTP_MAX_BODY + 16384"
definition RAW_BUFFER :: nat where "RAW_BUFFER = HTTP_MAX_BODY + 8192"

fun next_arrival :: "bool \<Rightarrow> arrival list \<Rightarrow> arrival \<times> arrival list" where
  "next_arrival closed [] = (if closed then Arrives 0 else Not_readable, [])"
| "next_arrival closed (Read_interrupted # as) = next_arrival closed as"
| "next_arrival closed (a # as) = (a, as)"

text \<open>
  The buffer and the number of bytes in it after a read; \<open>None\<close> is the -1.  At the end of the
  stream the code returns 0, as after a read, when the buffer already holds something.
\<close>

definition fill_buffer :: "string \<Rightarrow> nat \<Rightarrow> reader \<Rightarrow> (string \<times> nat) option \<times> reader" where
  "fill_buffer buf received rd =
     (if CLIENT_BUFFER - 1 \<le> received then (None, rd)
      else case next_arrival (rd_closed rd) (rd_arrivals rd) of
        (Arrives n, as) \<Rightarrow>
          let bs = take (min n (CLIENT_BUFFER - 1 - received)) (rd_input rd);
              rd' = rd\<lparr>rd_arrivals := as, rd_input := drop (length bs) (rd_input rd)\<rparr>
          in if bs = [] then (if 0 < received then (Some (buf, received), rd') else (None, rd'))
             else (Some (take received buf @ bs @ NUL # drop (received + length bs + 1) buf,
                     received + length bs), rd')
      | (_, as) \<Rightarrow> (None, rd\<lparr>rd_arrivals := as\<rparr>))"

section \<open>One request\<close>

text \<open>The body the handlers see.\<close>

definition with_parsed_body :: "string \<Rightarrow> http_request \<Rightarrow> http_request" where
  "with_parsed_body uninit req =
     (let ct = (case http_get_header req ''Content-Type'' of Some c \<Rightarrow> c | None \<Rightarrow> []);
          parsed_body = http_parse_body uninit (rq_body req) ct HTTP_MAX_BODY
      in if parsed_body \<noteq> [] then (let body = util_strlcpy (Some parsed_body) HTTP_MAX_BODY in
           req\<lparr>rq_body := body, rq_body_len := length body\<rparr>) else req)"

datatype step = Next writer | Last writer | Crash

text \<open>The part of the loop after a request is complete: parse, route, answer.\<close>

definition serve_request :: "'hw worm_api \<Rightarrow> 'db engine \<Rightarrow> bool \<Rightarrow> string \<Rightarrow> writer \<Rightarrow> ('db, 'hw, 'a, step) prog" where
  "serve_request A E mem req_raw wr = do {
     s \<leftarrow> State_Monad.get;
     (case http_parse_request (w_stack s ''version'') req_raw of
        Overrun \<Rightarrow> ret Crash
      | Refused \<Rightarrow> do {
          wr' \<leftarrow> http_send_response A E mem wr (json_response 400
            (''{'' @ member_text ''error'' ''bad_request'' @ '','' @ member_text ''message'' ''Invalid HTTP request'' @ ''}'')) False;
          ret (Last wr') }
      | Parsed req0 \<Rightarrow> do {
          let req = with_parsed_body (w_stack s ''ct'') req0;
          res \<leftarrow> handlers_route A E mem req;
          let keep_alive = should_keep_alive req;
          wr' \<leftarrow> http_send_response A E mem wr res keep_alive;
          ret (if keep_alive then Next wr' else Last wr') }) }"

section \<open>The connection\<close>

datatype ending = Closed writer | Crashed | Out_of_fuel

text \<open>
  The loops of \<^verbatim>\<open>handle_client\<close> with the bytes \<open>buf\<close> of the buffer, \<open>received\<close> of them valid.
  Each round takes one unit of fuel: a read or a request.
\<close>

fun handle_client ::
  "'hw worm_api \<Rightarrow> 'db engine \<Rightarrow> bool \<Rightarrow> nat \<Rightarrow> string \<Rightarrow> nat \<Rightarrow> reader \<Rightarrow> writer \<Rightarrow> ('db, 'hw, 'a, ending) prog" where
  "handle_client A E mem 0 buf received rd wr = ret Out_of_fuel"
| "handle_client A E mem (Suc fuel) buf received rd wr =
     (case request_complete buf received of
        None \<Rightarrow>
          if CLIENT_BUFFER - 1 \<le> received then ret (Closed wr)
          else (case fill_buffer buf received rd of
            (None, rd') \<Rightarrow> ret (Closed wr)
          | (Some (buf', received'), rd') \<Rightarrow> handle_client A E mem fuel buf' received' rd' wr)
      | Some len \<Rightarrow> do {
          let msg_len = (if RAW_BUFFER \<le> len then RAW_BUFFER - 1 else len);
          let rest = received - msg_len;
          let buf' = (if msg_len < received then take rest (drop msg_len buf) @ drop rest buf else buf);
          r \<leftarrow> serve_request A E mem (take msg_len buf) wr;
          (case r of
             Crash \<Rightarrow> ret Crashed
           | Last wr' \<Rightarrow> ret (Closed wr')
           | Next wr' \<Rightarrow> handle_client A E mem fuel buf' rest rd wr') })"

section \<open>The accept loop\<close>

text \<open>What \<^verbatim>\<open>select\<close> and \<^verbatim>\<open>accept\<close> give: a client, nothing, an error, or the stop flag.\<close>

datatype accepting = Client string reader writer | No_client | Accept_interrupted | Accept_failed | Accept_stopped

text \<open>One client after the other, each until it is closed; \<open>fuel\<close> for each.\<close>

fun http_serve :: "'hw worm_api \<Rightarrow> 'db engine \<Rightarrow> bool \<Rightarrow> nat \<Rightarrow> accepting list \<Rightarrow> ('db, 'hw, 'a, ending list) prog" where
  "http_serve A E mem fuel [] = ret []"
| "http_serve A E mem fuel (No_client # evs) = http_serve A E mem fuel evs"
| "http_serve A E mem fuel (Accept_interrupted # evs) = http_serve A E mem fuel evs"
| "http_serve A E mem fuel (Accept_failed # evs) = ret []"
| "http_serve A E mem fuel (Accept_stopped # evs) = ret []"
| "http_serve A E mem fuel (Client garbage rd wr # evs) = do {
     e \<leftarrow> handle_client A E mem fuel garbage 0 rd wr;
     (case e of
        Closed wr' \<Rightarrow> do { es \<leftarrow> http_serve A E mem fuel evs; ret (e # es) }
      | _ \<Rightarrow> ret [e]) }"

end
