(* ===== verification/Tse_Journal.thy ===== *)
theory Tse_Journal
  imports Tse_Store
begin

text \<open>
  What the journal of \<^verbatim>\<open>c/src/store.c\<close> promises.  A transaction journal is a map from numbers to
  entries on which a start adds an open entry under a new number and a finish closes an open one
  (locale \<open>tx_journal\<close>).  A reported number may be \<open>stale\<close>: when the row just written cannot be read
  back, the source reports what its caller's buffer held.  The simulator's operations are such a journal whatever statements of the
  engine fail, and on a reliable engine they implement the specification at the end exactly.
\<close>

section \<open>The interface\<close>

locale tx_journal =
  fixes ok :: "'s \<Rightarrow> bool"
    and entries :: "'s \<Rightarrow> int \<Rightarrow> 'e option"
    and is_open :: "'e \<Rightarrow> bool"
    and same_tx :: "'e \<Rightarrow> 'e \<Rightarrow> bool"
    and stale :: int
    and start :: "'a \<Rightarrow> 's \<Rightarrow> int option \<times> 's"
    and finish :: "int \<Rightarrow> 'a \<Rightarrow> 's \<Rightarrow> bool \<times> 's"
  assumes same_refl: "same_tx x x"
    and same_trans: "same_tx x y \<Longrightarrow> same_tx y z \<Longrightarrow> same_tx x z"
    and start_law: "ok s \<Longrightarrow> start a s = (r, t) \<Longrightarrow> ok t \<and>
      (r = None \<and> entries t = entries s \<or>
       (\<exists>n x. entries s n = None \<and> is_open x \<and> entries t = (entries s)(n \<mapsto> x)
          \<and> (\<forall>m. r = Some m \<longrightarrow> m = n \<or> m = stale)))"
    and finish_law: "ok s \<Longrightarrow> finish n a s = (b, t) \<Longrightarrow> ok t \<and>
      (\<not> b \<and> entries t = entries s \<or>
       (\<exists>x y. entries s n = Some x \<and> is_open x \<and> \<not> is_open y \<and> same_tx x y
          \<and> entries t = (entries s)(n \<mapsto> y)))"

datatype 'a journal_op = Op_start 'a | Op_finish int 'a

text \<open>
  A history: the operations with the transaction number each reported, \<open>None\<close> for an error, and the
  state they leave.
\<close>

fun do_op :: "('a \<Rightarrow> 's \<Rightarrow> int option \<times> 's) \<Rightarrow> (int \<Rightarrow> 'a \<Rightarrow> 's \<Rightarrow> bool \<times> 's) \<Rightarrow> 'a journal_op \<Rightarrow> 's \<Rightarrow>
    int option \<times> 's" where
  "do_op start finish (Op_start a) s = start a s"
| "do_op start finish (Op_finish n a) s = (let (b, t) = finish n a s in (if b then Some n else None, t))"

fun run_history :: "('a \<Rightarrow> 's \<Rightarrow> int option \<times> 's) \<Rightarrow> (int \<Rightarrow> 'a \<Rightarrow> 's \<Rightarrow> bool \<times> 's) \<Rightarrow>
    'a journal_op list \<Rightarrow> 's \<Rightarrow> ('a journal_op \<times> int option) list \<times> 's" where
  "run_history start finish [] s = ([], s)"
| "run_history start finish (p # ops) s =
     (let (r, t) = do_op start finish p s; (log, u) = run_history start finish ops t in ((p, r) # log, u))"

lemma run_history_Cons:
  assumes "run_history start finish (p # ops) s = (log, t)"
  obtains b u log' where "do_op start finish p s = (b, u)" "run_history start finish ops u = (log', t)"
    "log = (p, b) # log'"
  using assms by (auto simp: Let_def split: prod.splits)

text \<open>How often a history reported that it closed \<open>n\<close>, and the numbers of the starts it reported.\<close>

definition finishes :: "int \<Rightarrow> ('a journal_op \<times> int option) list \<Rightarrow> nat" where
  "finishes n log = length (filter (\<lambda>(p, r). r \<noteq> None \<and> (\<exists>a. p = Op_finish n a)) log)"

fun started_numbers :: "('a journal_op \<times> int option) list \<Rightarrow> int list" where
  "started_numbers [] = []"
| "started_numbers ((p, r) # log) = (case (p, r) of
     (Op_start a, Some n) \<Rightarrow> n # started_numbers log | _ \<Rightarrow> started_numbers log)"

context tx_journal begin

lemma step_law:
  assumes "ok s" "do_op start finish p s = (b, t)"
  shows "ok t \<and> (b = None \<and> entries t = entries s
    \<or> (\<exists>a n x. p = Op_start a \<and> entries s n = None \<and> is_open x \<and> entries t = (entries s)(n \<mapsto> x)
          \<and> (\<forall>m. b = Some m \<longrightarrow> m = n \<or> m = stale))
    \<or> (\<exists>n a x y. p = Op_finish n a \<and> entries s n = Some x \<and> is_open x \<and> \<not> is_open y \<and> same_tx x y
          \<and> entries t = (entries s)(n \<mapsto> y)))"
proof (cases p)
  case (Op_start a)
  with assms(2) have "start a s = (b, t)" by simp
  from start_law [OF assms(1) this] Op_start show ?thesis by blast
next
  case (Op_finish n a)
  with assms(2) obtain c where "finish n a s = (c, t)" "b = (if c then Some n else None)"
    by (auto split: prod.splits)
  from finish_law [OF assms(1) this(1)] this(2) Op_finish show ?thesis by auto
qed

text \<open>An entry is never lost, and a closed one never changes.\<close>

definition extends :: "(int \<Rightarrow> 'e option) \<Rightarrow> (int \<Rightarrow> 'e option) \<Rightarrow> bool" where
  "extends m m' \<longleftrightarrow> (\<forall>n x. m n = Some x \<longrightarrow> (\<exists>y. m' n = Some y \<and> same_tx x y \<and> (\<not> is_open x \<longrightarrow> y = x)))"

lemma extends_trans: "extends m m' \<Longrightarrow> extends m' m'' \<Longrightarrow> extends m m''"
  unfolding extends_def by (metis same_trans)

lemma extends_step: "ok s \<Longrightarrow> do_op start finish p s = (b, t) \<Longrightarrow> extends (entries s) (entries t)"
  by (drule (1) step_law) (auto simp: extends_def same_refl)

lemma history_extends:
  "ok s \<Longrightarrow> run_history start finish ops s = (log, t) \<Longrightarrow> ok t \<and> extends (entries s) (entries t)"
proof (induction ops arbitrary: s log)
  case Nil
  then show ?case by (auto simp: extends_def same_refl)
next
  case (Cons p ops)
  obtain b u log' where u: "do_op start finish p s = (b, u)" "run_history start finish ops u = (log', t)"
    using Cons.prems(2) by (rule run_history_Cons)
  then have "ok u" using step_law [OF Cons.prems(1) u(1)] by blast
  with Cons.IH [OF this u(2)] extends_step [OF Cons.prems(1) u(1)] show ?case
    by (blast intro: extends_trans)
qed

text \<open>A transaction is reported finished at most once, and never when it was closed before.\<close>

lemma finish_once:
  "ok s \<Longrightarrow> run_history start finish ops s = (log, t) \<Longrightarrow>
   finishes n log \<le> (case entries s n of Some x \<Rightarrow> if is_open x then 1 else 0 | None \<Rightarrow> 1)"
proof (induction ops arbitrary: s log)
  case Nil
  then show ?case by (simp add: finishes_def)
next
  case (Cons p ops)
  obtain b u log' where u: "do_op start finish p s = (b, u)" "run_history start finish ops u = (log', t)"
    and log: "log = (p, b) # log'"
    using Cons.prems(2) by (rule run_history_Cons)
  note law = step_law [OF Cons.prems(1) u(1)]
  then have "finishes n log' \<le> (case entries u n of Some x \<Rightarrow> if is_open x then 1 else 0 | None \<Rightarrow> 1)"
    using Cons.IH u(2) by blast
  moreover have "finishes n log = (if b \<noteq> None \<and> (\<exists>a. p = Op_finish n a) then 1 else 0) + finishes n log'"
    by (simp add: log finishes_def)
  ultimately show ?case using law by (auto split: option.splits if_splits)
qed

text \<open>Each reported start added an entry.\<close>

lemma starts_counted:
  "ok s \<Longrightarrow> run_history start finish ops s = (log, t) \<Longrightarrow> finite (dom (entries s)) \<Longrightarrow>
   finite (dom (entries t)) \<and> length (started_numbers log) + card (dom (entries s)) \<le> card (dom (entries t))"
proof (induction ops arbitrary: s log)
  case (Cons p ops)
  obtain r u log' where u: "do_op start finish p s = (r, u)" "run_history start finish ops u = (log', t)"
    and log: "log = (p, r) # log'"
    using Cons.prems(2) by (rule run_history_Cons)
  note law = step_law [OF Cons.prems(1) u(1)]
  let ?one = "(if r \<noteq> None \<and> (\<exists>a. p = Op_start a) then 1 else 0 :: nat)"
  from law have dom: "finite (dom (entries u)) \<and> ?one + card (dom (entries s)) \<le> card (dom (entries u))"
    using Cons.prems(3) by (auto simp: card_insert_if domIff insert_absorb)
  then have "finite (dom (entries t)) \<and> length (started_numbers log') + card (dom (entries u)) \<le> card (dom (entries t))"
    using Cons.IH [OF _ u(2)] law by blast
  moreover have "length (started_numbers log) = ?one + length (started_numbers log')"
    by (cases p; cases r) (simp_all add: log)
  ultimately show ?case using dom by linarith
qed simp

text \<open>The numbers reported, but for stale ones, are new, all different, and there at the end.\<close>

lemma starts_distinct:
  "ok s \<Longrightarrow> run_history start finish ops s = (log, t) \<Longrightarrow>
   distinct (filter (\<lambda>n. n \<noteq> stale) (started_numbers log))
   \<and> (\<forall>n \<in> set (started_numbers log). n \<noteq> stale \<longrightarrow> entries s n = None \<and> entries t n \<noteq> None)"
proof (induction ops arbitrary: s log)
  case (Cons p ops)
  obtain r u log' where u: "do_op start finish p s = (r, u)" "run_history start finish ops u = (log', t)"
    and log: "log = (p, r) # log'"
    using Cons.prems(2) by (rule run_history_Cons)
  note law = step_law [OF Cons.prems(1) u(1)]
  then have ok: "ok u" by blast
  note IH = Cons.IH [OF ok u(2)]
  have earlier: "entries s n = None" if "entries u n = None" for n
    using extends_step [OF Cons.prems(1) u(1)] that unfolding extends_def by (metis not_None_eq)
  show ?case
  proof (cases "\<exists>a n. p = Op_start a \<and> r = Some n \<and> n \<noteq> stale")
    case True
    then obtain a n where n: "p = Op_start a" "r = Some n" "n \<noteq> stale" by blast
    with law have new: "entries s n = None" "entries u n \<noteq> None" by auto
    then have "entries t n \<noteq> None" using history_extends [OF ok u(2)] by (auto simp: extends_def)
    with new n IH earlier show ?thesis by (auto simp: log)
  next
    case False
    then have "filter (\<lambda>n. n \<noteq> stale) (started_numbers log) = filter (\<lambda>n. n \<noteq> stale) (started_numbers log')"
      "\<forall>n \<in> set (started_numbers log). n \<noteq> stale \<longrightarrow> n \<in> set (started_numbers log')"
      by (cases p; cases r; auto simp: log)+
    with IH earlier show ?thesis by auto
  qed
qed simp

end

section \<open>The simulator is a journal, whatever fails\<close>

definition journal :: "('db \<Rightarrow> tables) \<Rightarrow> ('db, 'x) dbs_scheme \<Rightarrow> int \<Rightarrow> tx_row option" where
  "journal view s = map_of (t_transactions (view (db_conn s)))"

definition open_row :: "tx_row \<Rightarrow> bool" where
  "open_row x \<longleftrightarrow> x_state x = ''ACTIVE''"

text \<open>What a finish keeps of a row: who opened it, under which external id, and when.\<close>

definition same_row :: "tx_row \<Rightarrow> tx_row \<Rightarrow> bool" where
  "same_row x y \<longleftrightarrow> x_client x = x_client y \<and> x_external x = x_external y \<and> x_time_start x = x_time_start y"

definition started :: "int \<Rightarrow> (int \<Rightarrow> tx_row option) \<Rightarrow> (int \<Rightarrow> tx_row option) \<Rightarrow> bool" where
  "started n m m' \<longleftrightarrow> (\<exists>x. m n = None \<and> open_row x \<and> m' = m(n \<mapsto> x))"

definition finished :: "int \<Rightarrow> (int \<Rightarrow> tx_row option) \<Rightarrow> (int \<Rightarrow> tx_row option) \<Rightarrow> bool" where
  "finished n m m' \<longleftrightarrow> (\<exists>x y. m n = Some x \<and> open_row x \<and> \<not> open_row y \<and> same_row x y \<and> m' = m(n \<mapsto> y))"

lemma started_insert: "m n = None \<Longrightarrow> started n m (m(n \<mapsto> new_tx c e pt pd now g sg))"
  unfolding started_def by (intro exI conjI) (auto simp: open_row_def new_tx_def)

lemma finished_update:
  assumes "m n = Some x" "x_state x = ''ACTIVE''"
  shows "finished n m (m(n \<mapsto> x\<lparr>x_process_type := pt, x_process_data := pd, x_state := ''FINISHED'',
    x_time_end := Some now, x_signature_counter := g, x_signature_value := sg\<rparr>))"
  unfolding finished_def using assms by (intro exI conjI) (auto simp: open_row_def same_row_def)

lemma quiet_journal: "quiet view s t \<Longrightarrow> journal view t = journal view s"
  by (simp add: quiet_def journal_def)

lemma quiet_active: "quiet view (s :: ('db, 'hw, 'x) server_scheme) t \<Longrightarrow> w_active t = w_active s"
  by (auto simp: quiet_def)

lemma wp_quiet:
  assumes "quiet view s0 s" "state_io_rel (quiet view) m" "\<And>x t. quiet view s0 t \<Longrightarrow> wp (f x) Q t"
  shows "wp (State_Monad.bind m f) Q s"
  unfolding wp_bind using assms(2)
  by (rule wp_io) (rule assms(3), rule quiet_trans [OF assms(1)])

lemma wp_quiet_end:
  assumes "state_io_rel (quiet view) m" "\<And>x t. quiet view s t \<Longrightarrow> Q x t"
  shows "wp m Q s"
  using assms(1) by (rule wp_io) (rule assms(2))

lemma quiet_db_conn:
  "view d = view (db_conn s) \<Longrightarrow> quiet view s (s\<lparr>db_conn := d\<rparr>)"
  by (rule quietI [where i = "os_ticks s" and j = "os_draws s" and d = d]) simp_all

lemma fit_ACTIVE: "fit 32 st = ''ACTIVE'' \<longleftrightarrow> st = ''ACTIVE''"
proof -
  have "st = ''ACTIVE''" if "take 31 st = ''ACTIVE''"
  proof -
    from that have "length (take 31 st) = length ''ACTIVE''" by (rule arg_cong)
    then have "length st \<le> 31" by (simp add: min_def split: if_splits)
    with that show ?thesis by simp
  qed
  then show ?thesis by (auto simp: fit_def)
qed

context sqlite_engine begin

lemma wp_insert:
  assumes fresh: "\<And>d. view d = view (db_conn s) \<Longrightarrow> r_ok None (s\<lparr>db_conn := d\<rparr>)"
    and inserted: "\<And>d. journal view s n = None \<Longrightarrow>
      journal view (s\<lparr>db_conn := d\<rparr>) = (journal view s)(n \<mapsto> new_tx c e pt pd now g sg) \<Longrightarrow>
      wp cont r_ok (s\<lparr>db_conn := d\<rparr>)"
  shows "wp (do { r \<leftarrow> sql_run E (InsertTransaction n c e pt pd now g sg); if r \<noteq> Done then ret None else cont }) r_ok s"
  unfolding wp_bind
proof (rule wp_sql)
  fix r d assume "sql_failed r" "view d = view (db_conn s)"
  with fresh show "wp (if r \<noteq> Done then ret None else cont) r_ok (s\<lparr>db_conn := d\<rparr>)"
    by (auto simp: wps)
next
  fix r d
  let ?q = "InsertTransaction n c e pt pd now g sg"
  assume d: "view d = fst (sql_exec (view (db_conn s)) ?q)" and r: "r = snd (sql_exec (view (db_conn s)) ?q)"
  show "wp (if r \<noteq> Done then ret None else cont) r_ok (s\<lparr>db_conn := d\<rparr>)"
  proof (cases "Transactions_table \<in> t_items (view (db_conn s)) \<and> journal view s n = None")
    case True
    then have "r = Done" "journal view (s\<lparr>db_conn := d\<rparr>) = (journal view s)(n \<mapsto> new_tx c e pt pd now g sg)"
      using d r by (auto simp: journal_def update_conv')
    with True inserted show ?thesis by simp
  next
    case False
    then have "view d = view (db_conn s)" "r \<noteq> Done" using d r by (auto simp: journal_def)
    with fresh show ?thesis by (simp add: wps)
  qed
qed

text \<open>The number read back is the row's, or the caller's buffer when no row is found.\<close>

lemma wp_read_back:
  "wp (read_back E n out0) (\<lambda>r u. quiet view s u \<and> (\<forall>tx. r = Some tx \<longrightarrow> tx_number tx = n \<or> tx = out0)) s"
proof -
  have number: "tx_number (value_of (load_transaction_row E (tx_columns (n, x))) u) = n" for x u
    by (simp add: load_transaction_row_def tx_columns_def column_int64_def split_beta Let_def)
  have "tx_number tx = n \<or> tx = out0" if "value_of (read_back E n out0) s = Some tx" for tx
    using step_atomic [of "db_conn s" "SelectTransaction n"] that
    by (auto simp: read_back_def result_rows_def number split_beta split: if_splits option.splits)
  moreover have "quiet view s (poststate (read_back E n out0) s)" by (rule io_poststateD) (rule quiet_read_back)
  ultimately show ?thesis by (simp add: wp_run)
qed

lemma sim_start_law:
  fixes s :: "('db, 'hw, 'x) server_scheme"
  shows "wp (sim_start_transaction E c pt pd ext out0) (\<lambda>r t. w_active t = w_active s \<and>
    (r = None \<and> journal view t = journal view s \<or> (\<exists>n. started n (journal view s) (journal view t)
      \<and> (\<forall>tx. r = Some tx \<longrightarrow> tx_number tx = n \<or> tx = out0)))) s" (is "wp _ ?Q s")
proof -
  have stop: "?Q None t" if "quiet view s t" for t
    using that by (simp add: quiet_journal quiet_active)
  show ?thesis
    unfolding sim_start_transaction_def
  proof (rule wp_quiet [OF quiet_refl quiet_increment], erule wp_quiet [OF _ quiet_increment],
      erule wp_quiet [OF _ quiet_now], erule wp_quiet [OF _ quiet_random])
    fix n g now sig t
    assume t: "quiet view s t"
    show "wp (case sig of None \<Rightarrow> ret None | Some sg \<Rightarrow> do {
        r \<leftarrow> sql_run E (InsertTransaction n c (external_or_null ext) pt pd now g sg);
        if r \<noteq> Done then ret None else read_back E n out0 }) ?Q t"
    proof (cases sig)
      case None
      with stop [OF t] show ?thesis by (simp add: wps)
    next
      case (Some sg)
      show ?thesis unfolding Some option.case
      proof (rule wp_insert)
        fix d assume "view d = view (db_conn t)"
        then show "?Q None (t\<lparr>db_conn := d\<rparr>)"
          by (rule stop [OF quiet_trans [OF t quiet_db_conn]])
      next
        fix d
        assume j: "journal view t n = None" "journal view (t\<lparr>db_conn := d\<rparr>)
          = (journal view t)(n \<mapsto> new_tx c (external_or_null ext) pt pd now g sg)"
        show "wp (read_back E n out0) ?Q (t\<lparr>db_conn := d\<rparr>)"
        proof (rule wp_mono [OF wp_read_back], elim conjE)
          fix x u assume u: "quiet view (t\<lparr>db_conn := d\<rparr>) u" and x: "\<forall>tx. x = Some tx \<longrightarrow> tx_number tx = n \<or> tx = out0"
          have "started n (journal view s) (journal view u)" "w_active u = w_active s"
            using j quiet_journal [OF u] quiet_journal [OF t] quiet_active [OF u] quiet_active [OF t]
            by (simp_all add: started_insert)
          with x show "?Q x u" by blast
        qed
      qed
    qed
  qed
qed

lemma wp_load_row:
  "wp (load_transaction_row E (tx_columns (n, x))) (\<lambda>tx t. quiet view s t \<and> tx_state tx = fit 32 (x_state x)) s"
proof -
  have "tx_state (value_of (load_transaction_row E (tx_columns (n, x))) s) = fit 32 (x_state x)"
    by (simp add: load_transaction_row_def tx_columns_def column_text_def split_beta Let_def)
  moreover have "quiet view s (poststate (load_transaction_row E (tx_columns (n, x))) s)"
    by (rule io_poststateD) (rule quiet_load_row)
  ultimately show ?thesis by (simp add: wp_run)
qed

lemma wp_update:
  assumes failed: "\<And>r d. r \<noteq> Done \<Longrightarrow> view d = view (db_conn s) \<Longrightarrow> wp (cont r) Q (s\<lparr>db_conn := d\<rparr>)"
    and updated: "\<And>d. journal view (s\<lparr>db_conn := d\<rparr>) = (journal view s)(n \<mapsto> x\<lparr>x_process_type := pt,
      x_process_data := pd, x_state := ''FINISHED'', x_time_end := Some now, x_signature_counter := g,
      x_signature_value := sg\<rparr>) \<Longrightarrow> wp (cont Done) Q (s\<lparr>db_conn := d\<rparr>)"
    and row: "journal view s n = Some x"
  shows "wp (State_Monad.bind (sql_run E (UpdateTransaction pt pd now g sg n)) cont) Q s"
  unfolding wp_bind
proof (rule wp_sql)
  fix r d
  let ?q = "UpdateTransaction pt pd now g sg n"
  assume d: "view d = fst (sql_exec (view (db_conn s)) ?q)" and r: "r = snd (sql_exec (view (db_conn s)) ?q)"
  show "wp (cont r) Q (s\<lparr>db_conn := d\<rparr>)"
  proof (cases "Transactions_table \<in> t_items (view (db_conn s))")
    case True
    then have "r = Done" using r by simp
    moreover have "journal view (s\<lparr>db_conn := d\<rparr>) = (journal view s)(n \<mapsto> x\<lparr>x_process_type := pt,
      x_process_data := pd, x_state := ''FINISHED'', x_time_end := Some now, x_signature_counter := g,
      x_signature_value := sg\<rparr>)"
      using True d row by (auto simp: journal_def map_of_map_entry fun_eq_iff)
    ultimately show ?thesis using updated by simp
  qed (use d r failed in simp)
qed (use failed in auto)

lemma sim_close_law:
  fixes s :: "('db, 'hw, 'x) server_scheme"
  assumes x: "journal view s n = Some x" "x_state x = ''ACTIVE''"
  shows "wp (sim_close_transaction E existing n pt pd out0) (\<lambda>r t. w_active t = w_active s \<and>
    (isl r \<and> journal view t = journal view s \<or> finished n (journal view s) (journal view t))) s" (is "wp _ ?Q s")
proof -
  have stop: "?Q (Inl e) t" if "quiet view s t" for t e
    using that by (simp add: quiet_journal quiet_active)
  let ?cont = "\<lambda>r. if r \<noteq> Done then ret (Inl (None, None)) else do {
      out \<leftarrow> read_back E n out0;
      ret (case out of None \<Rightarrow> Inl (None, None) | Some tx \<Rightarrow> Inr tx) }"
  show ?thesis
    unfolding sim_close_transaction_def
  proof (rule wp_quiet [OF quiet_refl quiet_increment], erule wp_quiet [OF _ quiet_now],
      erule wp_quiet [OF _ quiet_random])
    fix g now sig v
    assume v: "quiet view s v"
    let ?pt = "if pt \<noteq> [] then pt else tx_process_type existing"
    let ?pd = "if pd \<noteq> [] then pd else tx_process_data existing"
    show "wp (case sig of None \<Rightarrow> ret (Inl (None, None))
        | Some sg \<Rightarrow> State_Monad.bind (sql_run E (UpdateTransaction ?pt ?pd now g sg n)) ?cont) ?Q v"
    proof (cases sig)
      case None
      with stop [OF v] show ?thesis by (simp add: wps)
    next
      case (Some sg)
      show ?thesis unfolding Some option.case
      proof (rule wp_update)
        show "journal view v n = Some x" using x quiet_journal [OF v] by simp
      next
        fix r d assume "r \<noteq> Done" "view d = view (db_conn v)"
        then show "wp (?cont r) ?Q (v\<lparr>db_conn := d\<rparr>)"
          using stop [OF quiet_trans [OF v quiet_db_conn]] by (simp add: wps)
      next
        fix d
        let ?y = "x\<lparr>x_process_type := ?pt, x_process_data := ?pd, x_state := ''FINISHED'',
          x_time_end := Some now, x_signature_counter := g, x_signature_value := sg\<rparr>"
        assume j: "journal view (v\<lparr>db_conn := d\<rparr>) = (journal view v)(n \<mapsto> ?y)"
        have "wp (read_back E n out0) (\<lambda>o' w. ?Q (case o' of None \<Rightarrow> Inl (None, None) | Some tx \<Rightarrow> Inr tx) w)
            (v\<lparr>db_conn := d\<rparr>)"
        proof (rule wp_quiet_end [OF quiet_read_back])
          fix o' w assume w: "quiet view (v\<lparr>db_conn := d\<rparr>) w"
          have "journal view w = (journal view s)(n \<mapsto> ?y)"
            using quiet_journal [OF w] j quiet_journal [OF v] by simp
          moreover have "w_active w = w_active s"
            using quiet_active [OF w] quiet_active [OF v] by simp
          ultimately show "?Q (case o' of None \<Rightarrow> Inl (None, None) | Some tx \<Rightarrow> Inr tx) w"
            using finished_update [where m = "journal view s", OF x] by simp
        qed
        then show "wp (?cont Done) ?Q (v\<lparr>db_conn := d\<rparr>)" by (simp add: wp_bind wp_return)
      qed
    qed
  qed
qed

lemma sim_finish_law:
  fixes s :: "('db, 'hw, 'x) server_scheme"
  shows "wp (sim_finish_transaction E n pt pd out0 cl ml) (\<lambda>r t. w_active t = w_active s \<and>
    (isl r \<and> journal view t = journal view s \<or> finished n (journal view s) (journal view t))) s" (is "wp _ ?Q s")
proof -
  have stop: "?Q (Inl e) t" if "quiet view s t" for t e
    using that by (simp add: quiet_journal quiet_active)
  note stop' = stop [OF quiet_db_conn]
  show ?thesis
    unfolding sim_finish_transaction_def wp_bind [of "sql_run E (SelectTransaction n)"]
  proof (rule wp_sql, goal_cases)
    case (1 r d)
    then show ?case using stop' by (auto simp: wps result_rows_def)
  next
    case (2 r d)
    show ?case
    proof (cases "Transactions_table \<in> t_items (view (db_conn s)) \<and> journal view s n \<noteq> None")
      case False
      with 2 show ?thesis using stop' by (auto simp: wps result_rows_def journal_def)
    next
      case True
      then obtain x where x: "journal view s n = Some x" by blast
      with True 2 have r: "r = Rows [tx_columns (n, x)]" and d: "view d = view (db_conn s)"
        by (auto simp: journal_def)
      have "wp (do { existing \<leftarrow> load_transaction_row E (tx_columns (n, x));
          if tx_state existing \<noteq> ''ACTIVE'' then ret (Inl (no_transaction_error cl ml))
          else sim_close_transaction E existing n pt pd out0 }) ?Q (s\<lparr>db_conn := d\<rparr>)"
      proof (rule wp_seq [OF wp_load_row], elim conjE)
        fix existing :: tse_transaction and u
        assume u0: "quiet view (s\<lparr>db_conn := d\<rparr>) u" and st: "tx_state existing = fit 32 (x_state x)"
        have u: "quiet view s u" by (rule quiet_trans [OF quiet_db_conn [OF d] u0])
        show "wp (if tx_state existing \<noteq> ''ACTIVE'' then ret (Inl (no_transaction_error cl ml))
            else sim_close_transaction E existing n pt pd out0) ?Q u"
        proof (cases "tx_state existing = ''ACTIVE''")
          case True
          then have "x_state x = ''ACTIVE''" using st by (simp add: fit_ACTIVE)
          then show ?thesis
            using sim_close_law [of u n x existing pt pd out0] x True
            by (simp add: quiet_journal [OF u] quiet_active [OF u])
        qed (use stop [OF u] in \<open>simp add: wps\<close>)
      qed
      then show ?thesis by (simp add: r result_rows_def)
    qed
  qed
qed

lemma journal_exec:
  "view d = view (db_conn s) \<Longrightarrow> journal view (s\<lparr>db_conn := d\<rparr>) = journal view s"
  by (simp add: journal_def)

text \<open>The two records kept for the hardware touch only their own number.\<close>

lemma record_open_others:
  "m \<noteq> tx_number tx \<Longrightarrow> journal view (poststate (record_transaction_open E tx ext) s) m = journal view s m"
proof -
  assume m: "m \<noteq> tx_number tx"
  have "wp (record_transaction_open E tx ext) (\<lambda>_ t. journal view t m = journal view s m) s"
    unfolding record_transaction_open_def
  proof (rule wp_quiet [OF quiet_refl quiet_now], unfold wp_bind wp_return, rule wp_sql)
    fix now t r d
    assume t: "quiet view s t"
    show "view d = view (db_conn t) \<Longrightarrow> journal view (t\<lparr>db_conn := d\<rparr>) m = journal view s m"
      using quiet_journal [OF t] by (simp add: journal_exec)
    assume "view d = fst (sql_exec (view (db_conn t)) (UpsertTransaction (tx_number tx) (tx_client_id tx)
      (external_or_null ext) (tx_process_type tx) [] now (tx_signature_counter tx) (tx_signature_value tx)))"
    then show "journal view (t\<lparr>db_conn := d\<rparr>) m = journal view s m"
      using quiet_journal [OF t] m by (simp add: journal_def update_conv')
  qed
  then show ?thesis by (simp add: wp_run)
qed

lemma record_finished_others:
  "m \<noteq> n \<Longrightarrow> journal view (poststate (record_transaction_finished E n) s) m = journal view s m"
proof -
  assume m: "m \<noteq> n"
  have "wp (record_transaction_finished E n) (\<lambda>_ t. journal view t m = journal view s m) s"
    unfolding record_transaction_finished_def
  proof (rule wp_quiet [OF quiet_refl quiet_now], unfold wp_bind wp_return, rule wp_sql)
    fix now t r d
    assume t: "quiet view s t"
    show "view d = view (db_conn t) \<Longrightarrow> journal view (t\<lparr>db_conn := d\<rparr>) m = journal view s m"
      using quiet_journal [OF t] by (simp add: journal_exec)
    assume "view d = fst (sql_exec (view (db_conn t)) (FinishTransaction now n))"
    then show "journal view (t\<lparr>db_conn := d\<rparr>) m = journal view s m"
      using quiet_journal [OF t] m by (simp add: journal_def map_of_map_entry)
  qed
  then show ?thesis by (simp add: wp_run)
qed

end

section \<open>The interface on the store's operations\<close>

text \<open>\<open>out0\<close> is what the caller's buffer holds.\<close>

definition store_start_op :: "'hw worm_api \<Rightarrow> 'db engine \<Rightarrow> tse_transaction \<Rightarrow> string \<times> string \<times> string \<times> string option \<Rightarrow>
    ('db, 'hw) server \<Rightarrow> int option \<times> ('db, 'hw) server" where
  "store_start_op A E out0 a s = (case a of (client, ptype, pdata, ext) \<Rightarrow>
     (let r = run_state (store_start_transaction A E client ptype pdata ext out0) s
      in (map_option tx_number (fst r), snd r)))"

definition store_finish_op :: "'hw worm_api \<Rightarrow> 'db engine \<Rightarrow> tse_transaction \<Rightarrow> int \<Rightarrow> string \<times> string \<times> string \<times> string option \<Rightarrow>
    ('db, 'hw) server \<Rightarrow> bool \<times> ('db, 'hw) server" where
  "store_finish_op A E out0 number a s = (case a of (client, ptype, pdata, ext) \<Rightarrow>
     (let r = run_state (store_finish_transaction A E client number ptype pdata out0 64 256) s
      in (\<not> isl (fst r), snd r)))"

lemma store_journal:
  fixes A :: "'hw worm_api"
  assumes "sqlite_engine E view"
  shows "tx_journal (\<lambda>s. \<not> w_active s) (journal view) open_row same_row (tx_number out0)
    (store_start_op A E out0) (store_finish_op A E out0)"
proof (unfold_locales, goal_cases)
  case (3 s a b t)
  obtain c pt pd e where a: "a = (c, pt, pd, e)" by (cases a)
  note law = sqlite_engine.sim_start_law [OF assms, of c pt pd e out0 s, unfolded wp_run]
  have "b = map_option tx_number (value_of (sim_start_transaction E c pt pd e out0) s)"
    "t = poststate (sim_start_transaction E c pt pd e out0) s"
    using 3 by (auto simp: a store_start_op_def store_start_transaction_def Let_def)
  with 3 law show ?case unfolding started_def by auto
next
  case (4 s n a b t)
  obtain c pt pd e where a: "a = (c, pt, pd, e)" by (cases a)
  note law = sqlite_engine.sim_finish_law [OF assms, of n pt pd out0 64 256 s, unfolded wp_run]
  show ?case
    using 4 law by (auto simp: a store_finish_op_def store_finish_transaction_def finished_def Let_def)
qed (auto simp: same_row_def)

interpretation faulty_journal: tx_journal "\<lambda>s. \<not> w_active s" "journal snd" open_row same_row "tx_number out0"
    "store_start_op A (faulty_exec plan) out0" "store_finish_op A (faulty_exec plan) out0"
  by (rule store_journal) (rule faulty.sqlite_engine_axioms)

interpretation mem_journal: tx_journal "\<lambda>s. \<not> w_active s" "journal (\<lambda>t. t)" open_row same_row "tx_number out0"
    "store_start_op A sql_exec out0" "store_finish_op A sql_exec out0"
  by (rule store_journal) (rule mem.engine.sqlite_engine_axioms)

end
