(* ===== verification/Tse_Frames.thy ===== *)
theory Tse_Frames
  imports Tse_Store
begin

text \<open>
  Frames over the tables: a relation between the tables before and after that every statement of a
  set keeps is kept by every operation that issues only such statements, whatever else it does to
  the device, the clock or the globals (locale \<open>table_frame\<close>, and \<open>store_frame\<close> for the operations
  of the store).
\<close>

section \<open>Steps that do not touch the database\<close>

lemma on_view_modify [frame]:
  "reflp R \<Longrightarrow> (\<And>s. db_conn (f s) = db_conn s) \<Longrightarrow> state_io_rel (on_view view R) (modify f)"
  by (rule io_modify) (auto simp: on_view_def reflp_def)

lemma on_view_calls [frame]:
  "reflp R \<Longrightarrow> state_io_rel (on_view view R) (hw_rc A c)"
  "reflp R \<Longrightarrow> state_io_rel (on_view view R) (hw_handle A c)"
  "reflp R \<Longrightarrow> state_io_rel (on_view view R) (hw_u64 A c)"
  "reflp R \<Longrightarrow> state_io_rel (on_view view R) (hw_bytes A c)"
  "reflp R \<Longrightarrow> state_io_rel (on_view view R) (hw_text A c)"
  "reflp R \<Longrightarrow> state_io_rel (on_view view R) (hw_void A c)"
  by (simp_all add: state_io_rel_def on_view_def reflp_def hw_rc_def hw_handle_def hw_u64_def
      hw_bytes_def hw_text_def hw_void_def)

lemma on_view_locks [frame]:
  "reflp R \<Longrightarrow> state_io_rel (on_view view R) mu_lock"
  "reflp R \<Longrightarrow> state_io_rel (on_view view R) mu_unlock"
  "reflp R \<Longrightarrow> state_io_rel (on_view view R) (worm_client_mark_registered c)"
  by (simp_all add: state_io_rel_def on_view_def reflp_def mu_lock_def mu_unlock_def
      worm_client_mark_registered_def)

lemma on_view_random [frame]:
  "reflp R \<Longrightarrow> state_io_rel (on_view view R) (util_random_base64 n k)"
  "reflp R \<Longrightarrow> state_io_rel (on_view view R) (util_random_hex n k)"
  by (simp_all add: state_io_rel_def on_view_def reflp_def util_random_base64_def util_random_hex_def)

lemma io_txn [frame]:
  "state_io_rel R m \<Longrightarrow> (\<And>h rc. state_io_rel R (f h rc)) \<Longrightarrow>
   state_io_rel R (case r of None \<Rightarrow> m | Some (h, rc) \<Rightarrow> f h rc)"
  by (auto split: option.split)

lemma io_sum [frame]:
  "(\<And>e. state_io_rel R (f e)) \<Longrightarrow> (\<And>x. state_io_rel R (g x)) \<Longrightarrow>
   state_io_rel R (case r of Inl e \<Rightarrow> f e | Inr x \<Rightarrow> g x)"
  by (auto split: sum.split)

lemma io_traverse [frame]:
  "reflp R \<Longrightarrow> transp R \<Longrightarrow> (\<And>x. state_io_rel R (f x)) \<Longrightarrow> state_io_rel R (State_Monad.traverse_list f xs)"
  by (induction xs) (simp_all, (intro frame; simp)+)

section \<open>The device\<close>

locale table_frame = sqlite_engine E view for E :: "'db engine" and view :: "'db \<Rightarrow> tables" +
  fixes Q :: "sql set" and R :: "tables \<Rightarrow> tables \<Rightarrow> bool"
  assumes rel_refl [frame]: "reflp R"
    and rel_trans [frame]: "transp R"
    and rel_keeps: "keeps Q R"
    and settings_in: "setting_writes \<subseteq> Q"

context table_frame begin

abbreviation kept :: "('db, 'hw, 'a, 'r) prog \<Rightarrow> bool" where
  "kept m \<equiv> state_io_rel (on_view view R) m"

lemma kept_sql: "q \<in> Q \<Longrightarrow> state_io_rel (on_view view R) (sql_run E q)"
  using rel_refl rel_keeps by (rule io_run)

lemma kept_settings [frame]:
  "state_io_rel (on_view view R) (db_get_setting E k n)"
  "state_io_rel (on_view view R) (db_set_setting E k v)"
  "state_io_rel (on_view view R) (db_increment_counter E k)"
proof -
  have "keeps setting_writes R" using rel_keeps settings_in by (rule keeps_mono)
  moreover from this have "keeps setting_reads R" by (rule keeps_mono) (auto simp: setting_writes_def)
  ultimately show "state_io_rel (on_view view R) (db_get_setting E k n)"
    "state_io_rel (on_view view R) (db_set_setting E k v)"
    "state_io_rel (on_view view R) (db_increment_counter E k)"
    using rel_refl rel_trans by (auto intro: frame)
qed

lemma kept_with_info [frame]: "(\<And>i. kept (body i)) \<Longrightarrow> kept (with_info A d body)"
  unfolding with_info_def by (intro frame)

lemma kept_queries [frame]:
  "kept (info_get A p i)" "kept (resp_int A p i)" "kept (worm_has_passed_self_test A)"
  "kept (worm_has_valid_time A)" "kept (worm_user_login_call A u pin)" "kept (worm_user_logout_call A u)"
  unfolding info_get_def resp_int_def worm_has_passed_self_test_def worm_has_valid_time_def
    worm_user_login_call_def worm_user_logout_call_def
  by (intro frame)+

lemma kept_device [frame]:
  "kept (register_as_admin A c)" "kept (log_worm_diagnostics A)" "kept (fill_tx_from_response A r)"
  "kept (update_tse_time A)" "kept (tse_worm_log_time_format A)"
  unfolding register_as_admin_def log_worm_diagnostics_def fill_tx_from_response_def update_tse_time_def
    tse_worm_log_time_format_def Let_def
  by (intro frame)+

lemma kept_finish_sync [frame]: "kept (finish_time_sync A rc)"
  unfolding finish_time_sync_def by (intro frame) simp

lemma kept_self_test [frame]: "kept (ensure_self_test_passed A E force)"
  unfolding ensure_self_test_passed_def run_self_test_with_def Let_def by (intro frame)

lemma kept_sync [frame]: "kept (perform_time_sync A E)"
  unfolding perform_time_sync_def Let_def by (intro frame)

lemma kept_recover [frame]: "kept (recover_after_worm_error A E rc)"
  unfolding recover_after_worm_error_def by (intro frame)

lemma kept_register [frame]: "kept (tse_worm_register_client A E c)"
  unfolding tse_worm_register_client_def Let_def by (intro frame)

lemma kept_prepare [frame]:
  "kept (ensure_client_registered A E c)" "kept (prepare_tse A E)" "kept (call_with_retry A E call)"
  unfolding ensure_client_registered_def prepare_tse_def call_with_retry_def by (intro frame)+

lemma kept_start [frame]: "kept (tse_worm_start_transaction A E c n)"
  unfolding tse_worm_start_transaction_def Let_def by (intro frame)

lemma kept_finish [frame]: "kept (tse_worm_finish_transaction A E c num pdata k n)"
  unfolding tse_worm_finish_transaction_def Let_def by (intro frame)

lemma kept_fill_info [frame]: "kept (tse_worm_fill_info A i)"
  unfolding tse_worm_fill_info_def Let_def by (intro frame)

lemma kept_export [frame]: "kept (tse_worm_export_prepare A E)"
  unfolding tse_worm_export_prepare_def renew_for_export_def export_ready_def by (intro frame)

lemma kept_run_export [frame]: "kept (run_export A cb ctx)"
  using rel_refl by (simp add: state_io_rel_def on_view_def reflp_def run_export_def split_beta Let_def)

lemma kept_export_tar [frame]: "kept (tse_worm_export_tar A E cb ctx)"
  unfolding tse_worm_export_tar_def renew_for_export_def by (intro frame)

end

section \<open>The store\<close>

definition store_statements :: "sql set" where
  "store_statements = setting_writes
     \<union> {SelectOpenTransactions, CountClients} \<union> range SelectTransaction
     \<union> {q. \<exists>c now. q = UpsertClient c now} \<union> {q. \<exists>now n. q = FinishTransaction now n}
     \<union> {q. \<exists>n c e pt pd now g sg. q = InsertTransaction n c e pt pd now g sg}
     \<union> {q. \<exists>n c e pt pd now g sg. q = UpsertTransaction n c e pt pd now g sg}
     \<union> {q. \<exists>pt pd now g sg n. q = UpdateTransaction pt pd now g sg n}"

locale store_frame = table_frame +
  assumes store_in: "store_statements \<subseteq> Q"

context store_frame begin

lemma kept_store_sql [frame]: "q \<in> store_statements \<Longrightarrow> state_io_rel (on_view view R) (sql_run E q)"
  using store_in by (intro kept_sql) blast

lemma kept_job [frame]: "kept m \<Longrightarrow> kept (run_job m r)"
  unfolding run_job_def by (intro frame)

lemma kept_load_row [frame]: "kept (load_transaction_row E row)"
  unfolding load_transaction_row_def Let_def by (intro frame)

lemma kept_read_back [frame]: "kept (read_back E n out0)"
  unfolding read_back_def by (intro frame) (simp add: store_statements_def)

lemma kept_register_client [frame]: "kept (store_register_client A E c)"
  unfolding store_register_client_def by (intro frame) (simp add: store_statements_def)

lemma kept_records [frame]:
  "kept (record_transaction_open E tx ext)" "kept (record_transaction_finished E n)"
  unfolding record_transaction_open_def record_transaction_finished_def
  by (intro frame; simp add: store_statements_def)+

lemma kept_list [frame]: "kept (store_list_open_transactions E k)"
  unfolding store_list_open_transactions_def by (intro frame) (simp add: store_statements_def)

lemma kept_sim [frame]:
  "kept (sim_start_transaction E c pt pd ext out0)"
  "kept (sim_close_transaction E tx n pt pd out0)"
  "kept (sim_finish_transaction E n pt pd out0 cl ml)"
  unfolding sim_start_transaction_def sim_close_transaction_def sim_finish_transaction_def
  by (intro frame; simp add: store_statements_def)+

lemma kept_store_start [frame]: "kept (store_start_transaction A E c pt pd ext out0)"
  unfolding store_start_transaction_def Let_def by (intro frame)

lemma kept_store_finish [frame]: "kept (store_finish_transaction A E c n pt pd out0 cl ml)"
  unfolding store_finish_transaction_def by (intro frame)

lemma kept_store_info [frame]: "kept (store_info A E)"
  unfolding store_info_def created_at_text_def Let_def by (intro frame) (simp add: store_statements_def)

end

end
