(* ===== verification/Tse_Fiscal.thy ===== *)
theory Tse_Fiscal
  imports Tse_Journal Tse_Frames
begin

text \<open>
  The journal of \<^verbatim>\<open>c/src/store.c\<close> on a reliable engine: a start and a finish in the simulator
  implement the fiscal journal below exactly; with an active TSE the journal follows the device.  The
  properties of the store are at the end.
\<close>

section \<open>The specification\<close>

text \<open>The fiscal journal: the two counters and the rows.\<close>

record fiscal =
  f_last :: int
  f_signatures :: int
  f_rows :: "int \<Rightarrow> tx_row option"

definition setting_int :: "tables \<Rightarrow> string \<Rightarrow> int" where
  "setting_int t k = (case map_of (t_settings t) k of Some v \<Rightarrow> atoll v | None \<Rightarrow> 0)"

definition fiscal_of :: "tables \<Rightarrow> fiscal" where
  "fiscal_of t = \<lparr>f_last = setting_int t ''transaction_counter'',
     f_signatures = setting_int t ''signature_counter'', f_rows = map_of (t_transactions t)\<rparr>"

text \<open>Both counters hold the text of a number that can still grow, and no row is past the last number.\<close>

definition counter_at :: "tables \<Rightarrow> string \<Rightarrow> int \<Rightarrow> bool" where
  "counter_at t k c \<longleftrightarrow> map_of (t_settings t) k = Some (show_int c) \<and> 0 \<le> c \<and> c < 2 ^ 63 - 1"

definition fiscal_inv :: "tables \<Rightarrow> bool" where
  "fiscal_inv t \<longleftrightarrow> t_schema t
     \<and> counter_at t ''transaction_counter'' (setting_int t ''transaction_counter'')
     \<and> counter_at t ''signature_counter'' (setting_int t ''signature_counter'')
     \<and> (\<forall>n x. map_of (t_transactions t) n = Some x \<longrightarrow> n \<le> setting_int t ''transaction_counter'')"

definition fiscal_start :: "string \<Rightarrow> string option \<Rightarrow> string \<Rightarrow> string \<Rightarrow> string \<Rightarrow> string \<Rightarrow> fiscal \<Rightarrow> fiscal" where
  "fiscal_start client ext ptype pdata now sig f =
     f\<lparr>f_last := f_last f + 1, f_signatures := f_signatures f + 1,
       f_rows := (f_rows f)(f_last f + 1 \<mapsto> new_tx client ext ptype pdata now (f_signatures f + 1) sig)\<rparr>"

definition close_row :: "string \<Rightarrow> string \<Rightarrow> string \<Rightarrow> int \<Rightarrow> string \<Rightarrow> tx_row \<Rightarrow> tx_row" where
  "close_row ptype pdata now sigc sig x =
     x\<lparr>x_process_type := if ptype \<noteq> [] then ptype else fit 512 (x_process_type x),
       x_process_data := if pdata \<noteq> [] then pdata else fit 4096 (x_process_data x),
       x_state := ''FINISHED'', x_time_end := Some now, x_signature_counter := sigc, x_signature_value := sig\<rparr>"

definition fiscal_finish :: "int \<Rightarrow> string \<Rightarrow> string \<Rightarrow> string \<Rightarrow> string \<Rightarrow> fiscal \<Rightarrow> fiscal option" where
  "fiscal_finish n ptype pdata now sig f =
     (case f_rows f n of
        Some x \<Rightarrow> if open_row x
          then Some (f\<lparr>f_signatures := f_signatures f + 1,
                 f_rows := (f_rows f)(n \<mapsto> close_row ptype pdata now (f_signatures f + 1) sig x)\<rparr>)
          else None
      | None \<Rightarrow> None)"

text \<open>What the caller sees of a row.\<close>

definition row_tx :: "string \<Rightarrow> int \<times> tx_row \<Rightarrow> tse_transaction" where
  "row_tx serial p = (case p of (n, x) \<Rightarrow>
     \<lparr>tx_number = n, tx_client_id = fit 256 (x_client x),
      tx_external_id = (case x_external x of Some e \<Rightarrow> fit 256 e | None \<Rightarrow> []),
      tx_process_type = fit 512 (x_process_type x), tx_process_data = fit 4096 (x_process_data x),
      tx_state = fit 32 (x_state x), tx_time_start = fit 64 (x_time_start x),
      tx_time_end = (case x_time_end x of Some e \<Rightarrow> fit 64 e | None \<Rightarrow> []),
      tx_signature_counter = x_signature_counter x, tx_signature_value = fit 256 (x_signature_value x),
      tx_serial_number = serial\<rparr>)"

definition serial_of :: "('db \<Rightarrow> tables) \<Rightarrow> ('db, 'hw, 'x) server_scheme \<Rightarrow> string" where
  "serial_of view s = store_normalize_serial (Some (case map_of (t_settings (view (db_conn s))) ''tse_serial'' of
       Some v \<Rightarrow> fit 128 v | None \<Rightarrow> w_stack s ''serial_buf'')) 128"

text \<open>The clock and the entropy the next operation reads.\<close>

definition clock_text :: "('a, 'b) dbs_scheme \<Rightarrow> string" where
  "clock_text s = iso_time (gmtime (os_time s (os_ticks s)))"

definition has_entropy :: "('a, 'b) dbs_scheme \<Rightarrow> bool" where
  "has_entropy s \<longleftrightarrow> (\<exists>bs. os_urandom s (os_draws s) 32 = Some bs \<and> length bs = 32)"

definition next_signature :: "('a, 'b) dbs_scheme \<Rightarrow> string" where
  "next_signature s = b64_groups (the (os_urandom s (os_draws s) 32))"

lemma run_random_signature:
  "has_entropy s \<Longrightarrow> run_state (util_random_base64 128 32) s = (Some (next_signature s), s\<lparr>os_draws := Suc (os_draws s)\<rparr>)"
  by (auto simp: has_entropy_def next_signature_def util_random_base64_def)

section \<open>Runs on a reliable engine\<close>

lemma fiscal_simps:
  "setting_int (t\<lparr>t_settings := AList.update k (show_int c) (t_settings t)\<rparr>) j
    = (if j = k then atoll (show_int c) else setting_int t j)"
  "setting_int (t\<lparr>t_transactions := x\<rparr>) j = setting_int t j"
  by (auto simp: setting_int_def update_conv')

context sqlite_reliable begin

lemma post_get_setting: "t_schema (tbl s) \<Longrightarrow> \<exists>d. run_state (db_get_setting E k n) s =
    (map_option (fit n) (map_of (t_settings (tbl s)) k), s\<lparr>db_conn := d\<rparr>) \<and> view d = tbl s"
  using value_db_get_setting [of s k n] tbl_db_get_setting [of k n s]
  by (auto simp: db_get_setting_def prod_eq_iff)

lemma run_load_row:
  fixes s :: "('db, 'hw, 'x) server_scheme"
  assumes "t_schema (tbl s)"
  shows "\<exists>d. run_state (load_transaction_row E (tx_columns p)) s = (row_tx (serial_of view s) p, s\<lparr>db_conn := d\<rparr>)
    \<and> view d = tbl s"
proof -
  obtain n x where p: "p = (n, x)" by (cases p)
  obtain d where "run_state (db_get_setting E ''tse_serial'' 128) s =
      (map_option (fit 128) (map_of (t_settings (tbl s)) ''tse_serial''), s\<lparr>db_conn := d\<rparr>)" "view d = tbl s"
    using post_get_setting [OF assms] by blast
  then show ?thesis
    by (intro exI [of _ d])
      (simp add: load_transaction_row_def row_tx_def tx_columns_def p column_text_def column_int64_def
        opt_text_def serial_of_def Let_def split: option.split)
qed

lemma run_sql_exact:
  "\<exists>d. run_state (sql_run E q) s = (snd (sql_exec (tbl s) q), s\<lparr>db_conn := d\<rparr>) \<and> view d = fst (sql_exec (tbl s) q)"
  by (intro exI [of _ "fst (E (db_conn s) q)"]) (simp add: exact)

lemma run_increment:
  assumes "t_schema (tbl s)" "counter_at (tbl s) k c"
  shows "\<exists>d. run_state (db_increment_counter E k) s = (c + 1, s\<lparr>db_conn := d\<rparr>)
    \<and> view d = (tbl s)\<lparr>t_settings := AList.update k (show_int (c + 1)) (t_settings (tbl s))\<rparr>"
proof -
  have "\<exists>d. poststate (db_increment_counter E k) s = s\<lparr>db_conn := d\<rparr>"
    by (simp add: db_increment_counter_def db_get_setting_def db_set_setting_def Let_def split_beta) blast
  moreover have "c + 1 < 2 ^ 63" using assms(2) by (simp add: counter_at_def)
  ultimately show ?thesis
    using run_db_increment_counter [OF assms(1), of k c] assms(2)
    by (auto simp: counter_at_def prod_eq_iff)
qed

lemma run_read_back:
  fixes s :: "('db, 'hw, 'x) server_scheme"
  assumes "t_schema (tbl s)" "map_of (t_transactions (tbl s)) n = Some x"
  shows "\<exists>d. run_state (read_back E n out0) s = (Some (row_tx (serial_of view s) (n, x)), s\<lparr>db_conn := d\<rparr>)
    \<and> view d = tbl s"
proof -
  obtain d where d: "run_state (sql_run E (SelectTransaction n)) s = (Rows [tx_columns (n, x)], s\<lparr>db_conn := d\<rparr>)"
    "view d = tbl s" using run_sql_exact [of "SelectTransaction n" s] assms by auto
  obtain d' where "run_state (load_transaction_row E (tx_columns (n, x))) (s\<lparr>db_conn := d\<rparr>)
      = (row_tx (serial_of view (s\<lparr>db_conn := d\<rparr>)) (n, x), s\<lparr>db_conn := d\<rparr>\<lparr>db_conn := d'\<rparr>)" "view d' = view d"
    using run_load_row [of "s\<lparr>db_conn := d\<rparr>" "(n, x)"] assms(1) d(2) by auto
  moreover have "serial_of view (s\<lparr>db_conn := d\<rparr>) = serial_of view s"
    using d(2) by (simp add: serial_of_def cong: option.case_cong)
  ultimately show ?thesis
    using d by (intro exI [of _ d']) (simp add: read_back_def result_rows_def)
qed

text \<open>A started transaction, exactly.\<close>

lemma run_sim_start:
  fixes s :: "('db, 'hw, 'x) server_scheme"
  assumes inv: "fiscal_inv (tbl s)" and ent: "has_entropy s"
  defines "f \<equiv> fiscal_of (tbl s)"
  shows "\<exists>d. run_state (sim_start_transaction E c pt pd ext out0) s
      = (Some (row_tx (serial_of view s) (f_last f + 1,
           new_tx c (external_or_null ext) pt pd (clock_text s) (f_signatures f + 1) (next_signature s))),
         s\<lparr>os_ticks := Suc (os_ticks s), os_draws := Suc (os_draws s), db_conn := d\<rparr>)
    \<and> fiscal_of (view d) = fiscal_start c (external_or_null ext) pt pd (clock_text s) (next_signature s) f
    \<and> (f_last f < 2 ^ 63 - 2 \<and> f_signatures f < 2 ^ 63 - 2 \<longrightarrow> fiscal_inv (view d))"
proof -
  let ?tc = "''transaction_counter''" and ?sc = "''signature_counter''"
  define n where "n = f_last f" define g where "g = f_signatures f"
  have base: "t_schema (tbl s)" "counter_at (tbl s) ?tc n" "counter_at (tbl s) ?sc g"
      "map_of (t_transactions (tbl s)) (n + 1) = None"
    using inv by (force simp: fiscal_inv_def n_def g_def f_def fiscal_of_def)+
  obtain d1 where d1: "run_state (db_increment_counter E ?tc) s = (n + 1, s\<lparr>db_conn := d1\<rparr>)"
    "view d1 = (tbl s)\<lparr>t_settings := AList.update ?tc (show_int (n + 1)) (t_settings (tbl s))\<rparr>"
    using run_increment [OF base(1,2)] by blast
  have c1: "t_schema (view d1)" "counter_at (view d1) ?sc g"
    using base by (simp_all add: d1(2) counter_at_def update_conv')
  obtain d2 where d2: "run_state (db_increment_counter E ?sc) (s\<lparr>db_conn := d1\<rparr>) = (g + 1, s\<lparr>db_conn := d2\<rparr>)"
    "view d2 = (view d1)\<lparr>t_settings := AList.update ?sc (show_int (g + 1)) (t_settings (view d1))\<rparr>"
    using run_increment [of "s\<lparr>db_conn := d1\<rparr>" ?sc g] c1 by auto
  let ?x = "new_tx c (external_or_null ext) pt pd (clock_text s) (g + 1) (next_signature s)"
  let ?s2 = "s\<lparr>os_ticks := Suc (os_ticks s), os_draws := Suc (os_draws s), db_conn := d2\<rparr>"
  let ?q = "InsertTransaction (n + 1) c (external_or_null ext) pt pd (clock_text s) (g + 1) (next_signature s)"
  obtain d3 where d3: "run_state (sql_run E ?q) ?s2 = (Done, ?s2\<lparr>db_conn := d3\<rparr>)"
    "view d3 = (view d2)\<lparr>t_transactions := AList.update (n + 1) ?x (t_transactions (view d2))\<rparr>"
    using run_sql_exact [of ?q ?s2] base(1,4) by (auto simp: d2(2) d1(2))
  obtain d4 where d4: "run_state (read_back E (n + 1) out0) (?s2\<lparr>db_conn := d3\<rparr>)
      = (Some (row_tx (serial_of view (?s2\<lparr>db_conn := d3\<rparr>)) (n + 1, ?x)), ?s2\<lparr>db_conn := d3\<rparr>\<lparr>db_conn := d4\<rparr>)"
    "view d4 = view d3"
    using run_read_back [of "?s2\<lparr>db_conn := d3\<rparr>" "n + 1" ?x] base(1) by (auto simp: d3(2) d2(2) d1(2) update_conv')
  have serial: "serial_of view (?s2\<lparr>db_conn := d3\<rparr>) = serial_of view s"
    by (simp add: serial_of_def d3(2) d2(2) d1(2) update_conv' cong: option.case_cong)
  have "run_state (util_random_base64 128 32) (s\<lparr>db_conn := d2, os_ticks := Suc (os_ticks s)\<rparr>)
      = (Some (next_signature s), s\<lparr>db_conn := d2, os_ticks := Suc (os_ticks s), os_draws := Suc (os_draws s)\<rparr>)"
    using run_random_signature [of "s\<lparr>db_conn := d2, os_ticks := Suc (os_ticks s)\<rparr>"] ent
    by (simp add: has_entropy_def next_signature_def)
  then have "run_state (sim_start_transaction E c pt pd ext out0) s
      = (Some (row_tx (serial_of view s) (n + 1, ?x)), ?s2\<lparr>db_conn := d4\<rparr>)"
    using d1(1) d2(1) d3(1) d4(1) serial
    by (simp add: sim_start_transaction_def clock_text_def)
  moreover have "fiscal_of (view d4) = fiscal_start c (external_or_null ext) pt pd (clock_text s) (next_signature s) f"
  proof -
    have "atoll (show_int (n + 1)) = n + 1" "atoll (show_int (g + 1)) = g + 1"
      using base by (simp_all add: counter_at_def)
    then show ?thesis
      by (simp add: fiscal_of_def fiscal_start_def d4(2) d3(2) d2(2) d1(2) fiscal_simps update_conv'
          setting_int_def flip: n_def g_def) (simp add: f_def fiscal_of_def)
  qed
  moreover have "fiscal_inv (view d4)" if "n < 2 ^ 63 - 2" "g < 2 ^ 63 - 2"
  proof -
    have "m \<le> n" if "map_of (t_transactions (tbl s)) m = Some y" for m y
      using inv that by (auto simp: fiscal_inv_def n_def f_def fiscal_of_def)
    then show ?thesis
      using base that
      by (auto simp: fiscal_inv_def counter_at_def setting_int_def d4(2) d3(2) d2(2) d1(2) update_conv'
          split: if_splits) force
  qed
  ultimately show ?thesis
    by (intro exI [of _ d4]) (simp add: n_def g_def)
qed

lemma sim_finish_missing:
  fixes s :: "('db, 'hw, 'x) server_scheme"
  assumes "t_schema (tbl s)" "fiscal_finish n pt pd now sg (fiscal_of (tbl s)) = None"
  shows "\<exists>d. run_state (sim_finish_transaction E n pt pd out0 cl ml) s
      = (Inl (no_transaction_error cl ml), s\<lparr>db_conn := d\<rparr>) \<and> view d = tbl s"
proof -
  obtain d where d: "run_state (sql_run E (SelectTransaction n)) s
      = (snd (sql_exec (tbl s) (SelectTransaction n)), s\<lparr>db_conn := d\<rparr>)" "view d = tbl s"
    using run_sql_exact [of "SelectTransaction n" s] by auto
  show ?thesis
  proof (cases "map_of (t_transactions (tbl s)) n")
    case None
    then show ?thesis
      using d assms(1) by (intro exI [of _ d]) (simp add: sim_finish_transaction_def result_rows_def)
  next
    case (Some x)
    then have "x_state x \<noteq> ''ACTIVE''"
      using assms(2) by (auto simp: fiscal_finish_def fiscal_of_def open_row_def split: if_splits)
    then have st: "tx_state (row_tx sr (n, x)) \<noteq> ''ACTIVE''" for sr
      by (simp add: row_tx_def fit_ACTIVE)
    obtain d' where d': "run_state (load_transaction_row E (tx_columns (n, x))) (s\<lparr>db_conn := d\<rparr>)
        = (row_tx (serial_of view (s\<lparr>db_conn := d\<rparr>)) (n, x), s\<lparr>db_conn := d\<rparr>\<lparr>db_conn := d'\<rparr>)" "view d' = view d"
      using run_load_row [of "s\<lparr>db_conn := d\<rparr>" "(n, x)"] assms(1) d(2) by auto
    show ?thesis
      using d d' st Some assms(1) by (intro exI [of _ d']) (simp add: sim_finish_transaction_def result_rows_def)
  qed
qed

lemma run_sim_close:
  fixes s :: "('db, 'hw, 'x) server_scheme" and pt pd :: string
  assumes inv: "fiscal_inv (tbl s)" and ent: "has_entropy s"
    and x: "map_of (t_transactions (tbl s)) n = Some x"
  defines "f \<equiv> fiscal_of (tbl s)"
  defines "y \<equiv> close_row pt pd (clock_text s) (f_signatures f + 1) (next_signature s) x"
  shows "\<exists>d. run_state (sim_close_transaction E (row_tx serial (n, x)) n pt pd out0) s
      = (Inr (row_tx (serial_of view s) (n, y)),
         s\<lparr>os_ticks := Suc (os_ticks s), os_draws := Suc (os_draws s), db_conn := d\<rparr>)
    \<and> fiscal_of (view d) = f\<lparr>f_signatures := f_signatures f + 1, f_rows := (f_rows f)(n \<mapsto> y)\<rparr>
    \<and> (f_signatures f < 2 ^ 63 - 2 \<longrightarrow> fiscal_inv (view d))"
proof -
  let ?sc = "''signature_counter''"
  define g where "g = f_signatures f"
  have base: "t_schema (tbl s)" "counter_at (tbl s) ?sc g"
    using inv by (auto simp: fiscal_inv_def g_def f_def fiscal_of_def)
  obtain d2 where d2: "run_state (db_increment_counter E ?sc) s = (g + 1, s\<lparr>db_conn := d2\<rparr>)"
    "view d2 = (tbl s)\<lparr>t_settings := AList.update ?sc (show_int (g + 1)) (t_settings (tbl s))\<rparr>"
    using run_increment [OF base] by blast
  let ?s2 = "s\<lparr>os_ticks := Suc (os_ticks s), os_draws := Suc (os_draws s), db_conn := d2\<rparr>"
  let ?q = "UpdateTransaction (x_process_type y) (x_process_data y) (clock_text s) (g + 1) (next_signature s) n"
  obtain d3 where d3: "run_state (sql_run E ?q) ?s2 = (Done, ?s2\<lparr>db_conn := d3\<rparr>)"
    "view d3 = fst (sql_exec (view d2) ?q)"
    using run_sql_exact [of ?q ?s2] base(1) by (auto simp: d2(2))
  have rows: "map_of (t_transactions (view d3)) = (map_of (t_transactions (tbl s)))(n \<mapsto> y)"
    using x base(1) by (auto simp: d3(2) d2(2) map_of_map_entry fun_eq_iff y_def close_row_def g_def)
  have rest: "t_schema (view d3)" "t_settings (view d3) = AList.update ?sc (show_int (g + 1)) (t_settings (tbl s))"
    using base(1) by (simp_all add: d3(2) d2(2))
  obtain d4 where d4: "run_state (read_back E n out0) (?s2\<lparr>db_conn := d3\<rparr>)
      = (Some (row_tx (serial_of view (?s2\<lparr>db_conn := d3\<rparr>)) (n, y)), ?s2\<lparr>db_conn := d3\<rparr>\<lparr>db_conn := d4\<rparr>)"
    "view d4 = view d3"
    using run_read_back [of "?s2\<lparr>db_conn := d3\<rparr>" n y] rest(1) rows by auto
  have serial: "serial_of view (?s2\<lparr>db_conn := d3\<rparr>) = serial_of view s"
    by (simp add: serial_of_def rest update_conv' cong: option.case_cong)
  have rnd: "run_state (util_random_base64 128 32) (s\<lparr>db_conn := d2, os_ticks := Suc (os_ticks s)\<rparr>)
      = (Some (next_signature s), s\<lparr>db_conn := d2, os_ticks := Suc (os_ticks s), os_draws := Suc (os_draws s)\<rparr>)"
    using run_random_signature [of "s\<lparr>db_conn := d2, os_ticks := Suc (os_ticks s)\<rparr>"] ent
    by (simp add: has_entropy_def next_signature_def)
  have "x_process_type y = (if pt \<noteq> [] then pt else tx_process_type (row_tx serial (n, x)))"
    "x_process_data y = (if pd \<noteq> [] then pd else tx_process_data (row_tx serial (n, x)))"
    by (simp_all add: y_def close_row_def row_tx_def)
  then have "run_state (sim_close_transaction E (row_tx serial (n, x)) n pt pd out0) s
      = (Inr (row_tx (serial_of view s) (n, y)), ?s2\<lparr>db_conn := d4\<rparr>)"
    using d2(1) d3(1) d4(1) serial rnd
    by (simp add: sim_close_transaction_def clock_text_def del: sql_exec.simps)
  moreover have "fiscal_of (view d4) = f\<lparr>f_signatures := g + 1, f_rows := (f_rows f)(n \<mapsto> y)\<rparr>"
  proof -
    have "atoll (show_int (g + 1)) = g + 1" using base by (simp add: counter_at_def)
    then show ?thesis
      by (simp add: fiscal_of_def d4(2) rest rows update_conv' setting_int_def f_def)
  qed
  moreover have "fiscal_inv (view d4)" if "g < 2 ^ 63 - 2"
    using inv base that x
    by (auto simp: fiscal_inv_def counter_at_def setting_int_def d4(2) rest rows update_conv' split: if_splits)
  ultimately show ?thesis
    by (intro exI [of _ d4]) (simp add: g_def)
qed

lemma run_load_rows:
  fixes s :: "('db, 'hw, 'x) server_scheme"
  shows "t_schema (tbl s) \<Longrightarrow>
    \<exists>d. run_state (State_Monad.traverse_list (load_transaction_row E) (map tx_columns ps)) s
      = (map (row_tx (serial_of view s)) ps, s\<lparr>db_conn := d\<rparr>) \<and> view d = tbl s"
proof (induction ps arbitrary: s)
  case Nil
  show ?case by (intro exI [of _ "db_conn s"]) simp
next
  case (Cons p ps)
  obtain d where d: "run_state (load_transaction_row E (tx_columns p)) s = (row_tx (serial_of view s) p, s\<lparr>db_conn := d\<rparr>)"
    "view d = tbl s" using run_load_row [OF Cons.prems] by blast
  have serial: "serial_of view (s\<lparr>db_conn := d\<rparr>) = serial_of view s"
    using d(2) by (simp add: serial_of_def cong: option.case_cong)
  obtain d' where "run_state (State_Monad.traverse_list (load_transaction_row E) (map tx_columns ps)) (s\<lparr>db_conn := d\<rparr>)
      = (map (row_tx (serial_of view s)) ps, s\<lparr>db_conn := d\<rparr>\<lparr>db_conn := d'\<rparr>)" "view d' = view d"
    using Cons.IH [of "s\<lparr>db_conn := d\<rparr>"] Cons.prems d(2) serial by auto
  then show ?case using d by (intro exI [of _ d']) simp
qed

lemma run_sim_finish:
  fixes s :: "('db, 'hw, 'x) server_scheme" and pt pd :: string
  assumes inv: "fiscal_inv (tbl s)" and ent: "has_entropy s"
    and fin: "fiscal_finish n pt pd (clock_text s) (next_signature s) (fiscal_of (tbl s)) = Some f'"
  shows "\<exists>d y. run_state (sim_finish_transaction E n pt pd out0 cl ml) s
      = (Inr (row_tx (serial_of view s) (n, y)),
         s\<lparr>os_ticks := Suc (os_ticks s), os_draws := Suc (os_draws s), db_conn := d\<rparr>)
    \<and> f_rows f' n = Some y \<and> fiscal_of (view d) = f'
    \<and> (f_signatures (fiscal_of (tbl s)) < 2 ^ 63 - 2 \<longrightarrow> fiscal_inv (view d))"
proof -
  from fin obtain x where x: "map_of (t_transactions (tbl s)) n = Some x" "open_row x"
    by (auto simp: fiscal_finish_def fiscal_of_def split: option.splits if_splits)
  have schema: "t_schema (tbl s)" using inv by (simp add: fiscal_inv_def)
  obtain d where d: "run_state (sql_run E (SelectTransaction n)) s = (Rows [tx_columns (n, x)], s\<lparr>db_conn := d\<rparr>)"
    "view d = tbl s" using run_sql_exact [of "SelectTransaction n" s] schema x by auto
  let ?s1 = "s\<lparr>db_conn := d\<rparr>"
  obtain d' where d': "run_state (load_transaction_row E (tx_columns (n, x))) ?s1
      = (row_tx (serial_of view ?s1) (n, x), ?s1\<lparr>db_conn := d'\<rparr>)" "view d' = view d"
    using run_load_row [of ?s1 "(n, x)"] schema d(2) by auto
  let ?s2 = "s\<lparr>db_conn := d'\<rparr>"
  have same: "serial_of view ?s2 = serial_of view s" "clock_text ?s2 = clock_text s"
    "next_signature ?s2 = next_signature s" "has_entropy ?s2 = has_entropy s"
    using d(2) d'(2) by (simp_all add: serial_of_def clock_text_def next_signature_def has_entropy_def cong: option.case_cong)
  let ?f = "fiscal_of (tbl s)"
  let ?y = "close_row pt pd (clock_text s) (f_signatures ?f + 1) (next_signature s) x"
  obtain d2 where close: "run_state (sim_close_transaction E (row_tx (serial_of view ?s1) (n, x)) n pt pd out0) ?s2
      = (Inr (row_tx (serial_of view s) (n, ?y)),
         ?s2\<lparr>os_ticks := Suc (os_ticks s), os_draws := Suc (os_draws s), db_conn := d2\<rparr>)"
    "fiscal_of (view d2) = ?f\<lparr>f_signatures := f_signatures ?f + 1, f_rows := (f_rows ?f)(n \<mapsto> ?y)\<rparr>"
    "f_signatures ?f < 2 ^ 63 - 2 \<longrightarrow> fiscal_inv (view d2)"
    using run_sim_close [where s = ?s2 and n = n and x = x and pt = pt and pd = pd and serial = "serial_of view ?s1"
      and ?out0.0 = out0] inv ent x d(2) d'(2) same by auto
  have "tx_state (row_tx (serial_of view ?s1) (n, x)) = ''ACTIVE''"
    using x(2) by (simp add: row_tx_def open_row_def fit_def)
  then have "run_state (sim_finish_transaction E n pt pd out0 cl ml) s
      = (Inr (row_tx (serial_of view s) (n, ?y)),
         s\<lparr>os_ticks := Suc (os_ticks s), os_draws := Suc (os_draws s), db_conn := d2\<rparr>)"
    using d(1) d'(1) close(1) by (simp add: sim_finish_transaction_def result_rows_def)
  moreover have "f' = ?f\<lparr>f_signatures := f_signatures ?f + 1, f_rows := (f_rows ?f)(n \<mapsto> ?y)\<rparr>"
    using fin x by (simp add: fiscal_finish_def fiscal_of_def)
  ultimately show ?thesis
    using close(2,3) by (intro exI [of _ d2] exI [of _ ?y]) simp
qed

end

section \<open>Hardware mode\<close>

text \<open>The operations of the TSE client leave the journal alone.\<close>

definition same_rows :: "tables \<Rightarrow> tables \<Rightarrow> bool" where
  "same_rows t t' \<longleftrightarrow> t_transactions t' = t_transactions t"

lemma on_view_same_rows: "on_view view same_rows s t \<Longrightarrow> journal view t = journal view s"
  by (simp add: on_view_def same_rows_def journal_def)

sublocale sqlite_engine \<subseteq> device: table_frame E view "{q. no_journal q}" same_rows
proof
  show "reflp same_rows" "transp same_rows" by (auto simp: same_rows_def intro!: reflpI transpI)
  show "keeps {q. no_journal q} same_rows" by (simp add: keeps_def same_rows_def no_journal_def)
  show "setting_writes \<subseteq> {q. no_journal q}" by (auto simp: setting_writes_def setting_reads_def)
qed

context sqlite_engine begin

lemma device_journal:
  "journal view (poststate (tse_worm_start_transaction A E c k) s) = journal view s"
  "journal view (poststate (tse_worm_finish_transaction A E c n pd cl ml) s) = journal view s"
  using io_poststateD [OF device.kept_start] io_poststateD [OF device.kept_finish]
  by (blast intro: on_view_same_rows)+

end

section \<open>Properties\<close>

text \<open>A simulator with empty tables for the examples.\<close>

definition sim_tables :: tables where
  "sim_tables = fresh_tables\<lparr>t_settings := [(''transaction_counter'', show_int 0), (''signature_counter'', show_int 0)]\<rparr>"

definition sim_server :: "(tables, unit) server" where
  "sim_server = sample_server\<lparr>w_active := False, db_conn := sim_tables,
     os_urandom := (\<lambda>_ n. Some (replicate n 7))\<rparr>"

lemma sim_server_ready:
  "fiscal_inv (db_conn sim_server)" "has_entropy sim_server" "\<not> w_active sim_server"
  "f_last (fiscal_of (db_conn sim_server)) = 0" "f_rows (fiscal_of (db_conn sim_server)) n = None"
  "t_schema (db_conn sim_server)" "t_transactions (db_conn sim_server) = []"
proof -
  have "atoll (show_int 0) = 0" by (rule atoll_show_int) simp_all
  then show "fiscal_inv (db_conn sim_server)" "has_entropy sim_server" "\<not> w_active sim_server"
    "f_last (fiscal_of (db_conn sim_server)) = 0" "f_rows (fiscal_of (db_conn sim_server)) n = None"
    "t_schema (db_conn sim_server)" "t_transactions (db_conn sim_server) = []"
    by (simp_all add: fiscal_inv_def counter_at_def setting_int_def has_entropy_def sim_server_def sim_tables_def
        fresh_tables_def fiscal_of_def)
qed

text \<open>
  C6. While the simulator signs, a transaction is finished at most once: in any sequence of starts and
  finishes with no active TSE, whatever statements of the database fail, a number is reported finished
  at most once, and a transaction that was already finished is never finished again nor changed.
\<close>

theorem finished_once:
  assumes "sqlite_engine E view" and "\<not> w_active s"
    and "run_history (store_start_op A E out0) (store_finish_op A E out0) ops s = (log, t)"
  shows "finishes n log \<le> 1
    \<and> (journal view s n = Some x \<and> \<not> open_row x \<longrightarrow> finishes n log = 0 \<and> journal view t n = Some x)"
proof -
  note J = store_journal [OF assms(1), of out0 A]
  show ?thesis
    using tx_journal.finish_once [OF J assms(2,3), of n] tx_journal.history_extends [OF J assms(2,3)]
    by (auto simp: tx_journal.extends_def [OF J] split: option.splits if_splits)
qed

theorem finished_once_witness:
  "finishes 1 (fst (run_history (store_start_op sample_api sql_exec blank_transaction)
     (store_finish_op sample_api sql_exec blank_transaction)
     [Op_start (''till'', [], [], None), Op_finish 1 (''till'', [], [], None), Op_finish 1 (''till'', [], [], None)]
     sim_server)) \<le> 1"
  using finished_once [OF mem.engine.sqlite_engine_axioms sim_server_ready(3) surjective_pairing]
  by (simp del: run_history.simps)

text \<open>
  C7. While the simulator signs, numbers are never reused and transactions never lost: in any sequence
  of starts and finishes with no active TSE, whatever statements fail, every reported start added a
  row; the numbers the starts report are all different, were not in use before and are in the journal
  at the end, but for a start whose row could not be read back, which reports the number its caller's
  buffer held; and every transaction that was there keeps its client, external id and start time.
\<close>

theorem numbers_never_reused:
  assumes "sqlite_engine E view" and "\<not> w_active s"
    and "run_history (store_start_op A E out0) (store_finish_op A E out0) ops s = (log, t)"
  shows "length (started_numbers log) + card (dom (journal view s)) \<le> card (dom (journal view t))
    \<and> distinct (filter (\<lambda>m. m \<noteq> tx_number out0) (started_numbers log))
    \<and> (\<forall>m \<in> set (started_numbers log). m \<noteq> tx_number out0 \<longrightarrow> journal view s m = None \<and> journal view t m \<noteq> None)
    \<and> (journal view s n = Some x \<longrightarrow> (\<exists>y. journal view t n = Some y \<and> same_row x y))"
proof -
  note J = store_journal [OF assms(1), of out0 A]
  have "finite (dom (journal view s))" by (simp add: journal_def finite_dom_map_of)
  moreover have "\<exists>y. journal view t n = Some y \<and> same_row x y" if "journal view s n = Some x"
    using tx_journal.history_extends [OF J assms(2,3)] that unfolding tx_journal.extends_def [OF J] by blast
  ultimately show ?thesis
    using tx_journal.starts_counted [OF J assms(2,3)] tx_journal.starts_distinct [OF J assms(2,3)] by blast
qed

theorem numbers_never_reused_witness:
  "distinct (filter (\<lambda>m. m \<noteq> 0) (started_numbers (fst (run_history (store_start_op sample_api sql_exec blank_transaction)
     (store_finish_op sample_api sql_exec blank_transaction)
     [Op_start (''till'', [], [], None), Op_start (''till'', [], [], None)] sim_server))))"
  using numbers_never_reused [OF mem.engine.sqlite_engine_axioms sim_server_ready(3) surjective_pairing,
      of sample_api blank_transaction "[Op_start (''till'', [], [], None), Op_start (''till'', [], [], None)]"]
  by (simp add: blank_transaction_def del: run_history.simps)

text \<open>
  C9. A start in the simulator implements the fiscal journal: on a reliable database with entropy it
  reports the transaction with the next number, the next signature counter and the fresh signature,
  active and signed at the current time; the tables then hold exactly the journal with that row
  added, and satisfy the invariant again.
\<close>

theorem sim_start_refines:
  fixes s :: "('db, 'hw) server"
  assumes "sqlite_reliable E view" and "\<not> w_active s" and "fiscal_inv (view (db_conn s))" and "has_entropy s"
  shows "let f = fiscal_of (view (db_conn s)); r = run_state (store_start_transaction A E c pt pd ext out0) s;
         t' = view (db_conn (snd r)) in
    fst r = Some (row_tx (serial_of view s) (f_last f + 1, new_tx c (external_or_null ext) pt pd (clock_text s)
              (f_signatures f + 1) (next_signature s)))
    \<and> fiscal_of t' = fiscal_start c (external_or_null ext) pt pd (clock_text s) (next_signature s) f
    \<and> (f_last f < 2 ^ 63 - 2 \<and> f_signatures f < 2 ^ 63 - 2 \<longrightarrow> fiscal_inv t')"
  using sqlite_reliable.run_sim_start [OF assms(1,3,4), of c pt pd ext out0] assms(2)
  by (auto simp: store_start_transaction_def Let_def)

theorem sim_start_refines_witness:
  "\<exists>tx. value_of (store_start_transaction sample_api sql_exec ''till'' [] [] None blank_transaction) sim_server = Some tx
    \<and> tx_number tx = 1 \<and> tx_state tx = ''ACTIVE''"
  using sim_start_refines [OF mem.sqlite_reliable_axioms, of sim_server] sim_server_ready
  by (simp add: Let_def row_tx_def new_tx_def fit_def)

text \<open>
  C10. A finish in the simulator implements the fiscal journal: when the number names an active row, it
  reports that row closed with the next signature counter and a fresh signature, and the tables hold
  exactly the journal with that row closed; otherwise it reports \<^verbatim>\<open>ErrorNoTransaction\<close> and the
  tables are unchanged.
\<close>

theorem sim_finish_refines:
  fixes s :: "('db, 'hw) server"
  assumes "sqlite_reliable E view" and "\<not> w_active s" and "fiscal_inv (view (db_conn s))" and "has_entropy s"
  shows "let f = fiscal_of (view (db_conn s)); r = run_state (store_finish_transaction A E c n pt pd out0 cl ml) s;
         t' = view (db_conn (snd r)) in
    (case fiscal_finish n pt pd (clock_text s) (next_signature s) f of
       None \<Rightarrow> fst r = Inl (no_transaction_error cl ml) \<and> t' = view (db_conn s)
     | Some f' \<Rightarrow> (\<exists>y. f_rows f' n = Some y \<and> fst r = Inr (row_tx (serial_of view s) (n, y)))
         \<and> fiscal_of t' = f' \<and> (f_signatures f < 2 ^ 63 - 2 \<longrightarrow> fiscal_inv t'))"
proof -
  let ?f = "fiscal_of (view (db_conn s))"
  have schema: "t_schema (view (db_conn s))" using assms(3) by (simp add: fiscal_inv_def)
  show ?thesis
  proof (cases "fiscal_finish n pt pd (clock_text s) (next_signature s) ?f")
    case None
    from sqlite_reliable.sim_finish_missing [OF assms(1) schema None, of out0 cl ml] None assms(2)
    show ?thesis by (auto simp: store_finish_transaction_def Let_def)
  next
    case (Some f')
    from sqlite_reliable.run_sim_finish [OF assms(1,3,4) Some, of out0 cl ml] Some assms(2)
    show ?thesis by (auto simp: store_finish_transaction_def Let_def)
  qed
qed

theorem sim_finish_refines_witness:
  "value_of (store_finish_transaction sample_api sql_exec ''till'' 1 [] [] blank_transaction 64 256) sim_server
   = Inl (Some ''ErrorNoTransaction'', Some ''No open transaction for this number'')"
  using sim_finish_refines [OF mem.sqlite_reliable_axioms, of sim_server sample_api "''till''" 1 "[]" "[]"
      blank_transaction 64 256] sim_server_ready
  by (simp add: Let_def fiscal_finish_def no_transaction_error_def)

text \<open>
  The list of open transactions is exactly the active rows of the journal in the order of their
  numbers, cut at the size of the caller's array, and listing changes nothing.
\<close>

theorem open_transactions_listed:
  fixes s :: "('db, 'hw) server"
  assumes "sqlite_reliable E view" and "t_schema (view (db_conn s))"
  shows "let open_rows = sort_key fst (filter (\<lambda>p. open_row (snd p)) (t_transactions (view (db_conn s)))) in
    value_of (store_list_open_transactions E k) s = (0, map (row_tx (serial_of view s)) (take k open_rows))
    \<and> sorted (map fst open_rows)
    \<and> view (db_conn (poststate (store_list_open_transactions E k) s)) = view (db_conn s)"
proof -
  let ?rows = "sort_key fst (filter (\<lambda>p. open_row (snd p)) (t_transactions (view (db_conn s))))"
  obtain d where d: "run_state (sql_run E SelectOpenTransactions) s = (Rows (map tx_columns ?rows), s\<lparr>db_conn := d\<rparr>)"
    "view d = view (db_conn s)"
    using sqlite_reliable.run_sql_exact [OF assms(1), of SelectOpenTransactions s] assms(2)
    by (auto simp: open_row_def)
  obtain d' where "run_state (State_Monad.traverse_list (load_transaction_row E) (map tx_columns (take k ?rows))) (s\<lparr>db_conn := d\<rparr>)
      = (map (row_tx (serial_of view (s\<lparr>db_conn := d\<rparr>))) (take k ?rows), s\<lparr>db_conn := d\<rparr>\<lparr>db_conn := d'\<rparr>)" "view d' = view d"
    using sqlite_reliable.run_load_rows [OF assms(1), of "s\<lparr>db_conn := d\<rparr>" "take k ?rows"] assms(2) d(2) by auto
  moreover have "serial_of view (s\<lparr>db_conn := d\<rparr>) = serial_of view s"
    using d(2) by (simp add: serial_of_def cong: option.case_cong)
  ultimately show ?thesis
    using d by (simp add: store_list_open_transactions_def result_rows_def take_map Let_def)
qed

theorem open_transactions_listed_witness:
  "value_of (store_list_open_transactions sql_exec 128) sim_server = (0, [])"
  using open_transactions_listed [OF mem.sqlite_reliable_axioms, of sim_server 128] sim_server_ready
  by (simp add: Let_def)

text \<open>
  C11. With an active TSE the journal follows the device, whatever statements fail: what is reported is
  what the device's operation gave, a failed start or finish leaves the journal as it was, and a
  successful one touches no other number than that of the transaction.
\<close>

theorem hardware_journal:
  fixes s :: "('db, 'hw) server"
  assumes "sqlite_engine E view" and "w_active s" and "s_running s"
  shows "(let dev = value_of (tse_worm_start_transaction A E c 256) s;
              r = run_state (store_start_transaction A E c pt pd ext out0) s in
      (fst r = None \<longleftrightarrow> isl dev) \<and> (isl dev \<longrightarrow> journal view (snd r) = journal view s)
      \<and> (\<not> isl dev \<longrightarrow> map_option tx_number (fst r) = Some (tx_number (projr dev))
           \<and> (\<forall>m. m \<noteq> tx_number (projr dev) \<longrightarrow> journal view (snd r) m = journal view s m)))
    \<and> (let dev = value_of (tse_worm_finish_transaction A E c n pd cl ml) s;
             r = run_state (store_finish_transaction A E c n pt pd out0 cl ml) s in
      fst r = dev \<and> (isl dev \<longrightarrow> journal view (snd r) = journal view s)
      \<and> (\<forall>m. m \<noteq> n \<longrightarrow> journal view (snd r) m = journal view s m))"
proof -
  note E = assms(1)
  obtain d u where start: "run_state (tse_worm_start_transaction A E c 256) s = (d, u)" by fastforce
  obtain d' u' where fin: "run_state (tse_worm_finish_transaction A E c n pd cl ml) s = (d', u')" by fastforce
  have u: "journal view u = journal view s" "journal view u' = journal view s"
    using sqlite_engine.device_journal [OF E, where s = s] start fin by (metis snd_conv)+
  have 1: "\<forall>m. m \<noteq> tx_number tx \<longrightarrow>
      journal view (poststate (record_transaction_open E tx ext) u) m = journal view s m" for tx
    using sqlite_engine.record_open_others [OF E, where tx = tx and ext = ext and s = u] u by simp
  have 2: "\<forall>m. m \<noteq> n \<longrightarrow> journal view (poststate (record_transaction_finished E n) u') m = journal view s m"
    using sqlite_engine.record_finished_others [OF E, where n = n and s = u'] u by simp
  have "(let dev = d; r = run_state (store_start_transaction A E c pt pd ext out0) s in
      (fst r = None \<longleftrightarrow> isl dev) \<and> (isl dev \<longrightarrow> journal view (snd r) = journal view s)
      \<and> (\<not> isl dev \<longrightarrow> map_option tx_number (fst r) = Some (tx_number (projr dev))
           \<and> (\<forall>m. m \<noteq> tx_number (projr dev) \<longrightarrow> journal view (snd r) m = journal view s m)))"
  proof (cases d)
    case (Inr tx)
    let ?tx = "case external_or_null ext of Some e \<Rightarrow> tx\<lparr>tx_external_id := fit 256 e\<rparr> | None \<Rightarrow> tx"
    have "tx_number ?tx = tx_number tx" by (simp split: option.split)
    then show ?thesis
      using 1 [of ?tx] start assms(2,3) Inr by (simp add: store_start_transaction_def run_job_def Let_def split_beta)
  qed (use start assms u in \<open>simp add: store_start_transaction_def run_job_def Let_def\<close>)
  moreover have "(let dev = d'; r = run_state (store_finish_transaction A E c n pt pd out0 cl ml) s in
      fst r = dev \<and> (isl dev \<longrightarrow> journal view (snd r) = journal view s)
      \<and> (\<forall>m. m \<noteq> n \<longrightarrow> journal view (snd r) m = journal view s m))"
    using 2 fin assms u
    by (cases d') (simp_all add: store_finish_transaction_def run_job_def Let_def split_beta)
  ultimately show ?thesis by (simp add: start fin)
qed

theorem hardware_journal_witness:
  "map_option tx_number (value_of (store_start_transaction sample_api sql_exec ''till'' [] [] None blank_transaction) sample_server)
   = (case value_of (tse_worm_start_transaction sample_api sql_exec ''till'' 256) sample_server of
        Inl _ \<Rightarrow> None | Inr tx \<Rightarrow> Some (tx_number tx))"
proof -
  have "w_active sample_server" "s_running sample_server" by (simp_all add: sample_server_def)
  from hardware_journal [OF mem.engine.sqlite_engine_axioms this, of sample_api "''till''" "[]" "[]" None
      blank_transaction, THEN conjunct1] show ?thesis
    by (auto simp: Let_def split: sum.split)
qed

end
