(* ===== verification/Tse_Http_Props.thy ===== *)
theory Tse_Http_Props
  imports Tse_Http
begin

text \<open>
  What the parser and the response writer of \<^verbatim>\<open>c/src/http.c\<close> guarantee: bounds of a parsed request,
  chunked bodies, when a request is complete, paths, credentials and the framing of a response.
\<close>

section \<open>The end of the header\<close>

lemma find_header_end_Some:
  "find_header_end s = Some i \<longleftrightarrow>
   prefix (CRLF @ CRLF) (drop i s) \<and> (\<forall>j<i. \<not> prefix (CRLF @ CRLF) (drop j s))"
proof (induction s arbitrary: i)
  case (Cons c s)
  show ?case
  proof (cases i)
    case 0
    then show ?thesis by auto
  next
    case (Suc k)
    have "(\<forall>j<Suc k. \<not> prefix (CRLF @ CRLF) (drop j (c # s))) \<longleftrightarrow>
        \<not> prefix (CRLF @ CRLF) (c # s) \<and> (\<forall>j<k. \<not> prefix (CRLF @ CRLF) (drop j s))"
      by (auto simp: less_Suc_eq_0_disj)
    with Cons.IH [of k] Suc show ?thesis by auto
  qed
qed simp

lemma find_header_end_bound: "find_header_end s = Some i \<Longrightarrow> i + 4 \<le> length s"
  by (auto simp: find_header_end_Some dest!: prefix_length_le)

text \<open>A line without a carriage return is skipped, and the last one ends the header.\<close>

lemma find_header_end_line:
  assumes "CR \<notin> set line" "\<not> prefix CRLF s"
  shows "find_header_end (line @ CRLF @ s) = map_option ((+) (length line + 2)) (find_header_end s)"
  using assms
proof (induction line)
  case Nil
  then show ?case by (cases "find_header_end s") auto
next
  case (Cons c line)
  then show ?case by (cases "find_header_end s") auto
qed

lemma find_header_end_last:
  "CR \<notin> set line \<Longrightarrow> find_header_end (line @ CRLF @ CRLF @ s) = Some (length line)"
  by (induction line) auto

text \<open>More data does not move it.\<close>

lemma find_header_end_append:
  assumes "find_header_end s = Some i"
  shows "find_header_end (s @ t) = Some i"
proof -
  have long: "length p \<le> length x \<Longrightarrow> prefix p (x @ t) = prefix p x" for p x :: string
    by (metis prefix_length_prefix prefixI prefix_order.trans)
  have "length (CRLF @ CRLF) \<le> length (drop j s)" if "j \<le> i" for j
    using find_header_end_bound [OF assms] that by simp
  then have "prefix (CRLF @ CRLF) (drop j (s @ t)) = prefix (CRLF @ CRLF) (drop j s)" if "j \<le> i" for j
    using long [of "CRLF @ CRLF" "drop j s"] find_header_end_bound [OF assms] that by simp
  then show ?thesis using assms by (simp add: find_header_end_Some)
qed

section \<open>Completeness of a request\<close>

lemma request_complete_header:
  "request_complete buf n = Some m \<Longrightarrow> \<exists>h. find_header_end (take n buf) = Some h"
  by (auto simp: request_complete_def split: option.splits)

text \<open>Memory that agrees up to the end of the headers gives the same scans.\<close>

lemma request_complete_grows:
  assumes "request_complete buf n = Some m" "find_header_end (take n buf) = Some h"
    and "\<not> (content_length buf h = None \<and> header_has_chunked buf h)" "n \<le> k" "k \<le> length buf"
  shows "request_complete buf k = Some m"
proof -
  have "take k buf = take n buf @ drop n (take k buf)"
    using assms(4) by (metis append_take_drop_id min.absorb1 take_take)
  then have "find_header_end (take k buf) = Some h"
    by (metis find_header_end_append [OF assms(2)])
  then show ?thesis
    using assms by (auto simp: request_complete_def Let_def split: option.splits if_splits)
qed

section \<open>Chunked bodies\<close>

lemma xdigit_value_less: "is_xdigit c \<Longrightarrow> xdigit_value c < 16"
  by (auto simp: xdigit_value_def is_xdigit_def is_digit_def Let_def)

lemma hex_value_snoc: "hex_value (ds @ [c]) = 16 * hex_value ds + xdigit_value c"
  by (simp add: hex_value_def)

lemma hex_value_less: "(\<And>c. c \<in> set ds \<Longrightarrow> is_xdigit c) \<Longrightarrow> hex_value ds < 16 ^ length ds"
proof (induction ds rule: rev_induct)
  case (snoc c ds)
  have "hex_value ds < 16 ^ length ds" "xdigit_value c < 16"
    using snoc xdigit_value_less by auto
  then show ?case by (simp add: hex_value_snoc)
qed (simp add: hex_value_def)

text \<open>A size line without a minus sign is a number of at most its number of digits.\<close>

lemma strtoul16_less:
  assumes "CHR ''-'' \<notin> set s" "length s < 16"
  shows "strtoul16 s < 2 ^ 60"
proof -
  let ?t = "dropWhile is_space s"
  let ?ds = "takeWhile is_xdigit (skip_0x (skip_sign ?t))"
  have "set ?t \<subseteq> set s" by (rule set_dropWhile_subset)
  then have neg: "\<not> (?t \<noteq> [] \<and> hd ?t = CHR ''-'')"
    using assms(1) by (metis hd_in_set subsetD)
  have "length ?ds \<le> length (skip_0x (skip_sign ?t))" by (rule length_takeWhile_le)
  also have "\<dots> \<le> length (skip_sign ?t)" by (simp add: skip_0x_def)
  also have "\<dots> \<le> length ?t" by (simp add: skip_sign_def)
  also have "\<dots> \<le> length s" by (rule length_dropWhile_le)
  finally have "length ?ds \<le> 15" using assms(2) by simp
  then have "(16 :: nat) ^ length ?ds \<le> 16 ^ 15" by (rule power_increasing) simp
  moreover have "hex_value ?ds < 16 ^ length ?ds"
    by (rule hex_value_less) (auto dest: set_takeWhileD)
  ultimately have "hex_value ?ds < 2 ^ 60" by simp
  then show ?thesis unfolding strtoul16_def Let_def if_not_P [OF neg] by simp
qed

lemma set_c_str: "set (c_str s) \<subseteq> set s"
  by (auto simp: c_str_def dest: set_takeWhileD)

lemma length_c_str: "length (c_str s) \<le> length s"
  by (simp add: c_str_def length_takeWhile_le)

lemma decode_chunks_safe:
  assumes "CHR ''-'' \<notin> set (drop pos raw)" "length raw < 2 ^ 62" "outlen < 2 ^ 62" "length out < outlen"
  shows "\<exists>r. decode_chunks raw pos out outlen = Some r \<and> length r < outlen"
  using assms
proof (induction raw pos out outlen rule: decode_chunks.induct)
  case (1 raw pos out outlen)
  show ?case
  proof (cases "length raw \<le> pos \<or> crlf_index (drop pos raw) = None")
    case True
    then show ?thesis using "1.prems" by (auto simp: decode_chunks.simps [of raw pos])
  next
    case False
    then obtain i where i: "crlf_index (drop pos raw) = Some i" by auto
    then have ib: "pos + i + 1 < length raw" using crlf_index_bound [OF i] by simp
    let ?chunk = "strtoul16 (c_str (take i (drop pos raw)))"
    let ?pos1 = "pos + i + 2"
    show ?thesis
    proof (cases "i = 0 \<or> 16 \<le> i \<or> ?chunk = 0 \<or> length raw < size_add ?pos1 ?chunk
        \<or> outlen \<le> size_add (length out) ?chunk")
      case True
      then show ?thesis using "1.prems" False i by (auto simp: decode_chunks.simps [of raw pos] Let_def)
    next
      case go: False
      have "set (c_str (take i (drop pos raw))) \<subseteq> set (drop pos raw)"
        using set_c_str set_take_subset by (metis subset_trans)
      moreover have "length (c_str (take i (drop pos raw))) < 16"
        using length_c_str [of "take i (drop pos raw)"] go by simp
      ultimately have "?chunk < 2 ^ 60" using "1.prems"(1) by (intro strtoul16_less) auto
      then have add: "size_add ?pos1 ?chunk = ?pos1 + ?chunk"
        "size_add (length out) ?chunk = length out + ?chunk"
        using ib "1.prems" by (simp_all add: size_add_def)
      let ?pos2 = "?pos1 + ?chunk"
      let ?next = "if prefix CRLF (drop ?pos2 raw) then ?pos2 + 2 else ?pos2"
      have bounds: "\<not> (length raw < ?pos1 + ?chunk \<or> outlen < length out + ?chunk)"
        using go unfolding add by simp
      have step: "decode_chunks raw pos out outlen
          = decode_chunks raw ?next (out @ take ?chunk (drop ?pos1 raw)) outlen"
        using False go i bounds by (simp add: decode_chunks.simps [of raw pos] Let_def)
      have "set (drop ?next raw) \<subseteq> set (drop pos raw)" by (rule set_drop_subset_set_drop) simp
      then have minus: "CHR ''-'' \<notin> set (drop ?next raw)" using "1.prems"(1) by blast
      have len: "length (out @ take ?chunk (drop ?pos1 raw)) < outlen"
      proof -
        have "length (take ?chunk (drop ?pos1 raw)) \<le> ?chunk" by simp
        then show ?thesis using go unfolding add length_append by linarith
      qed
      show ?thesis
        unfolding step
        by (rule "1.IH" [OF _ i _ refl refl _ _ refl minus "1.prems"(2,3) len]) (use False go bounds in auto)
    qed
  qed
qed

text \<open>Encoding: each chunk after the hexadecimal text of its length, and the empty chunk at the end.\<close>

fun show_hex :: "nat \<Rightarrow> string" where
  "show_hex n = (if n < 16 then [hex_lower ! n] else show_hex (n div 16) @ [hex_lower ! (n mod 16)])"

declare show_hex.simps [simp del]

definition encode_chunk :: "string \<Rightarrow> string" where
  "encode_chunk c = show_hex (length c) @ CRLF @ c @ CRLF"

definition encode_chunks :: "string list \<Rightarrow> string" where
  "encode_chunks cs = concat (map encode_chunk cs) @ ''0'' @ CRLF @ CRLF"

lemma hex_digit: "n < 16 \<Longrightarrow> is_xdigit (hex_lower ! n) \<and> xdigit_value (hex_lower ! n) = n"
proof -
  assume "n < 16"
  then have "n \<in> set [0..<16]" by simp
  moreover have "list_all (\<lambda>i. is_xdigit (hex_lower ! i) \<and> xdigit_value (hex_lower ! i) = i) [0..<16]"
    by code_simp
  ultimately show ?thesis by (simp add: list_all_iff)
qed

lemma show_hex_digits: "c \<in> set (show_hex n) \<Longrightarrow> is_xdigit c"
proof (induction n rule: show_hex.induct)
  case (1 n)
  then show ?case using hex_digit by (auto simp: show_hex.simps [of n] split: if_splits)
qed

lemma hex_value_show_hex: "hex_value (show_hex n) = n"
proof (induction n rule: show_hex.induct)
  case (1 n)
  have "hex_value [hex_lower ! n] = n" if "n < 16" using hex_digit [OF that] by (simp add: hex_value_def)
  with 1 show ?case using hex_digit [of "n mod 16"]
    by (cases "n < 16") (simp_all add: show_hex.simps [of n] hex_value_snoc)
qed

lemma show_hex_nonempty [simp]: "show_hex n \<noteq> []"
  by (subst show_hex.simps) simp

lemma show_hex_length: "n < 16 ^ k \<Longrightarrow> 0 < k \<Longrightarrow> length (show_hex n) \<le> k"
proof (induction k arbitrary: n)
  case (Suc k)
  show ?case
  proof (cases "n < 16")
    case True
    then show ?thesis by (simp add: show_hex.simps [of n])
  next
    case False
    with Suc.prems have k: "0 < k" by (cases k) auto
    have "n div 16 < 16 ^ k" using Suc.prems(1) by (simp add: less_mult_imp_div_less mult.commute)
    with Suc.IH k have "length (show_hex (n div 16)) \<le> k" by blast
    with False show ?thesis by (simp add: show_hex.simps [of n])
  qed
qed simp

lemma xdigit_plain: "is_xdigit c \<Longrightarrow> \<not> is_space c \<and> c \<noteq> CHR ''-'' \<and> c \<noteq> CHR ''+'' \<and> c \<noteq> NUL \<and> c \<noteq> CR"
  by (auto simp: is_xdigit_def is_digit_def is_space_def)

lemma xdigit_not_x:
  assumes "is_xdigit c"
  shows "to_lower c \<noteq> CHR ''x''"
proof
  assume "to_lower c = CHR ''x''"
  then have "char_code (to_lower c) = 120" by simp
  with assms show False by (auto simp: is_xdigit_def is_digit_def to_lower_def split: if_splits)
qed

lemma digits_no_0x:
  assumes "\<And>c. c \<in> set ds \<Longrightarrow> is_xdigit c"
  shows "skip_0x ds = ds"
proof -
  have x: "to_lower CHR ''x'' = CHR ''x''" by (simp add: to_lower_def)
  have "\<not> prefix_nocase ''0x'' ds"
  proof
    assume "prefix_nocase ''0x'' ds"
    then obtain c d cs where "ds = c # d # cs" "to_lower d = CHR ''x''"
      by (cases ds; cases "tl ds") (auto simp: prefix_nocase_def x)
    with assms xdigit_not_x show False by simp
  qed
  then show ?thesis by (simp add: skip_0x_def)
qed

lemma strtoul16_digits:
  assumes "ds \<noteq> []" "\<And>c. c \<in> set ds \<Longrightarrow> is_xdigit c" "hex_value ds < 2 ^ 64"
  shows "strtoul16 ds = hex_value ds"
proof -
  obtain c cs where ds: "ds = c # cs" using assms(1) by (cases ds) auto
  have c: "\<not> is_space c" "c \<noteq> CHR ''-''" "c \<noteq> CHR ''+''" using assms(2) [of c] xdigit_plain [of c] ds by auto
  have "dropWhile is_space ds = ds" "skip_sign ds = ds" using c ds by (simp_all add: skip_sign_def)
  moreover have "skip_0x ds = ds" using assms(2) by (rule digits_no_0x)
  moreover have "takeWhile is_xdigit ds = ds" using assms(2) by (simp add: takeWhile_eq_all_conv)
  moreover have "hd ds \<noteq> CHR ''-''" using c ds by simp
  ultimately show ?thesis using assms(3) unfolding strtoul16_def Let_def by (simp del: takeWhile_eq_all_conv)
qed

lemma crlf_index_line: "CR \<notin> set line \<Longrightarrow> crlf_index (line @ CRLF @ s) = Some (length line)"
  by (induction line) auto

lemma chunk_line:
  assumes "n < 16 ^ 15"
  shows "crlf_index (show_hex n @ CRLF @ s) = Some (length (show_hex n))"
    "strtoul16 (c_str (take (length (show_hex n)) (show_hex n @ CRLF @ s))) = n"
proof -
  show "crlf_index (show_hex n @ CRLF @ s) = Some (length (show_hex n))"
    by (rule crlf_index_line) (use show_hex_digits xdigit_plain in blast)
  have "is_cstr (show_hex n)" using show_hex_digits xdigit_plain by (auto simp: is_cstr_def)
  moreover have "strtoul16 (show_hex n) = n"
    using assms by (subst strtoul16_digits) (auto simp: hex_value_show_hex show_hex_digits)
  ultimately show "strtoul16 (c_str (take (length (show_hex n)) (show_hex n @ CRLF @ s))) = n"
    by simp
qed

lemma chunk_line_length: "n < 16 ^ 15 \<Longrightarrow> length (show_hex n) < 16"
  using show_hex_length [of n 15] by simp

lemma decode_chunks_step:
  assumes "pos < length raw" "crlf_index (drop pos raw) = Some i" "0 < i" "i < 16"
    "strtoul16 (c_str (take i (drop pos raw))) = n" "0 < n" "pos + i + 2 + n \<le> length raw"
    "length out + n < outlen" "length raw < 2 ^ 62" "outlen < 2 ^ 62"
  shows "decode_chunks raw pos out outlen = decode_chunks raw
    (if prefix CRLF (drop (pos + i + 2 + n) raw) then pos + i + 2 + n + 2 else pos + i + 2 + n)
    (out @ take n (drop (pos + i + 2) raw)) outlen"
proof -
  have "size_add (pos + i + 2) n = pos + i + 2 + n" "size_add (length out) n = length out + n"
    using assms by (simp_all add: size_add_def)
  then show ?thesis
    using assms by (simp add: decode_chunks.simps [of raw pos] Let_def)
qed

lemma decode_chunks_encode:
  assumes "\<And>c. c \<in> set cs \<Longrightarrow> c \<noteq> []" "length out + length (concat cs) < outlen" "outlen < 2 ^ 60"
    "length (pre @ encode_chunks cs @ rest) < 2 ^ 60"
  shows "decode_chunks (pre @ encode_chunks cs @ rest) (length pre) out outlen = Some (out @ concat cs)"
  using assms
proof (induction cs arbitrary: pre out)
  case Nil
  have zero: "show_hex 0 = ''0''" by (simp add: show_hex.simps [of 0] hex_lower_def)
  show ?case
    using chunk_line [of 0 "CRLF @ rest"] chunk_line_length [of 0]
    by (simp add: decode_chunks.simps [of _ "length pre"] encode_chunks_def zero)
next
  case (Cons c cs)
  let ?n = "length c"
  let ?tail = "c @ CRLF @ encode_chunks cs @ rest"
  let ?raw = "pre @ show_hex ?n @ CRLF @ ?tail"
  have raw: "pre @ encode_chunks (c # cs) @ rest = ?raw" by (simp add: encode_chunks_def encode_chunk_def)
  have n: "0 < ?n" "?n < 2 ^ 60" using Cons.prems by (auto simp: encode_chunks_def encode_chunk_def)
  then have n16: "?n < 16 ^ 15" by simp
  note line = chunk_line [OF n16, of ?tail] chunk_line_length [OF n16]
  have dropped: "drop (length pre) ?raw = show_hex ?n @ CRLF @ ?tail" by simp
  let ?pos1 = "length pre + length (show_hex ?n) + 2"
  have tail: "drop ?pos1 ?raw = ?tail" by (simp add: add.assoc)
  have len: "length ?raw < 2 ^ 60" using Cons.prems(4) unfolding raw .
  have after: "drop (?pos1 + ?n) ?raw = CRLF @ encode_chunks cs @ rest"
    using tail by (metis append_eq_conv_conj drop_drop add.commute)
  have step: "decode_chunks ?raw (length pre) out outlen = decode_chunks ?raw
      (if prefix CRLF (drop (?pos1 + ?n) ?raw) then ?pos1 + ?n + 2 else ?pos1 + ?n)
      (out @ take ?n (drop ?pos1 ?raw)) outlen"
    using n line Cons.prems(2,3) len by (intro decode_chunks_step) (simp_all only: dropped, simp_all)
  let ?pre = "pre @ show_hex ?n @ CRLF @ c @ CRLF"
  have "decode_chunks (?pre @ encode_chunks cs @ rest) (length ?pre) (out @ c) outlen = Some ((out @ c) @ concat cs)"
    using Cons.prems raw by (intro Cons.IH) auto
  then show ?case unfolding raw step after tail by (simp add: add.assoc)
qed

section \<open>The length header of a response\<close>

text \<open>No match for a header name starts inside \<open>a\<close> when \<open>s\<close> follows.\<close>

definition no_match :: "string \<Rightarrow> string \<Rightarrow> string \<Rightarrow> bool" where
  "no_match name a s \<longleftrightarrow> (\<forall>j<length a. \<not> prefix_nocase name (drop j (a @ s)))"

lemma no_match_simps:
  "no_match name [] s"
  "no_match name (c # a) s \<longleftrightarrow> \<not> prefix_nocase name (c # a @ s) \<and> no_match name a s"
  by (auto simp: no_match_def less_Suc_eq_0_disj)

lemma no_match_append: "no_match name (a @ b) s \<longleftrightarrow> no_match name a (b @ s) \<and> no_match name b s"
  by (induction a) (auto simp: no_match_simps)

lemma prefix_nocase_simps:
  "prefix_nocase [] s" "prefix_nocase (p # ps) [] = False"
  "prefix_nocase (p # ps) (c # cs) \<longleftrightarrow> to_lower p = to_lower c \<and> prefix_nocase ps cs"
  by (auto simp: prefix_nocase_def)

lemma prefix_nocase_same [simp]: "prefix_nocase p (p @ s)"
  by (simp add: prefix_nocase_def)

lemma no_match_without:
  "\<forall>c \<in> set a. to_lower c \<noteq> to_lower n \<Longrightarrow> no_match (n # name) a s"
  by (induction a) (auto simp: no_match_simps prefix_nocase_simps)

lemma find_first:
  assumes "no_match name a s" "prefix_nocase name s" "length a < n"
  shows "find (\<lambda>p. prefix_nocase name (drop p (a @ s))) [0..<n] = Some (length a)"
  using assms
proof (intro find_Some_iff [THEN iffD2] exI [of _ "length a"] conjI)
  show "\<forall>j<length a. \<not> prefix_nocase name (drop ([0..<n] ! j) (a @ s))"
    using assms by (simp add: no_match_def)
qed auto

lemma content_length_found:
  assumes "no_match ''Content-Length:'' a (''Content-Length: '' @ show_nat k @ CRLF @ rest)" "length a < n" "k < 2 ^ 31"
  shows "content_length (a @ ''Content-Length: '' @ show_nat k @ CRLF @ rest) n = Some k"
proof -
  let ?s = "''Content-Length: '' @ show_nat k @ CRLF @ rest"
  have "prefix_nocase ''Content-Length:'' ?s"
    by (simp add: prefix_nocase_simps)
  then have "find (\<lambda>p. prefix_nocase ''Content-Length:'' (drop p (a @ ?s))) [0..<n] = Some (length a)"
    using assms(1,2) by (intro find_first)
  moreover have "drop (length a + 15) (a @ ?s) = CHR '' '' # show_nat k @ CRLF @ rest" by simp
  moreover have "skip_spaces (CHR '' '' # show_nat k @ CRLF @ rest) = show_nat k @ CRLF @ rest"
  proof -
    obtain c cs where c: "show_nat k = c # cs" by (cases "show_nat k") auto
    then have "c \<noteq> CHR '' ''" using show_nat_digits [of c k] by (auto simp: is_digit_def)
    then show ?thesis by (simp add: skip_spaces_def c)
  qed
  moreover have "atoi (show_nat k @ CRLF @ rest) = int k"
  proof -
    have "read_int (show_nat k @ CRLF @ rest) = Some (int k, CRLF @ rest)"
      by (rule read_int_show_nat) (simp add: is_digit_def)
    then show ?thesis using assms(3) by (simp add: atoi_def)
  qed
  ultimately show ?thesis
    using assms(3) unfolding content_length_def by (simp add: to_size_nonneg)
qed

definition status_line :: "http_response \<Rightarrow> string" where
  "status_line res = ''HTTP/1.1 '' @ show_int (rs_status res) @ '' '' @ status_text (rs_status res)"

lemma lower_C: "to_lower CHR ''C'' = CHR ''c''"
  by code_simp

lemma status_line_chars:
  assumes "c \<in> set (status_line res)"
  shows "c \<noteq> CR" "to_lower c \<noteq> CHR ''c''"
proof -
  let ?P = "\<lambda>d. d \<noteq> CR \<and> to_lower d \<noteq> CHR ''c''"
  have "?P d" if "d \<in> set (show_int i)" for d i
  proof -
    have d: "d = CHR ''-'' \<or> is_digit d"
      using that show_nat_digits by (auto simp: show_int_def split: if_splits)
    have "to_lower d = d" using d by (auto simp: is_digit_def to_lower_def)
    with d show ?thesis by (auto simp: is_digit_def)
  qed
  then have num: "list_all ?P (show_int (rs_status res))" by (simp add: list_all_iff)
  have "list_all (list_all ?P)
    [''Bad Request'', ''Unauthorized'', ''Not Found'', ''Internal Server Error'', ''OK'']" by code_simp
  then have words: "list_all ?P (status_text (rs_status res))" by (simp add: status_text_def)
  have "list_all ?P ''HTTP/1.1 ''" by code_simp
  moreover have "list_all ?P '' ''" by code_simp
  ultimately have "list_all ?P (status_line res)"
    using num words unfolding status_line_def list_all_append by blast
  then show "c \<noteq> CR" "to_lower c \<noteq> CHR ''c''" using assms by (simp_all add: list_all_iff)
qed

lemma plain_header:
  assumes "\<not> rs_no_body res" "\<not> rs_stream res"
  shows "response_header res ka = status_line res @ CRLF @ ''Content-Type: application/json; charset=utf-8'' @ CRLF @
     ''Content-Length: '' @ show_nat (rs_body_len res) @ CRLF @ cors_headers @
     (''Connection: '' @ (if ka then ''keep-alive'' else ''close'')) @ CRLF @ CRLF"
  using assms by (simp add: response_header_def status_line_def)


text \<open>A mismatch inside the text itself, found by evaluation, rules the match out whatever follows.\<close>

definition differs :: "string \<Rightarrow> string \<Rightarrow> bool" where
  "differs name x = list_ex (\<lambda>(p, c). to_lower p \<noteq> to_lower c) (zip name x)"

lemma differs_no_prefix: "differs name x \<Longrightarrow> \<not> prefix_nocase name (x @ s)"
proof (induction name arbitrary: x)
  case (Cons p name)
  then show ?case by (cases x) (auto simp: differs_def prefix_nocase_simps)
qed (simp add: differs_def)

lemma no_match_check: "list_all (\<lambda>j. differs name (drop j a)) [0..<length a] \<Longrightarrow> no_match name a s"
  unfolding no_match_def using differs_no_prefix [of name "drop j a" s for j]
  by (auto simp: list_all_iff)

lemma content_type_no_length:
  "no_match ''Content-Length:'' (CRLF @ ''Content-Type: application/json; charset=utf-8'' @ CRLF) s"
  by (rule no_match_check) code_simp

lemma status_line_no_length: "no_match ''Content-Length:'' (status_line res) s"
  using status_line_chars lower_C by (intro no_match_without) auto

lemma response_head_length:
  assumes "\<not> rs_no_body res" "\<not> rs_stream res" "rs_body_len res < 2 ^ 31"
  shows "content_length (response_header res ka @ body) (length (response_header res ka) - 4)
    = Some (rs_body_len res)"
proof -
  let ?a = "status_line res @ CRLF @ ''Content-Type: application/json; charset=utf-8'' @ CRLF"
  let ?tail = "cors_headers @ (''Connection: '' @ (if ka then ''keep-alive'' else ''close'')) @ CRLF @ CRLF @ body"
  let ?s = "''Content-Length: '' @ show_nat (rs_body_len res) @ CRLF @ ?tail"
  have head: "response_header res ka @ body = ?a @ ?s"
    unfolding plain_header [OF assms(1,2)] append_assoc ..
  have "no_match ''Content-Length:'' ?a ?s"
    unfolding no_match_append [of _ "status_line res"]
    by (intro conjI status_line_no_length content_type_no_length)
  moreover have "length ?a < length (response_header res ka) - 4"
    unfolding plain_header [OF assms(1,2)] by simp
  ultimately show ?thesis unfolding head using assms(3) by (rule content_length_found)
qed

text \<open>A header as its lines.\<close>

definition http_head :: "string list \<Rightarrow> string" where
  "http_head ls = concat (map (\<lambda>l. l @ CRLF) ls) @ CRLF"

definition plain_line :: "string \<Rightarrow> bool" where
  "plain_line l \<longleftrightarrow> l \<noteq> [] \<and> CR \<notin> set l \<and> LF \<notin> set l"

lemma http_head_simps: "http_head [] = CRLF" "http_head (l # ls) = l @ CRLF @ http_head ls"
  by (simp_all add: http_head_def)

lemma find_header_end_lines:
  assumes "ls \<noteq> []" "\<And>l. l \<in> set ls \<Longrightarrow> plain_line l"
  shows "find_header_end (http_head ls @ s) = Some (length (http_head ls) - 4)"
  using assms
proof (induction ls rule: list_nonempty_induct)
  case (single l)
  then show ?case using find_header_end_last [of l s] by (simp add: http_head_simps plain_line_def)
next
  case (cons l ls)
  then obtain l' ls' where ls: "ls = l' # ls'" by (cases ls) auto
  have "\<not> prefix CRLF (http_head ls @ s)"
    using cons.prems [of l'] by (cases l') (auto simp: ls http_head_simps plain_line_def)
  moreover have "4 \<le> length (http_head ls)" by (simp add: ls http_head_simps http_head_def)
  moreover have "CR \<notin> set l" using cons.prems by (simp add: plain_line_def)
  ultimately show ?case
    using cons find_header_end_line [of l "http_head ls @ s"] by (simp add: http_head_simps)
qed

lemma not_digit_show_nat: "\<not> is_digit c \<Longrightarrow> c \<notin> set (show_nat n)"
  using show_nat_digits by blast

lemma status_line_plain: "plain_line (status_line res)"
proof -
  have "LF \<notin> set (show_int i)" for i
    using not_digit_show_nat [of LF] by (simp add: show_int_def is_digit_def)
  moreover have "LF \<notin> set (status_text i)" for i by (simp add: status_text_def)
  ultimately show ?thesis
    using status_line_chars by (auto simp: plain_line_def status_line_def)
qed

lemma number_line_plain: "plain_line (''Content-Length: '' @ show_nat n)"
  using not_digit_show_nat [of CR n] not_digit_show_nat [of LF n] by (simp add: plain_line_def is_digit_def)

lemma plain_header_lines:
  assumes "\<not> rs_no_body res" "\<not> rs_stream res"
  shows "response_header res ka = http_head [status_line res, ''Content-Type: application/json; charset=utf-8'',
     ''Content-Length: '' @ show_nat (rs_body_len res), ''Access-Control-Allow-Origin: *'',
     ''Access-Control-Allow-Methods: GET, POST, PUT, PATCH, DELETE, OPTIONS'',
     ''Access-Control-Allow-Headers: Content-Type, Authorization'',
     ''Connection: '' @ (if ka then ''keep-alive'' else ''close'')]"
  unfolding plain_header [OF assms] http_head_def cors_headers_def by simp

lemma response_head_end:
  assumes "\<not> rs_no_body res" "\<not> rs_stream res"
  shows "find_header_end (response_header res ka @ s) = Some (length (response_header res ka) - 4)"
  unfolding plain_header_lines [OF assms]
  by (rule find_header_end_lines)
    (use status_line_plain number_line_plain in \<open>auto simp: plain_line_def split: if_splits\<close>)

lemma response_writes_concat:
  assumes "\<not> rs_no_body res" "\<not> rs_stream res"
  shows "concat (response_writes res ka) = response_header res ka @ take (rs_body_len res) (rs_body res)"
  using assms by (simp add: response_writes_def Let_def)

lemma response_header_length: "\<not> rs_no_body res \<Longrightarrow> \<not> rs_stream res \<Longrightarrow> 4 \<le> length (response_header res ka)"
  by (simp add: plain_header_lines http_head_def)

text \<open>
  What is written for a response with a body is its header, which ends where a client looks for the
  end and names the length of the body, followed by exactly the body.
\<close>

lemma response_framed:
  assumes "\<not> rs_no_body res" "\<not> rs_stream res" "length (rs_body res) = rs_body_len res" "rs_body_len res < 2 ^ 31"
    and "0 \<le> rs_status res" "rs_status res < 2 ^ 31"
  shows "let bytes = concat (response_writes res ka) in
    \<exists>h. find_header_end bytes = Some h \<and> content_length bytes h = Some (rs_body_len res)
      \<and> drop (h + 4) bytes = rs_body res \<and> request_complete bytes (length bytes) = Some (length bytes)"
proof -
  let ?h = "length (response_header res ka) - 4"
  let ?bytes = "response_header res ka @ rs_body res"
  have bytes: "concat (response_writes res ka) = ?bytes"
    using response_writes_concat [OF assms(1,2)] assms(3) by simp
  note facts = response_head_end [OF assms(1,2), of ka "rs_body res"]
    response_head_length [OF assms(1,2,4), of ka "rs_body res"] response_header_length [OF assms(1,2), of ka]
  have h: "?h + 4 = length (response_header res ka)" using facts(3) by simp
  have short: "length (response_header res ka) < 2 ^ 32"
  proof -
    have "length (show_int (rs_status res)) \<le> 10"
      using show_nat_length [of "nat (rs_status res)" 10] assms(5,6) by (simp add: show_int_def)
    moreover have "length (show_nat (rs_body_len res)) \<le> 10"
      using show_nat_length [of "rs_body_len res" 10] assms(4) by simp
    moreover have "length (status_text (rs_status res)) \<le> 21" by (simp add: status_text_def)
    ultimately show ?thesis by (simp add: plain_header_lines [OF assms(1,2)] http_head_def status_line_def)
  qed
  have "request_complete ?bytes (length ?bytes) = Some (length ?bytes)"
    using facts assms(3,4) h short by (simp add: request_complete_def size_add_def)
  then show ?thesis
    unfolding bytes Let_def using facts h by (intro exI [of _ ?h]) simp
qed

section \<open>A request as a client writes it\<close>

definition header_text :: "string \<times> string \<Rightarrow> string" where
  "header_text h = fst h @ '': '' @ snd h"

definition request_lines :: "string \<Rightarrow> string \<Rightarrow> (string \<times> string) list \<Rightarrow> string list" where
  "request_lines m p hs = (m @ '' '' @ p @ '' HTTP/1.1'') # map header_text hs"

definition request_text :: "string \<Rightarrow> string \<Rightarrow> (string \<times> string) list \<Rightarrow> string \<Rightarrow> string" where
  "request_text m p hs body =
     http_head (request_lines m p (hs @ [(''Content-Length'', show_nat (length body))])) @ body"

definition word_text :: "string \<Rightarrow> bool" where
  "word_text w \<longleftrightarrow> w \<noteq> [] \<and> list_all (\<lambda>c. \<not> is_space c \<and> c \<noteq> NUL) w"

definition header_ok :: "string \<times> string \<Rightarrow> bool" where
  "header_ok h \<longleftrightarrow> list_all (\<lambda>c. c \<noteq> CR \<and> c \<noteq> LF \<and> c \<noteq> NUL \<and> c \<noteq> CHR '':'') (fst h)
     \<and> list_all (\<lambda>c. c \<noteq> CR \<and> c \<noteq> LF \<and> c \<noteq> NUL) (snd h) \<and> (snd h = [] \<or> hd (snd h) \<noteq> CHR '' '')
     \<and> length (fst h) < 64 \<and> length (snd h) < 2048"

text \<open>
  The requests the parser handles: words and headers that fit, a header within the 1023 bytes that
  are looked at, and no other text that reads as one of the two headers it searches for.
\<close>

definition request_ok :: "string \<Rightarrow> string \<Rightarrow> (string \<times> string) list \<Rightarrow> string \<Rightarrow> bool" where
  "request_ok m p hs body \<longleftrightarrow> word_text m \<and> word_text p \<and> length m < 16 \<and> length p < 512
     \<and> list_all header_ok hs \<and> length hs < 32
     \<and> length (request_text m p hs []) \<le> 1020 \<and> length body < 65536
     \<and> no_match ''Content-Length:'' (concat (map (\<lambda>l. l @ CRLF) (request_lines m p hs))) ''Content-Length:''
     \<and> no_match ''Transfer-Encoding:'' (concat (map (\<lambda>l. l @ CRLF) (request_lines m p hs)))
         (''Content-Length: '' @ show_nat (length body) @ CRLF)"

lemma no_match_extend:
  assumes "no_match name a s" "length name \<le> length s"
  shows "no_match name a (s @ t)"
proof -
  have "prefix p (map to_lower x @ map to_lower t) \<longleftrightarrow> prefix p (map to_lower x)"
    if "length p \<le> length x" for p x
    using that by (metis length_map prefix_length_prefix prefixI prefix_order.trans)
  then have "prefix_nocase name (x @ t) = prefix_nocase name x" if "length name \<le> length x" for x
    using that by (simp add: prefix_nocase_def)
  then show ?thesis using assms by (simp add: no_match_def flip: append_assoc)
qed

lemma tokens_line:
  assumes "line \<noteq> []" "\<And>c. c \<in> set line \<Longrightarrow> \<not> d c"
  shows "tokens d line = [line]" "d sep \<Longrightarrow> tokens d (line @ sep # s) = line # tokens d s"
proof -
  have dw: "dropWhile d (line @ t) = line @ t" for t using assms by (cases line) auto
  have tw: "takeWhile (\<lambda>c. \<not> d c) line = line" "dropWhile (\<lambda>c. \<not> d c) line = []"
    using assms by (auto simp: takeWhile_eq_all_conv dropWhile_eq_Nil_conv)
  have empty: "tokens d [] = []" by (simp add: tokens.simps)
  show "tokens d line = [line]"
    using dw [of "[]"] tw assms(1) empty by (simp add: tokens.simps [of d line] del: takeWhile_eq_all_conv dropWhile_eq_Nil_conv)
  assume sep: "d sep"
  have skip: "tokens d (sep # s) = tokens d s" using sep by (simp add: tokens.simps)
  have "takeWhile (\<lambda>c. \<not> d c) (line @ sep # s) = line" "dropWhile (\<lambda>c. \<not> d c) (line @ sep # s) = sep # s"
    using takeWhile_all_append [of line "\<lambda>c. \<not> d c" "sep # s"] assms(2) sep by auto
  then show "tokens d (line @ sep # s) = line # tokens d s"
    using dw [of "sep # s"] assms(1) skip by (simp add: tokens.simps [of d "line @ sep # s"])
qed

abbreviation is_crlf :: "char \<Rightarrow> bool" where "is_crlf \<equiv> \<lambda>c. c = CR \<or> c = LF"

lemma tokens_head:
  assumes "ls \<noteq> []" "\<And>l. l \<in> set ls \<Longrightarrow> plain_line l"
  shows "tokens is_crlf (take (length (http_head ls) - 4) (http_head ls)) = ls"
  using assms
proof (induction ls rule: list_nonempty_induct)
  case (single l)
  then show ?case using tokens_line(1) [of l is_crlf] by (auto simp: http_head_simps plain_line_def)
next
  case (cons l ls)
  let ?t = "take (length (http_head ls) - 4) (http_head ls)"
  have "4 \<le> length (http_head ls)" using cons.hyps by (cases ls) (auto simp: http_head_simps http_head_def)
  then have head: "take (length (http_head (l # ls)) - 4) (http_head (l # ls)) = l @ CR # LF # ?t"
    by (simp add: http_head_simps take_Cons' Suc_diff_le)
  have "tokens is_crlf (LF # ?t) = tokens is_crlf ?t" by (simp add: tokens.simps)
  then show ?case
    unfolding head using cons tokens_line(2) [of l is_crlf CR "LF # ?t"] by (auto simp: plain_line_def)
qed

lemma scan_word_word:
  assumes "w \<noteq> []" "list_all (\<lambda>c. \<not> is_space c \<and> c \<noteq> NUL) w" "length w \<le> n" "rest = [] \<or> is_space (hd rest)"
  shows "scan_word n (w @ rest) = Some (w, rest)" "scan_word n (CHR '' '' # w @ rest) = Some (w, rest)"
proof -
  have w: "\<not> is_space c" if "c \<in> set w" for c using assms(2) that by (simp add: list_all_iff)
  have "dropWhile is_space (w @ rest) = w @ rest" using assms(1) w by (cases w) auto
  moreover have "is_space CHR '' ''" "0 < n" using assms(1,3) by (cases w; simp add: is_space_def)+
  moreover have "takeWhile (\<lambda>c. \<not> is_space c) (w @ rest) = w"
    using takeWhile_all_append [of w "\<lambda>c. \<not> is_space c" rest] w assms(4) by auto
  ultimately show "scan_word n (w @ rest) = Some (w, rest)" "scan_word n (CHR '' '' # w @ rest) = Some (w, rest)"
    using assms(1,3) by (simp_all add: scan_word_def)
qed

lemma header_line_text:
  assumes "header_ok h"
  shows "header_line (header_text h) = Some h"
proof -
  obtain n v where h: "h = (n, v)" by (cases h)
  have colon: "CHR '':'' \<notin> set n" using assms by (auto simp: h header_ok_def list_all_iff)
  have "skip_spaces (CHR '' '' # v) = v"
    using assms by (cases v) (auto simp: h header_ok_def skip_spaces_def)
  then show ?thesis
    using assms split_at_append [OF colon, of "CHR '' '' # v"]
    by (simp add: h header_line_def header_text_def header_ok_def http_limits)
qed

definition number_header :: "string \<Rightarrow> string \<times> string" where
  "number_header body = (''Content-Length'', show_nat (length body))"

lemma number_header_ok: "length body < 65536 \<Longrightarrow> header_ok (number_header body)"
proof -
  assume "length body < 65536"
  then have "length (show_nat (length body)) \<le> 5" using show_nat_length [of "length body" 5] by simp
  moreover have "c \<noteq> CR \<and> c \<noteq> LF \<and> c \<noteq> NUL \<and> c \<noteq> CHR '' ''" if "c \<in> set (show_nat n)" for c n
    using show_nat_digits [OF that] by (auto simp: is_digit_def)
  ultimately show ?thesis
    by (auto simp: header_ok_def number_header_def list_all_iff) (metis hd_in_set show_nat_nonempty)
qed

lemma request_text_parts:
  "request_text m p hs body = concat (map (\<lambda>l. l @ CRLF) (request_lines m p hs)) @
     ''Content-Length: '' @ show_nat (length body) @ CRLF @ CRLF @ body"
  by (simp add: request_text_def http_head_def request_lines_def header_text_def)

lemma word_text_plain: "word_text w \<Longrightarrow> CR \<notin> set w \<and> LF \<notin> set w \<and> NUL \<notin> set w"
proof -
  have "is_space CR" "is_space LF" by (simp_all add: is_space_def)
  then show "word_text w \<Longrightarrow> CR \<notin> set w \<and> LF \<notin> set w \<and> NUL \<notin> set w"
    unfolding word_text_def list_all_iff by metis
qed

lemma request_lines_plain:
  assumes "request_ok m p hs body" "l \<in> set (request_lines m p (hs @ [number_header body]))"
  shows "plain_line l \<and> is_cstr l"
proof -
  have "header_ok h" if "h \<in> set (hs @ [number_header body])" for h
    using assms(1) that number_header_ok by (auto simp: request_ok_def list_all_iff)
  moreover have "plain_line (header_text h) \<and> is_cstr (header_text h)" if "header_ok h" for h
    using that by (auto simp: plain_line_def header_text_def header_ok_def list_all_iff is_cstr_def)
  moreover have "plain_line (m @ '' '' @ p @ '' HTTP/1.1'') \<and> is_cstr (m @ '' '' @ p @ '' HTTP/1.1'')"
    using assms(1) word_text_plain by (auto simp: request_ok_def plain_line_def is_cstr_def)
  ultimately show ?thesis using assms(2) unfolding request_lines_def list.set(2) set_map by blast
qed

lemma request_head_end:
  assumes "request_ok m p hs body"
  shows "find_header_end (http_head (request_lines m p (hs @ [number_header body])) @ s)
    = Some (length (http_head (request_lines m p (hs @ [number_header body]))) - 4)"
  by (rule find_header_end_lines) (use request_lines_plain [OF assms] in \<open>auto simp: request_lines_def\<close>)

lemma request_head_long:
  assumes "request_ok m p hs body"
  defines "hd_text \<equiv> http_head (request_lines m p (hs @ [number_header body]))"
  shows "length hd_text - 4 + 4 = length hd_text"
  using find_header_end_bound [OF request_head_end [OF assms(1), of "[]"]] by (simp add: hd_text_def)

lemma request_head_length:
  assumes "request_ok m p hs body"
  defines "hd_text \<equiv> http_head (request_lines m p (hs @ [number_header body]))"
  shows "content_length (hd_text @ s) (length hd_text - 4) = Some (length body)"
proof -
  let ?a = "concat (map (\<lambda>l. l @ CRLF) (request_lines m p hs))"
  have hd: "hd_text = ?a @ ''Content-Length: '' @ show_nat (length body) @ CRLF @ CRLF"
    by (simp add: hd_text_def http_head_def request_lines_def header_text_def number_header_def)
  have "no_match ''Content-Length:'' ?a (''Content-Length:'' @ '' '' @ show_nat (length body) @ CRLF @ CRLF @ s)"
    using assms(1) by (intro no_match_extend) (simp_all add: request_ok_def)
  moreover have "length ?a < length hd_text - 4" by (simp add: hd)
  ultimately have "content_length (?a @ ''Content-Length: '' @ show_nat (length body) @ CRLF @ CRLF @ s)
      (length hd_text - 4) = Some (length body)"
    using assms(1) by (intro content_length_found) (auto simp: request_ok_def)
  then show ?thesis by (simp add: hd)
qed

lemma no_match_not_chunked:
  "no_match ''Transfer-Encoding:'' a s \<Longrightarrow> \<not> header_has_chunked (a @ s) (length a)"
  unfolding no_match_def header_has_chunked_def list_ex_iff by simp

lemma request_not_chunked:
  assumes "request_ok m p hs body"
  shows "\<not> header_has_chunked (request_text m p hs body)
    (length (http_head (request_lines m p (hs @ [number_header body]))) - 4)"
proof -
  let ?a = "concat (map (\<lambda>l. l @ CRLF) (request_lines m p hs))"
  let ?n = "show_nat (length body)"
  have "no_match ''Transfer-Encoding:'' ?a ((''Content-Length: '' @ ?n @ CRLF) @ CRLF @ body)"
  proof (rule no_match_extend)
    have "1 \<le> length ?n" by (simp add: Suc_le_eq)
    then show "length ''Transfer-Encoding:'' \<le> length (''Content-Length: '' @ ?n @ CRLF)" by simp
  qed (use assms in \<open>simp add: request_ok_def\<close>)
  moreover have "no_match ''Transfer-Encoding:'' ''Content-Length: '' s" for s
    by (rule no_match_check) code_simp
  moreover have "no_match ''Transfer-Encoding:'' ?n s" for s
  proof (rule no_match_without, rule ballI)
    fix c assume "c \<in> set ?n"
    from show_nat_digits [OF this] show "to_lower c \<noteq> to_lower CHR ''T''"
      by (auto simp: is_digit_def to_lower_def)
  qed
  ultimately have "no_match ''Transfer-Encoding:'' (?a @ ''Content-Length: '' @ ?n) (CRLF @ CRLF @ body)"
    unfolding no_match_append by simp
  moreover have "length (http_head (request_lines m p (hs @ [number_header body]))) - 4
      = length (?a @ ''Content-Length: '' @ ?n)"
    by (simp add: http_head_def request_lines_def header_text_def number_header_def)
  moreover have "request_text m p hs body = (?a @ ''Content-Length: '' @ ?n) @ CRLF @ CRLF @ body"
    by (simp add: request_text_parts)
  ultimately show ?thesis using no_match_not_chunked by metis
qed

lemma map_filter_header_text:
  "(\<And>h. h \<in> set hs \<Longrightarrow> header_line (header_text h) = Some h) \<Longrightarrow>
   List.map_filter header_line (map header_text hs) = hs"
  by (induction hs) (simp_all add: List.map_filter_def)

lemma request_parsed:
  assumes "request_ok m p hs body"
  shows "http_parse_request uninit (request_text m p hs body) = Parsed \<lparr>rq_method = m, rq_path = p,
    rq_http_minor = 1, rq_headers = hs @ [number_header body], rq_body = body, rq_body_len = length body\<rparr>"
proof -
  let ?hs = "hs @ [number_header body]"
  let ?ls = "request_lines m p ?hs"
  let ?head = "http_head ?ls"
  have whole: "request_text m p hs body = ?head @ body" by (simp add: request_text_def number_header_def)
  have ok: "word_text m" "word_text p" "length m < 16" "length p < 512" "length hs < 32" "length body < 65536"
    using assms by (simp_all add: request_ok_def)
  note plain = request_lines_plain [OF assms]
  have four: "4 \<le> length ?head" by (simp add: http_head_def request_lines_def)
  have "length (show_nat (length body)) \<le> 5" using show_nat_length [of "length body" 5] ok by simp
  then have short: "length ?head - 4 \<le> 1023"
    using assms by (simp add: request_ok_def request_text_parts http_head_def request_lines_def
        header_text_def number_header_def)
  have "is_cstr ?head"
    using plain by (auto simp: http_head_def is_cstr_def)
  then have "is_cstr (take (length ?head - 4) ?head)" by (rule is_cstr_subset [OF set_take_subset])
  then have lines: "tokens is_crlf (c_str (take (min (length ?head - 4) 1023) (?head @ body))) = ?ls"
    using short plain tokens_head [of ?ls] by (simp add: request_lines_def)
  have words: "scan_word 15 (m @ '' '' @ p @ '' HTTP/1.1'') = Some (m, '' '' @ p @ '' HTTP/1.1'')"
    "scan_word 511 ('' '' @ p @ '' HTTP/1.1'') = Some (p, '' HTTP/1.1'')"
    "scan_word 15 '' HTTP/1.1'' = Some (''HTTP/1.1'', [])"
  proof -
    show "scan_word 15 (m @ '' '' @ p @ '' HTTP/1.1'') = Some (m, '' '' @ p @ '' HTTP/1.1'')"
      using ok by (intro scan_word_word(1)) (simp_all add: word_text_def is_space_def)
    show "scan_word 511 ('' '' @ p @ '' HTTP/1.1'') = Some (p, '' HTTP/1.1'')"
      using ok scan_word_word(2) [of p 511 "'' HTTP/1.1''"] by (simp add: word_text_def is_space_def)
    show "scan_word 15 '' HTTP/1.1'' = Some (''HTTP/1.1'', [])" by code_simp
  qed
  have "http_minor ''HTTP/1.1'' = 1" by code_simp
  moreover have "List.map_filter header_line (map header_text ?hs) = ?hs"
  proof (rule map_filter_header_text)
    fix h assume "h \<in> set ?hs"
    then have "h = number_header body \<or> h \<in> set hs" by auto
    then have "header_ok h"
      using assms number_header_ok [OF ok(6)] unfolding request_ok_def list_all_iff by blast
    then show "header_line (header_text h) = Some h" by (rule header_line_text)
  qed
  ultimately show ?thesis
    unfolding http_parse_request_def whole request_head_end [OF assms] option.case Let_def lines
    using words ok request_not_chunked [OF assms, unfolded whole] four
    by (cases "body = []") (simp_all add: request_lines_def http_limits blank_request_def del: map_append)
qed

text \<open>Before its last byte a request is not complete, whatever the memory behind it holds.\<close>

lemma take_take_append: "n \<le> length xs \<Longrightarrow> take n (take n xs @ ys) = take n xs"
  by simp

lemma request_incomplete:
  assumes ok: "request_ok m p hs body" and n: "n < length (request_text m p hs body)"
  shows "request_complete (take n (request_text m p hs body) @ stale) n = None"
proof -
  let ?head = "http_head (request_lines m p (hs @ [number_header body]))"
  have whole: "request_text m p hs body = ?head @ body" by (simp add: request_text_def number_header_def)
  have len: "length ?head + length body < 2 ^ 62"
    using ok by (simp add: request_ok_def request_text_parts http_head_def request_lines_def
        header_text_def number_header_def)
      (use show_nat_length [of "length body" 5] in simp)
  have received: "take n (take n (?head @ body) @ stale) = take n (?head @ body)"
    using n unfolding whole by (intro take_take_append) simp
  show ?thesis
  proof (cases "n < length ?head")
    case True
    have "find_header_end (take n (?head @ body)) = None"
    proof (rule ccontr)
      assume "find_header_end (take n (?head @ body)) \<noteq> None"
      then obtain i where i: "find_header_end (take n (?head @ body)) = Some i" by auto
      from find_header_end_append [OF this, of "drop n (?head @ body)"]
      have "find_header_end (?head @ body) = Some i" unfolding append_take_drop_id .
      then have "i = length ?head - 4" using request_head_end [OF ok, of body] by simp
      with find_header_end_bound [OF i] True show False by simp
    qed
    then show ?thesis unfolding whole request_complete_def received by simp
  next
    case False
    then have split: "take n (?head @ body) = ?head @ take (n - length ?head) body" by simp
    have end_at: "find_header_end (take n (?head @ body)) = Some (length ?head - 4)"
      unfolding split by (rule request_head_end [OF ok])
    moreover have "content_length (take n (?head @ body) @ stale) (length ?head - 4) = Some (length body)"
      unfolding split append_assoc by (rule request_head_length [OF ok])
    moreover have "length ?head - 4 + 4 = length ?head" by (rule request_head_long [OF ok])
    ultimately show ?thesis
      unfolding whole request_complete_def received using n len
      by (simp add: whole size_add_def)
  qed
qed

lemma request_complete_text:
  assumes ok: "request_ok m p hs body" and n: "length (request_text m p hs body) \<le> n" "n \<le> length (request_text m p hs body @ rest)"
  shows "request_complete (request_text m p hs body @ rest) n = Some (length (request_text m p hs body))"
proof -
  let ?head = "http_head (request_lines m p (hs @ [number_header body]))"
  have whole: "request_text m p hs body = ?head @ body" by (simp add: request_text_def number_header_def)
  have len: "length ?head + length body < 2 ^ 62"
    using ok by (simp add: request_ok_def request_text_parts http_head_def request_lines_def
        header_text_def number_header_def)
      (use show_nat_length [of "length body" 5] in simp)
  have received: "take n ((?head @ body) @ rest) = ?head @ body @ take (n - length ?head - length body) rest"
    using n by (simp add: whole)
  have "length ?head - 4 + 4 = length ?head" by (rule request_head_long [OF ok])
  then show ?thesis
    unfolding whole request_complete_def received request_head_end [OF ok]
    using request_head_length [OF ok, of "body @ rest"] n len by (simp add: whole size_add_def)
qed

text \<open>
  C16. Receiving a request: while bytes of a request are missing it is not taken for complete,
  whatever stale bytes follow in the buffer; as soon as the last one is there its exact length is
  found, also when bytes of a next request follow; and parsing it gives the method, path, headers
  and body the client wrote.
\<close>

theorem request_received:
  assumes "request_ok m p hs body"
  shows "(\<forall>n stale. n < length (request_text m p hs body) \<longrightarrow>
        request_complete (take n (request_text m p hs body) @ stale) n = None)
    \<and> (\<forall>rest. request_complete (request_text m p hs body @ rest) (length (request_text m p hs body @ rest))
        = Some (length (request_text m p hs body)))
    \<and> http_parse_request uninit (request_text m p hs body) = Parsed \<lparr>rq_method = m, rq_path = p,
        rq_http_minor = 1, rq_headers = hs @ [(''Content-Length'', show_nat (length body))],
        rq_body = body, rq_body_len = length body\<rparr>"
  using request_incomplete [OF assms] request_complete_text [OF assms] request_parsed [OF assms]
  by (simp add: number_header_def)

theorem request_received_witness:
  "http_parse_request [] (request_text ''POST'' ''/a'' [(''Host'', ''x'')] ''hi'') = Parsed \<lparr>rq_method = ''POST'',
     rq_path = ''/a'', rq_http_minor = 1, rq_headers = [(''Host'', ''x''), (''Content-Length'', show_nat 2)],
     rq_body = ''hi'', rq_body_len = 2\<rparr>"
proof -
  have "no_match ''Content-Length:'' (concat (map (\<lambda>l. l @ CRLF) (request_lines ''POST'' ''/a'' [(''Host'', ''x'')])))
      ''Content-Length:''"
    by (rule no_match_check) code_simp
  moreover have "no_match ''Transfer-Encoding:'' (concat (map (\<lambda>l. l @ CRLF) (request_lines ''POST'' ''/a'' [(''Host'', ''x'')])))
      (''Content-Length: '' @ show_nat (length ''hi'') @ CRLF)"
    by (rule no_match_check) code_simp
  moreover have "word_text ''POST''" "word_text ''/a''" "list_all header_ok [(''Host'', ''x'')]"
    "length (request_text ''POST'' ''/a'' [(''Host'', ''x'')] []) \<le> 1020"
    by code_simp+
  ultimately have "request_ok ''POST'' ''/a'' [(''Host'', ''x'')] ''hi''"
    unfolding request_ok_def by simp
  from request_received [OF this, of "[]"] show ?thesis by (simp add: numeral_2_eq_2)
qed

section \<open>Bounds of the parser\<close>

lemma decode_chunks_length:
  assumes "decode_chunks raw pos out outlen = Some r" "length out < outlen" "outlen < 2 ^ 62"
  shows "length r < outlen"
  using assms
proof (induction raw pos out outlen rule: decode_chunks.induct)
  case (1 raw pos out outlen)
  show ?case
  proof (cases "length raw \<le> pos \<or> crlf_index (drop pos raw) = None")
    case True
    then have "decode_chunks raw pos out outlen = Some out"
      by (cases "length raw \<le> pos") (simp_all add: decode_chunks.simps [of raw pos])
    then show ?thesis using "1.prems" by simp
  next
    case False
    then obtain i where i: "crlf_index (drop pos raw) = Some i" by auto
    let ?chunk = "strtoul16 (c_str (take i (drop pos raw)))"
    let ?pos1 = "pos + i + 2"
    show ?thesis
    proof (cases "i = 0 \<or> 16 \<le> i \<or> ?chunk = 0 \<or> length raw < size_add ?pos1 ?chunk
        \<or> outlen \<le> size_add (length out) ?chunk")
      case True
      then have "decode_chunks raw pos out outlen = Some out"
        using False i by (auto simp: decode_chunks.simps [of raw pos] Let_def)
      then show ?thesis using "1.prems" by simp
    next
      case go: False
      then have bounds: "\<not> (length raw < ?pos1 + ?chunk \<or> outlen < length out + ?chunk)"
      proof -
        have "length raw < ?pos1 + ?chunk \<or> outlen < length out + ?chunk \<Longrightarrow> decode_chunks raw pos out outlen = None"
          using go False i by (auto simp: decode_chunks.simps [of raw pos] Let_def)
        then show ?thesis using "1.prems"(1) by auto
      qed
      then have "size_add (length out) ?chunk = length out + ?chunk"
        using "1.prems"(3) by (simp add: size_add_def)
      then have len: "length (out @ take ?chunk (drop ?pos1 raw)) < outlen" using go bounds by auto
      let ?next = "if prefix CRLF (drop (?pos1 + ?chunk) raw) then ?pos1 + ?chunk + 2 else ?pos1 + ?chunk"
      have "decode_chunks raw ?next (out @ take ?chunk (drop ?pos1 raw)) outlen = Some r"
      proof -
        have "decode_chunks raw pos out outlen = decode_chunks raw ?next (out @ take ?chunk (drop ?pos1 raw)) outlen"
          using False go i bounds by (simp add: decode_chunks.simps [of raw pos] Let_def)
        then show ?thesis using "1.prems"(1) by simp
      qed
      then show ?thesis
        by (intro "1.IH" [OF _ i _ refl refl _ _ refl _ len "1.prems"(3)]) (use False go bounds in auto)
    qed
  qed
qed

lemma scan_word_length: "scan_word n s = Some (w, t) \<Longrightarrow> length w \<le> n"
  by (auto simp: scan_word_def Let_def split: if_splits)

lemma header_line_fits: "header_line l = Some (n, v) \<Longrightarrow> length n < 64 \<and> length v < 2048"
  by (auto simp: header_line_def http_limits)

lemma map_filter_set: "x \<in> set (List.map_filter f xs) \<Longrightarrow> \<exists>y. f y = Some x"
  by (induction xs) (auto simp: List.map_filter_simps split: option.splits)

text \<open>
  C31. Bounds of the parser: every field of a parsed request fits its C buffer with its terminator,
  there are at most 32 headers, and the body length is the length of a body below 64 KiB.  The
  parser stays inside its buffers on any input whose body has no minus sign: only a negative chunk
  size can drive the copy of \<^verbatim>\<open>decode_chunked_body\<close> out of them.
\<close>

theorem request_bounds:
  "(http_parse_request uninit raw = Parsed r \<longrightarrow>
      length (rq_method r) < 16 \<and> length (rq_path r) < HTTP_MAX_PATH
      \<and> length (rq_headers r) \<le> HTTP_MAX_HEADERS
      \<and> (\<forall>(n, v) \<in> set (rq_headers r). length n < HTTP_HEADER_NAME_LEN \<and> length v < HTTP_HEADER_VALUE_LEN)
      \<and> rq_body_len r = length (rq_body r) \<and> rq_body_len r < HTTP_MAX_BODY)
   \<and> (length raw < 2 ^ 62 \<and> find_header_end raw = Some h \<and> CHR ''-'' \<notin> set (drop (h + 4) raw)
      \<longrightarrow> http_parse_request uninit raw \<noteq> Overrun)"
proof (intro conjI impI)
  assume "http_parse_request uninit raw = Parsed r"
  then show "length (rq_method r) < 16" "length (rq_path r) < HTTP_MAX_PATH"
    "length (rq_headers r) \<le> HTTP_MAX_HEADERS"
    "\<forall>(n, v) \<in> set (rq_headers r). length n < HTTP_HEADER_NAME_LEN \<and> length v < HTTP_HEADER_VALUE_LEN"
    "rq_body_len r = length (rq_body r)" "rq_body_len r < HTTP_MAX_BODY"
    using decode_chunks_length [of raw _ "[]" HTTP_MAX_BODY] header_line_fits
    by (auto simp: http_parse_request_def decode_chunked_body_def blank_request_def http_limits Let_def fit_def
        dest!: in_set_takeD map_filter_set
        split: option.splits list.splits if_splits prod.splits)
next
  assume "length raw < 2 ^ 62 \<and> find_header_end raw = Some h \<and> CHR ''-'' \<notin> set (drop (h + 4) raw)"
  moreover from this obtain b where "decode_chunks raw (h + 4) [] HTTP_MAX_BODY = Some b"
    using decode_chunks_safe [of "h + 4" raw HTTP_MAX_BODY "[]"] by (auto simp: http_limits)
  ultimately show "http_parse_request uninit raw \<noteq> Overrun"
    by (auto simp: http_parse_request_def decode_chunked_body_def Let_def
        split: option.splits list.splits prod.splits)
qed

text \<open>The minus sign matters: a chunk of size -1 after a chunk of one byte passes both checks.\<close>

lemma overrun_example:
  "decode_chunked_body (''1'' @ CRLF @ ''a'' @ CRLF @ ''-1'' @ CRLF @ ''b'') 0 65536 = None"
proof -
  have "strtoul16 ''1'' = 1" "strtoul16 ''-1'' = 2 ^ 64 - 1"
    by (simp_all add: strtoul16_def skip_sign_def skip_0x_def prefix_nocase_def is_space_def is_xdigit_def
        is_digit_def hex_value_def xdigit_value_def to_lower_def)
  then show ?thesis
    by (simp add: decode_chunked_body_def decode_chunks.simps size_add_def c_str_def)
qed

theorem request_bounds_witness:
  "http_parse_request [] (''GET /x HTTP/1.1'' @ CRLF @ CRLF) \<noteq> Overrun"
proof -
  have "find_header_end (''GET /x HTTP/1.1'' @ CRLF @ CRLF) = Some 15"
    "CHR ''-'' \<notin> set (drop (15 + 4) (''GET /x HTTP/1.1'' @ CRLF @ CRLF))"
    "length (''GET /x HTTP/1.1'' @ CRLF @ CRLF) < 2 ^ 62"
    by simp_all
  then show ?thesis
    using request_bounds [of "[]" "''GET /x HTTP/1.1'' @ CRLF @ CRLF" undefined 15] by blast
qed

text \<open>
  C37. Chunked bodies round trip: the chunks of a body, each behind the hexadecimal text of its
  length and closed by the empty chunk, decode to the body, whatever precedes and follows them, as
  long as the body fits the buffer.
\<close>

theorem chunked_round_trip:
  assumes "[] \<notin> set cs" "length (concat cs) < outlen" "outlen < 2 ^ 60"
    and "length (head @ encode_chunks cs @ rest) < 2 ^ 60"
  shows "decode_chunked_body (head @ encode_chunks cs @ rest) (length head) outlen = Some (concat cs)"
  using decode_chunks_encode [of cs "[]" outlen head rest] assms by (auto simp: decode_chunked_body_def)

theorem chunked_round_trip_witness:
  "decode_chunked_body (''x'' @ encode_chunks [''ab'', ''c''] @ ''y'') 1 16 = Some ''abc''"
proof -
  have "length (encode_chunks [''ab'', ''c'']) < 30" by code_simp
  then show ?thesis using chunked_round_trip [of "[''ab'', ''c'']" 16 "''x''" "''y''"] by simp
qed

section \<open>Paths and credentials\<close>

lemma take_1_all: "(\<And>c. c \<in> set xs \<Longrightarrow> c = a) \<Longrightarrow> take 1 xs = [] \<or> take 1 xs = [a]"
  by (cases xs) auto

lemma normalize_kept:
  "rev (dropWhile (\<lambda>c. c = CHR ''/'') (rev (take (n - 1) (takeWhile (\<lambda>c. c \<noteq> CHR ''?'') u)))) \<noteq> []
   \<Longrightarrow> http_normalize_path u n
      = rev (dropWhile (\<lambda>c. c = CHR ''/'') (rev (take (n - 1) (takeWhile (\<lambda>c. c \<noteq> CHR ''?'') u))))"
  unfolding http_normalize_path_def Let_def by (simp only: if_not_P simp_thms)

lemma trimmed_away: "rev (dropWhile P (rev xs)) = [] \<Longrightarrow> c \<in> set xs \<Longrightarrow> P c"
  by (simp add: dropWhile_eq_Nil_conv)

text \<open>
  Normalised paths: the result is not empty, fits its buffer, has no query, does not end in a
  slash unless it is the root, and is itself normal, so that routing sees one spelling of a path.
\<close>

theorem normalize_path_normal:
  assumes "2 \<le> n"
  shows "let p = http_normalize_path u n in
    p \<noteq> [] \<and> length p < n \<and> CHR ''?'' \<notin> set p \<and> (p = ''/'' \<or> last p \<noteq> CHR ''/'') \<and> http_normalize_path p n = p"
proof -
  let ?path = "take (n - 1) (takeWhile (\<lambda>c. c \<noteq> CHR ''?'') u)"
  let ?kept = "rev (dropWhile (\<lambda>c. c = CHR ''/'') (rev ?path))"
  have query: "CHR ''?'' \<notin> set ?path" by (auto dest!: in_set_takeD set_takeWhileD)
  have sub: "set ?kept \<subseteq> set ?path" using set_dropWhile_subset by fastforce
  have len: "length ?kept \<le> length ?path" using length_dropWhile_le by (metis length_rev)
  have root: "http_normalize_path ''/'' n = ''/''"
    using assms by (simp add: http_normalize_path_def)
  show ?thesis
  proof (cases "?kept = []")
    case True
    have "take 1 ?path = [] \<or> take 1 ?path = ''/''"
      by (rule take_1_all, rule trimmed_away [OF True])
    then have "http_normalize_path u n = ''/''"
      unfolding http_normalize_path_def Let_def if_P [OF True] by auto
    then show ?thesis using assms root by simp
  next
    case False
    then have p: "http_normalize_path u n = ?kept" by (rule normalize_kept)
    have l: "last ?kept \<noteq> CHR ''/''"
      using False hd_dropWhile [of "\<lambda>c. c = CHR ''/''" "rev ?path"] by (simp add: last_rev)
    have q: "CHR ''?'' \<notin> set ?kept" using query sub by blast
    have "length ?path \<le> n - 1" by simp
    then have short: "length ?kept < n" using len assms by linarith
    have "takeWhile (\<lambda>c. c \<noteq> CHR ''?'') ?kept = ?kept" using q unfolding takeWhile_eq_all_conv by blast
    moreover have "take (n - 1) ?kept = ?kept" using short by simp
    moreover have "dropWhile (\<lambda>c. c = CHR ''/'') (rev ?kept) = rev ?kept"
      by (simp only: rev_rev_ident dropWhile_idem)
    ultimately have "rev (dropWhile (\<lambda>c. c = CHR ''/'') (rev (take (n - 1) (takeWhile (\<lambda>c. c \<noteq> CHR ''?'') ?kept)))) = ?kept"
      by (simp only: rev_rev_ident)
    then have "http_normalize_path ?kept n = ?kept" using normalize_kept False by metis
    then show ?thesis unfolding p Let_def using False l q short by blast
  qed
qed

theorem normalize_path_normal_witness:
  "last (http_normalize_path ''/tss//?q=1'' 8) \<noteq> CHR ''/'' \<and> http_normalize_path ''/tss//?q=1'' 8 = ''/tss''"
proof -
  have "http_normalize_path ''/tss//?q=1'' 8 = ''/tss''" by code_simp
  then show ?thesis using normalize_path_normal [of 8 "''/tss//?q=1''"] by (auto simp: Let_def)
qed

text \<open>The bytes of a text.\<close>

definition text_bytes :: "string \<Rightarrow> u8 list" where
  "text_bytes s = map (\<lambda>c. of_nat (char_code c)) s"

lemma text_of_text_bytes [simp]: "text_of_bytes (text_bytes s) = s"
  by (induction s) (simp_all add: text_of_bytes_def text_bytes_def unat_of_nat take_bit_nat_eq_self)

text \<open>
  Basic credentials: what a client sends as Basic authentication for an id without a colon and a
  secret is what the OAuth handler is given, and a request without an Authorization header that
  starts with Basic gives nothing.
\<close>

theorem basic_auth_round_trip:
  "(http_get_header req ''Authorization'' = Some (''Basic '' @ b64_groups (text_bytes (client @ '':'' @ secret)))
      \<and> is_cstr (client @ secret) \<and> CHR '':'' \<notin> set client \<and> length client < id_len \<and> length secret < secret_len
      \<and> length client + length secret < 511
      \<longrightarrow> http_parse_basic_auth req id_len secret_len = Some (client, secret))
   \<and> ((\<forall>auth. http_get_header req ''Authorization'' = Some auth \<longrightarrow> \<not> prefix_nocase ''Basic '' auth)
      \<longrightarrow> http_parse_basic_auth req id_len secret_len = None)"
proof (intro conjI impI)
  let ?bytes = "text_bytes (client @ '':'' @ secret)"
  assume a: "http_get_header req ''Authorization'' = Some (''Basic '' @ b64_groups ?bytes)
      \<and> is_cstr (client @ secret) \<and> CHR '':'' \<notin> set client \<and> length client < id_len \<and> length secret < secret_len
      \<and> length client + length secret < 511"
  have "util_base64_decode (b64_groups ?bytes) 512 = Some ?bytes"
    using a b64_decode_groups [of "[]" ?bytes 512 0] by (simp add: util_base64_decode_def text_bytes_def)
  moreover have "prefix_nocase ''Basic '' (''Basic '' @ b64_groups ?bytes)" by (rule prefix_nocase_same)
  moreover have "c_str (client @ '':'' @ secret) = client @ '':'' @ secret" using a by simp
  moreover have "split_at CHR '':'' (client @ '':'' @ secret) = Some (client, secret)" using a by simp
  ultimately show "http_parse_basic_auth req id_len secret_len = Some (client, secret)"
    using a by (simp add: http_parse_basic_auth_def)
qed (auto simp: http_parse_basic_auth_def split: option.splits)

theorem basic_auth_round_trip_witness:
  "http_parse_basic_auth (blank_request\<lparr>rq_headers := [(''authorization'', ''Basic YTpi'')]\<rparr>) 32 32 = Some (''a'', ''b'')"
proof -
  have "''Basic '' @ b64_groups (text_bytes (''a'' @ '':'' @ ''b'')) = ''Basic YTpi''" by code_simp
  moreover have "http_get_header (blank_request\<lparr>rq_headers := [(''authorization'', ''Basic YTpi'')]\<rparr>) ''Authorization''
    = Some ''Basic YTpi''" by code_simp
  ultimately show ?thesis
    using basic_auth_round_trip [of "blank_request\<lparr>rq_headers := [(''authorization'', ''Basic YTpi'')]\<rparr>" "''a''" "''b''" 32 32]
    by simp
qed

end
