(* ===== verification/Tse_Api.thy ===== *)
theory Tse_Api
  imports Tse_Handlers Tse_Fiscal Tse_Http_Props
begin

text \<open>
  What the REST interface of \<^verbatim>\<open>c/src/handlers.c\<close> guarantees: every answer is well-formed and framed,
  nothing but a correct OAuth request mints a token, protected routes do nothing without one, and
  the transaction routes implement the fiscal journal.
\<close>

section \<open>Every answer is well-formed\<close>

definition answer_ok :: "http_response \<Rightarrow> bool" where
  "answer_ok res \<longleftrightarrow> rs_body_len res = length (rs_body res) \<and> length (rs_body res) < HTTP_MAX_BODY
     \<and> (rs_no_body res \<longleftrightarrow> rs_status res = 204) \<and> (rs_stream res \<longleftrightarrow> rs_status res = 0)
     \<and> rs_status res \<in> {0, 200, 204, 400, 401, 404, 500, 503}"

named_theorems answers_intros \<open>programs whose answers are well-formed\<close>

definition answers :: "('db, 'hw, 'a, http_response) prog \<Rightarrow> bool" where
  "answers m \<longleftrightarrow> (\<forall>s. answer_ok (value_of m s))"

lemma answers_return: "answer_ok res \<Longrightarrow> answers (ret res)"
  by (simp add: answers_def)

lemma answers_bind [answers_intros]: "(\<And>x. answers (f x)) \<Longrightarrow> answers (State_Monad.bind m f)"
  by (simp add: answers_def split_beta)

lemma answers_cases [answers_intros]:
  "answers m \<Longrightarrow> answers n \<Longrightarrow> answers (if b then m else n)"
  "answers m \<Longrightarrow> (\<And>x. answers (f x)) \<Longrightarrow> answers (case r of None \<Rightarrow> m | Some x \<Rightarrow> f x)"
  "(\<And>x y. answers (h x y)) \<Longrightarrow> answers (case p of (x, y) \<Rightarrow> h x y)"
  "(\<And>x. answers (f x)) \<Longrightarrow> (\<And>y. answers (g y)) \<Longrightarrow> answers (case e of Inl x \<Rightarrow> f x | Inr y \<Rightarrow> g y)"
  by (auto split: option.split prod.split sum.split)

lemma answers_reply [answers_intros]:
  "answers (reply 200 json)" "answers (reply 400 json)" "answers (reply 401 json)"
  "answers (reply 404 json)" "answers (reply 500 json)" "answers (reply 503 json)"
  by (auto simp: reply_def set_json_response_def blank_response_def answer_ok_def http_limits Let_def
      intro!: answers_return)

lemma answers_error [answers_intros]:
  "answers (reply_error 401 e d n)" "answers (reply_error 500 e d n)" "answers (reply_error 503 e d n)"
  unfolding reply_error_def by (intro answers_intros)+

lemma run_reply [simp]:
  "run_state (reply st json) s = (set_json_response blank_response st json, s)"
  "run_state (reply_error st e d n) s =
     (set_json_response blank_response st (response_error_json (w_stack s ''esc'') e d n), s)"
  by (simp_all add: reply_def reply_error_def)

lemma set_json_status [simp]: "rs_status (set_json_response res st json) = st"
  by (simp add: set_json_response_def Let_def)

text \<open>The response a refused bearer token gives.\<close>

definition refusal :: "(string \<Rightarrow> string) \<Rightarrow> http_response" where
  "refusal stack = set_json_response blank_response 401
     (response_error_json (stack ''esc'') ''unauthorized'' ''Invalid or missing Bearer token'' 256)"

lemma run_with_bearer:
  "run_state (with_bearer E req m) s = (case run_state (get_bearer_client E req 256) s of
     (None, t) \<Rightarrow> (refusal (w_stack t), t) | (Some serial, t) \<Rightarrow> run_state m t)"
  by (simp add: with_bearer_def validate_bearer_def reply_error_def reply_def refusal_def split_beta
      split: option.split)

lemma answers_with_bearer [answers_intros]:
  assumes "answers m"
  shows "answers (with_bearer E req m)"
proof -
  have "answer_ok (refusal stack)" for stack
    by (simp add: refusal_def set_json_response_def blank_response_def answer_ok_def http_limits Let_def)
  then show ?thesis
    using assms by (auto simp: answers_def run_with_bearer split: option.split prod.split)
qed

lemma answers_handlers [answers_intros]:
  "answers (handle_oauth A E req)" "answers (handle_start_transaction A E req)"
  "answers (handle_finish_transaction A E req tx_id)" "answers (handle_tss_details A E req)"
  "answers (handle_info A E req)" "answers (handle_list_transactions E req)" "answers (handle_health A E)"
  unfolding handle_oauth_def issue_token_def handle_start_transaction_def handle_finish_transaction_def
    handle_tss_details_def handle_info_def handle_list_transactions_def handle_health_def start_answer_def
    finish_answer_def Let_def
  by (intro answers_intros)+

lemma answers_export [answers_intros]: "answers (handle_export_transactions A E mem req)"
proof -
  have "answers (ret (blank_response\<lparr>rs_stream := True, rs_stream_content_type := ct\<rparr>))" for ct
    by (intro answers_return) (simp add: answer_ok_def blank_response_def http_limits)
  then show ?thesis
    unfolding handle_export_transactions_def by (intro answers_intros)
qed

lemma answers_route: "answers (handlers_route A E mem req)"
proof -
  have "answers (ret (blank_response\<lparr>rs_status := 204, rs_no_body := True\<rparr>))"
    by (intro answers_return) (simp add: answer_ok_def blank_response_def http_limits)
  moreover have "answers (reply_not_found meth path)" for meth path
    unfolding reply_not_found_def by (intro answers_intros)
  ultimately show ?thesis
    unfolding handlers_route_def Let_def by (intro answers_intros)
qed

section \<open>Frames of the handlers\<close>

locale api_frame = store_frame +
  assumes token_in: "token_reads \<subseteq> Q"

context api_frame begin

lemma api_bearer [frame]: "kept (get_bearer_client E req n)"
proof -
  have "keeps token_reads R" using rel_keeps token_in by (rule keeps_mono)
  then show ?thesis
    unfolding get_bearer_client_def by (intro frame)
qed

lemma api_reply [frame]:
  "kept (reply st json)" "kept (reply_error st e d n)" "kept (reply_not_found meth path)"
  unfolding reply_def reply_error_def reply_not_found_def by (intro frame)+

lemma api_with_bearer [frame]: "kept m \<Longrightarrow> kept (with_bearer E req m)"
  unfolding with_bearer_def validate_bearer_def by (intro frame)

lemma api_log_time [frame]: "kept (util_fcc_log_time txt n)"
  unfolding util_fcc_log_time_def by (intro frame)

lemma api_json [frame]:
  "kept (response_start_transaction_json tx n)" "kept (response_finish_transaction_json tx n)"
  "kept (open_transaction_json tx)" "kept (response_tss_details_json A serial n)"
  unfolding response_start_transaction_json_def response_finish_transaction_json_def open_transaction_json_def
    response_tss_details_json_def Let_def
  by (intro frame)+

lemma api_append [frame]: "kept (append_transactions n b txs out)"
  by (induction txs arbitrary: b out) (simp_all only: append_transactions.simps, (intro frame; assumption?)+)

lemma api_list_json [frame]: "kept (response_open_transactions_json txs n)"
  unfolding response_open_transactions_json_def by (intro frame)

lemma api_resolve [frame]: "kept (resolve_client_id E req n)"
  unfolding resolve_client_id_def by (intro frame)

lemma api_handlers [frame]:
  "kept (handle_start_transaction A E req)" "kept (handle_finish_transaction A E req tx_id)"
  "kept (handle_tss_details A E req)" "kept (handle_info A E req)"
  "kept (handle_list_transactions E req)" "kept (handle_health A E)"
  "kept (handle_export_transactions A E mem req)"
  unfolding handle_start_transaction_def handle_finish_transaction_def handle_tss_details_def handle_info_def
    handle_list_transactions_def handle_health_def handle_export_transactions_def start_answer_def finish_answer_def Let_def
  by (intro frame)+

lemma api_oauth:
  assumes "\<And>i p. http_parse_basic_auth req 256 256 = Some (i, p) \<Longrightarrow> eas_ok (g_config s) p \<Longrightarrow>
    \<not> config_is_client_allowed (g_config s) (Some (if i \<noteq> [] then i else ''unknown''))"
  shows "on_view view R s (poststate (handle_oauth A E req) s)"
proof -
  have "on_view view R s (poststate (reply_error st e d n) s)" for st e d n
    by (rule io_poststateD) (rule api_reply)
  then show ?thesis
    using assms by (auto simp: handle_oauth_def Let_def split: option.split prod.split)
qed

lemma api_route:
  assumes "\<not> (rq_method req = ''POST'' \<and> http_normalize_path (rq_path req) HTTP_MAX_PATH = ''/oauth/token'')"
  shows "kept (handlers_route A E mem req)"
proof -
  have ret: "kept (ret res)" for res by (intro frame)
  have "kept (if b then handle_oauth A E req else m)" if "\<not> b" "kept m" for b m
    using that by simp
  then show ?thesis
    using assms unfolding handlers_route_def Let_def
    by (auto intro!: io_if io_option ret api_handlers api_reply)
qed

end

section \<open>Who mints tokens\<close>

definition same_tokens :: "tables \<Rightarrow> tables \<Rightarrow> bool" where
  "same_tokens t t' \<longleftrightarrow> t_tokens t' = t_tokens t"

definition no_token_write :: "sql set" where
  "no_token_write = {q. \<forall>t. t_tokens (fst (sql_exec t q)) = t_tokens t}"

lemma no_token_write: "store_statements \<subseteq> no_token_write" "token_reads \<subseteq> no_token_write"
  by (auto simp: store_statements_def setting_writes_def setting_reads_def no_token_write_def token_reads_def)

sublocale sqlite_engine \<subseteq> tokens: api_frame E view no_token_write same_tokens
proof
  show "reflp same_tokens" "transp same_tokens" by (auto simp: same_tokens_def intro!: reflpI transpI)
  show "keeps no_token_write same_tokens" by (simp add: keeps_def same_tokens_def no_token_write_def)
  show "store_statements \<subseteq> no_token_write" "token_reads \<subseteq> no_token_write" by (rule no_token_write)+
  then show "setting_writes \<subseteq> no_token_write" by (auto simp: store_statements_def)
qed

context sqlite_engine begin

lemmas tokens_frame_route = tokens.api_route
lemmas tokens_frame_oauth = tokens.api_oauth

text \<open>A token is looked up without changing anything.\<close>

lemma run_get_bearer_client:
  fixes s :: "('db, 'hw, 'x) server_scheme"
  shows "\<exists>d i. poststate (get_bearer_client E req n) s = s\<lparr>os_ticks := i, db_conn := d\<rparr> \<and> view d = view (db_conn s)"
proof -
  have same: "view (fst (E d (SelectToken tok))) = view d" for d tok
    using view_cases [of d "SelectToken tok"] by auto
  have "\<exists>d i. poststate (db_load_oauth_token E tok n) s = s\<lparr>os_ticks := i, db_conn := d\<rparr> \<and> view d = view (db_conn s)" for tok
  proof -
    let ?d = "fst (E (db_conn s) (SelectToken tok))"
    have "poststate (db_load_oauth_token E tok n) s = s\<lparr>os_ticks := os_ticks s, db_conn := ?d\<rparr>
      \<or> poststate (db_load_oauth_token E tok n) s = s\<lparr>os_ticks := Suc (os_ticks s), db_conn := ?d\<rparr>"
      by (auto simp: db_load_oauth_token_def Let_def split: sql_result.split list.split option.split)
    then show ?thesis using same by blast
  qed
  moreover have "\<exists>d i. s = s\<lparr>os_ticks := i, db_conn := d\<rparr> \<and> view d = view (db_conn s)"
    by (intro exI [of _ "db_conn s"] exI [of _ "os_ticks s"]) simp
  ultimately show ?thesis
    unfolding get_bearer_client_def by (cases "http_parse_bearer req 128") simp_all
qed

end

section \<open>Protected routes\<close>

definition protected_route :: "string \<Rightarrow> string \<Rightarrow> bool" where
  "protected_route meth path \<longleftrightarrow>
     (meth = ''GET'' \<or> meth = ''HEAD'') \<and>
       path \<in> {''/tssdetails'', ''/info'', ''/transactions'', ''/export/transactions''}
     \<or> meth = ''POST'' \<and> path = ''/transaction''
     \<or> (meth = ''PUT'' \<or> meth = ''PATCH'') \<and> match_tx_finish path 32 \<noteq> None"

text \<open>Each of them is a handler that asks for the token first.\<close>

lemma protected_with_bearer:
  assumes "protected_route (rq_method req) (http_normalize_path (rq_path req) HTTP_MAX_PATH)"
  shows "\<exists>m. handlers_route A E mem req = with_bearer E req m"
proof -
  let ?path = "http_normalize_path (rq_path req) HTTP_MAX_PATH"
  have handlers: "\<exists>m. handle_tss_details A E req = with_bearer E req m" "\<exists>m. handle_info A E req = with_bearer E req m"
    "\<exists>m. handle_list_transactions E req = with_bearer E req m"
    "\<exists>m. handle_export_transactions A E mem req = with_bearer E req m"
    "\<exists>m. handle_start_transaction A E req = with_bearer E req m"
    "\<exists>m. handle_finish_transaction A E req tx_id = with_bearer E req m" for tx_id
    unfolding handle_tss_details_def handle_info_def handle_list_transactions_def handle_export_transactions_def
      handle_start_transaction_def handle_finish_transaction_def
    by blast+
  have "match_tx_finish ?path 32 \<noteq> None \<Longrightarrow> \<exists>tx_id. match_tx_finish ?path 32 = Some tx_id" by blast
  with assms handlers show ?thesis
    unfolding protected_route_def handlers_route_def Let_def by (elim disjE conjE) auto
qed

section \<open>Tokens from the login to the last request\<close>

lemma bearer_header:
  assumes "http_get_header req ''Authorization'' = Some (''Bearer '' @ tok)" "list_all is_xdigit tok"
    "tok \<noteq> []" "length tok < 128"
  shows "http_parse_bearer req 128 = Some tok"
proof -
  obtain c cs where tok: "tok = c # cs" using assms(3) by (cases tok) auto
  have "c \<noteq> CHR '' ''" using assms(2) tok xdigit_plain [of c] by (auto simp: is_space_def)
  then have "skip_spaces tok = tok" by (simp add: skip_spaces_def tok)
  moreover have "prefix_nocase ''Bearer '' (''Bearer '' @ tok)" by (rule prefix_nocase_same)
  ultimately show ?thesis
    using assms by (simp add: http_parse_bearer_def)
qed

definition keeps_schema :: "tables \<Rightarrow> tables \<Rightarrow> bool" where
  "keeps_schema t t' \<longleftrightarrow> (t_schema t \<longrightarrow> t_schema t')"

sublocale sqlite_engine \<subseteq> schema: api_frame E view UNIV keeps_schema
proof
  show "reflp keeps_schema" "transp keeps_schema" by (auto simp: keeps_schema_def intro!: reflpI transpI)
  have "t_schema t \<Longrightarrow> t_schema (fst (sql_exec t q))" for t q by (cases q) auto
  then show "keeps UNIV keeps_schema" by (simp add: keeps_def keeps_schema_def)
qed simp_all

context sqlite_engine begin

lemmas schema_frame_route = schema.api_route

end

context sqlite_reliable begin

text \<open>A successful login, down to the token it stored.\<close>

lemma login_run:
  fixes s :: "('db, 'hw, 'x) server_scheme"
  assumes run: "run_state (handle_oauth A E req) s = (res, t)" and ok: "rs_status res = 200"
    and schema: "t_schema (tbl s)"
  obtains u tok client where "length tok = 48" "list_all is_xdigit tok" "t_schema (tbl u)"
    "t = poststate (db_save_oauth_token E tok (Some client) 86400) u"
    "res = set_json_response blank_response 200 (response_oauth_json tok 256)"
    "\<exists>i p. http_parse_basic_auth req 256 256 = Some (i, p) \<and> client = (if i \<noteq> [] then i else ''unknown'')"
proof -
  obtain i p where auth: "http_parse_basic_auth req 256 256 = Some (i, p)"
    and issue: "run_state (issue_token A E (if i \<noteq> [] then i else ''unknown'')) s = (res, t)"
    using run ok by (auto simp: handle_oauth_def Let_def split: option.splits prod.splits if_splits)
  let ?c = "if i \<noteq> [] then i else ''unknown''"
  define v where "v = poststate (if ?c \<noteq> ''unknown'' then store_register_client A E ?c else ret 0) s"
  have "engine.schema.kept (if ?c \<noteq> ''unknown'' then store_register_client A E ?c else ret 0)" by (intro frame)
  from io_poststateD [OF this, of s] have v: "t_schema (tbl v)"
    using schema by (simp add: v_def on_view_def keeps_schema_def)
  obtain tk u where tok: "run_state (util_random_hex 64 24) v = (tk, u)" by fastforce
  then have u: "t_schema (tbl u)" using v by (auto simp: util_random_hex_def split: if_splits)
  have rest: "run_state (case tk of
        None \<Rightarrow> reply_error 500 ''internal_error'' ''token generation failed'' 256
      | Some x \<Rightarrow> do { _ \<leftarrow> db_save_oauth_token E x (Some ?c) 86400; reply 200 (response_oauth_json x 256) }) u
      = (res, t)"
    using issue tok unfolding issue_token_def v_def by (simp add: split_beta)
  then obtain x where x: "tk = Some x" using ok by (cases tk) auto
  with rest have end_run: "t = poststate (db_save_oauth_token E x (Some ?c) 86400) u"
    "res = set_json_response blank_response 200 (response_oauth_json x 256)"
    by (auto simp: split_beta)
  moreover have "length x = 48" "list_all is_xdigit x" using util_random_hex_Some [of 64 24 v x u] tok x by auto
  ultimately show ?thesis using that u auth by blast
qed

end

section \<open>Transactions in the simulator\<close>

text \<open>The path of a finish and the number in it.\<close>

lemma atoll_digits:
  assumes "ds \<noteq> []" "list_all is_digit ds" "digits_value 0 ds < 2 ^ 63"
  shows "atoll ds = int (digits_value 0 ds)"
  using read_int_digits [of ds "[]"] assms by (simp add: atoll_def list_all_iff)

lemma match_tx_finish_number:
  assumes "n < 10 ^ 31"
  shows "match_tx_finish (''/transaction/'' @ show_nat n) 32 = Some (show_nat n)"
proof -
  have "length (show_nat n) < 32" using show_nat_length [OF assms] by simp
  moreover have "\<not> list_ex (\<lambda>c. \<not> is_digit c) (show_nat n)"
    using show_nat_digits by (auto simp: list_ex_iff)
  moreover have "drop 13 (''/transaction/'' @ show_nat n) = show_nat n" by simp
  moreover have "prefix ''/transaction/'' (''/transaction/'' @ show_nat n)" by (rule prefixI) simp
  ultimately show ?thesis
    unfolding match_tx_finish_def by (simp add: Let_def util_strlcpy_def)
qed

text \<open>The first field of an answer, as a client reads it, when its text needs no escapes.\<close>

lemma esc_digits:
  assumes "list_all (\<lambda>c. is_digit c \<or> c = CHR ''-'') v"
  shows "esc_text v = v \<and> map reread v = v"
  using assms by (induction v) (auto simp: esc_char_def json_esc_def reread_def is_digit_def)

lemma show_int_chars: "list_all (\<lambda>c. is_digit c \<or> c = CHR ''-'') (show_int i)"
  using show_nat_digits by (auto simp: show_int_def list_all_iff)

lemma read_first_field:
  assumes "plain_key k" "0 < n"
  shows "json_get_string (''{'' @ member_text k (show_int i) @ rest) k n = Some (fit n (show_int i))"
proof -
  note esc = esc_digits [OF show_int_chars [of i]]
  have "member_text k (show_int i) = json_field (k, show_int i)"
    using esc by (simp add: member_text_def quoted_def json_field_def)
  then have "find_key (''{'' @ member_text k (show_int i) @ rest) k = Some (DQ # esc_text (show_int i) @ DQ # rest)"
    using assms(1) find_key_field_same [of k "show_int i" rest] by (simp add: find_key_plain find_key_skip)
  then show ?thesis
    using assms(2) json_copy_esc_text [of "n - 1" "show_int i" rest] esc
    by (simp add: json_get_string_def is_space_def fit_def)
qed

lemma run_log_time: "\<exists>v i. run_state (util_fcc_log_time txt n) s = (v, s\<lparr>os_ticks := i\<rparr>)"
proof -
  have "\<exists>i. s = s\<lparr>os_ticks := i\<rparr>" by (rule exI [of _ "os_ticks s"]) simp
  then show ?thesis
    unfolding util_fcc_log_time_def by (cases "scan_iso txt") auto
qed

lemma fit_append: "length a < n \<Longrightarrow> fit n (a @ b) = a @ fit (n - length a) b"
  by (simp add: fit_def)

text \<open>What a start answers, and what it leaves of the state.\<close>

lemma run_start_json:
  "\<exists>rest i. run_state (response_start_transaction_json tx n) s
     = (fit n (''{'' @ member_text ''transactionNumber'' (show_int (tx_number tx)) @ rest), s\<lparr>os_ticks := i\<rparr>)"
proof -
  obtain v i where "run_state (util_fcc_log_time (tx_time_start tx) 64) s = (v, s\<lparr>os_ticks := i\<rparr>)"
    using run_log_time by blast
  then show ?thesis unfolding response_start_transaction_json_def Let_def by auto
qed

lemma run_finish_json: "\<exists>json i. run_state (response_finish_transaction_json tx n) s = (json, s\<lparr>os_ticks := i\<rparr>)"
proof -
  obtain v i where "run_state (util_fcc_log_time (if tx_time_end tx \<noteq> [] then tx_time_end tx else tx_time_start tx) 64) s
      = (v, s\<lparr>os_ticks := i\<rparr>)"
    using run_log_time by blast
  then show ?thesis unfolding response_finish_transaction_json_def by auto
qed

lemma read_answer_number:
  assumes "- (2 ^ 63) \<le> i" "i < 2 ^ 63"
  shows "json_get_string (rs_body (set_json_response blank_response st (fit HTTP_MAX_BODY
      (''{'' @ member_text ''transactionNumber'' (show_int i) @ rest)))) ''transactionNumber'' 64 = Some (show_int i)"
proof -
  have "nat i < 10 ^ 19" "nat (- i) < 10 ^ 19" using assms by simp_all
  then have "length (show_int i) \<le> 20"
    using show_nat_length [of "nat i" 19] show_nat_length [of "nat (- i)" 19] by (simp add: show_int_def)
  then have short: "length (''{'' @ member_text ''transactionNumber'' (show_int i)) < HTTP_MAX_BODY" "length (show_int i) < 64"
    by (simp_all add: member_text_def quoted_def http_limits)
  have "rs_body (set_json_response blank_response st (fit HTTP_MAX_BODY
      (''{'' @ member_text ''transactionNumber'' (show_int i) @ rest)))
    = fit HTTP_MAX_BODY ((''{'' @ member_text ''transactionNumber'' (show_int i)) @ rest)"
    by (simp add: set_json_response_def Let_def)
  also have "\<dots> = ''{'' @ member_text ''transactionNumber'' (show_int i) @ fit (HTTP_MAX_BODY -
        length (''{'' @ member_text ''transactionNumber'' (show_int i))) rest"
    using fit_append [OF short(1), of rest] unfolding append_assoc .
  finally have "rs_body (set_json_response blank_response st (fit HTTP_MAX_BODY
      (''{'' @ member_text ''transactionNumber'' (show_int i) @ rest)))
    = ''{'' @ member_text ''transactionNumber'' (show_int i) @ fit (HTTP_MAX_BODY -
        length (''{'' @ member_text ''transactionNumber'' (show_int i))) rest" .
  moreover have "plain_key ''transactionNumber''" by (simp add: plain_key_def is_alnum_def)
  ultimately show ?thesis using read_first_field short(2) by simp
qed

context sqlite_engine begin

lemma run_resolve_client:
  fixes s :: "('db, 'hw, 'x) server_scheme"
  shows "\<exists>c d i. run_state (resolve_client_id E req n) s = (c, s\<lparr>os_ticks := i, db_conn := d\<rparr>) \<and> view d = view (db_conn s)
    \<and> (\<forall>x. pick_body_field req ''clientId'' 256 = Some x \<longrightarrow> c = util_trim (fit n x))"
proof (cases "pick_body_field req ''clientId'' 256")
  case None
  obtain d i where "poststate (get_bearer_client E req 256) s = s\<lparr>os_ticks := i, db_conn := d\<rparr>" "view d = view (db_conn s)"
    using run_get_bearer_client by blast
  then show ?thesis
    using None by (intro exI [of _ d] exI [of _ i] exI) (simp add: resolve_client_id_def split_beta)
next
  case (Some x)
  then show ?thesis
    by (intro exI [of _ "db_conn s"] exI [of _ "os_ticks s"] exI) (simp add: resolve_client_id_def)
qed

end

text \<open>What the handlers see after the token check: the same state, later.\<close>

definition later :: "('db \<Rightarrow> tables) \<Rightarrow> ('db, 'hw, 'x) server_scheme \<Rightarrow> ('db, 'hw, 'x) server_scheme \<Rightarrow> bool" where
  "later view s t \<longleftrightarrow> (\<exists>d i. t = s\<lparr>os_ticks := i, db_conn := d\<rparr> \<and> view d = view (db_conn s))"

lemma later_trans:
  assumes "later view s t" "later view t u"
  shows "later view s u"
proof -
  obtain d i where t: "t = s\<lparr>os_ticks := i, db_conn := d\<rparr>" "view d = view (db_conn s)"
    using assms(1) by (auto simp: later_def)
  obtain d' i' where "u = t\<lparr>os_ticks := i', db_conn := d'\<rparr>" "view d' = view (db_conn t)"
    using assms(2) by (auto simp: later_def)
  then show ?thesis
    unfolding later_def using t by (intro exI [of _ d'] exI [of _ i']) simp
qed

lemma later_same:
  assumes "later view s t"
  shows "view (db_conn t) = view (db_conn s)" "w_active t = w_active s" "has_entropy t = has_entropy s"
    "w_stack t = w_stack s" "os_urandom t = os_urandom s"
  using assms by (auto simp: later_def has_entropy_def)

context sqlite_reliable begin

lemma run_token_check:
  fixes s :: "('db, 'hw, 'x) server_scheme" and m :: "string \<Rightarrow> ('db, 'hw, 'x, http_response) prog"
  assumes "value_of (get_bearer_client E req 256) s \<noteq> None"
  obtains u c where "later view s u"
    "run_state (with_bearer E req (do { c \<leftarrow> resolve_client_id E req 256; m c })) s = run_state (m c) u"
    "\<And>x. pick_body_field req ''clientId'' 256 = Some x \<Longrightarrow> c = util_trim (fit 256 x)"
proof -
  obtain serial t where bearer: "run_state (get_bearer_client E req 256) s = (Some serial, t)"
    using assms by (metis not_None_eq prod.collapse)
  have t: "later view s t"
    using engine.run_get_bearer_client [of req 256 s] bearer by (auto simp: later_def)
  obtain c u where u: "run_state (resolve_client_id E req 256) t = (c, u)" "later view t u"
    "\<And>x. pick_body_field req ''clientId'' 256 = Some x \<Longrightarrow> c = util_trim (fit 256 x)"
    using engine.run_resolve_client [of req 256 t] unfolding later_def by blast
  show ?thesis
    by (rule that [of u c]) (use t u bearer later_trans in \<open>auto simp: run_with_bearer\<close>)
qed

lemma run_start_request:
  fixes s :: "('db, 'hw, 'x) server_scheme"
  assumes sim: "\<not> w_active s" "fiscal_inv (tbl s)" "has_entropy s"
    and token: "value_of (get_bearer_client E req 256) s \<noteq> None"
  defines "f \<equiv> fiscal_of (tbl s)"
  shows "\<exists>res t c now sig. run_state (handle_start_transaction A E req) s = (res, t) \<and> rs_status res = 200
    \<and> json_get_string (rs_body res) ''transactionNumber'' 64 = Some (show_int (f_last f + 1))
    \<and> (\<forall>x. pick_body_field req ''clientId'' 256 = Some x \<longrightarrow> c = util_trim (fit 256 x))
    \<and> fiscal_of (tbl t) = fiscal_start c (pick_body_field req ''externalTransactionId'' 256)
        (body_field req ''processType'' 512) (body_field req ''processData'' 4096) now sig f
    \<and> (f_last f < 2 ^ 63 - 2 \<and> f_signatures f < 2 ^ 63 - 2 \<longrightarrow> fiscal_inv (tbl t))
    \<and> w_active t = w_active s \<and> os_urandom t = os_urandom s"
proof -
  let ?ext = "body_field req ''externalTransactionId'' 256"
  let ?pt = "body_field req ''processType'' 512" and ?pd = "body_field req ''processData'' 4096"
  let ?m = "\<lambda>c. do { st \<leftarrow> State_Monad.get;
     r \<leftarrow> store_start_transaction A E c ?pt ?pd (if ?ext \<noteq> [] then Some ?ext else None) (stack_transaction (w_stack st));
     start_answer r }"
  have handler: "handle_start_transaction A E req = with_bearer E req (do { c \<leftarrow> resolve_client_id E req 256; ?m c })"
    by (simp add: handle_start_transaction_def Let_def)
  obtain u c where u: "later view s u"
    "run_state (handle_start_transaction A E req) s = run_state (?m c) u"
    "\<And>x. pick_body_field req ''clientId'' 256 = Some x \<Longrightarrow> c = util_trim (fit 256 x)"
    unfolding handler by (rule run_token_check [OF token, where m = ?m]) blast
  note same = later_same [OF u(1)]
  have ext: "external_or_null (if ?ext \<noteq> [] then Some ?ext else None) = pick_body_field req ''externalTransactionId'' 256"
    by (auto simp: external_or_null_def body_field_def pick_body_field_def split: option.splits)
  let ?x = "new_tx c (pick_body_field req ''externalTransactionId'' 256) ?pt ?pd (clock_text u) (f_signatures f + 1) (next_signature u)"
  obtain d where d: "run_state (store_start_transaction A E c ?pt ?pd (if ?ext \<noteq> [] then Some ?ext else None)
        (stack_transaction (w_stack u))) u = (Some (row_tx (serial_of view u) (f_last f + 1, ?x)),
        u\<lparr>os_ticks := Suc (os_ticks u), os_draws := Suc (os_draws u), db_conn := d\<rparr>)"
    "fiscal_of (view d) = fiscal_start c (pick_body_field req ''externalTransactionId'' 256) ?pt ?pd (clock_text u) (next_signature u) f"
    "f_last f < 2 ^ 63 - 2 \<and> f_signatures f < 2 ^ 63 - 2 \<longrightarrow> fiscal_inv (view d)"
    using run_sim_start [of u c ?pt ?pd "if ?ext \<noteq> [] then Some ?ext else None" "stack_transaction (w_stack u)"]
      sim same unfolding ext f_def by (auto simp: store_start_transaction_def)
  let ?v = "u\<lparr>os_ticks := Suc (os_ticks u), os_draws := Suc (os_draws u), db_conn := d\<rparr>"
  obtain rest i where json: "run_state (response_start_transaction_json (row_tx (serial_of view u) (f_last f + 1, ?x)) HTTP_MAX_BODY) ?v
      = (fit HTTP_MAX_BODY (''{'' @ member_text ''transactionNumber'' (show_int (f_last f + 1)) @ rest), ?v\<lparr>os_ticks := i\<rparr>)"
    using run_start_json [of "row_tx (serial_of view u) (f_last f + 1, ?x)" HTTP_MAX_BODY ?v]
    by (auto simp: row_tx_def)
  have range: "- (2 ^ 63) \<le> f_last f + 1" "f_last f + 1 < 2 ^ 63"
    using sim(2) by (auto simp: fiscal_inv_def counter_at_def f_def fiscal_of_def)
  have run: "run_state (?m c) u = (set_json_response blank_response 200 (fit HTTP_MAX_BODY
      (''{'' @ member_text ''transactionNumber'' (show_int (f_last f + 1)) @ rest)), ?v\<lparr>os_ticks := i\<rparr>)"
    using d(1) json by (simp add: start_answer_def)
  show ?thesis
    by (rule exI, rule exI, rule exI [of _ c], rule exI [of _ "clock_text u"], rule exI [of _ "next_signature u"],
        rule conjI, rule u(2) [unfolded run])
      (use u(3) read_answer_number [OF range, of 200 rest] d(2,3) same in simp_all)
qed

lemma run_finish_request:
  fixes s :: "('db, 'hw, 'x) server_scheme"
  assumes sim: "\<not> w_active s" "fiscal_inv (tbl s)" "has_entropy s"
    and token: "value_of (get_bearer_client E req 256) s \<noteq> None" and n: "n < 2 ^ 63"
  defines "f \<equiv> fiscal_of (tbl s)"
  shows "\<exists>res t now sig. run_state (handle_finish_transaction A E req (show_nat n)) s = (res, t)
    \<and> w_active t = w_active s \<and> os_urandom t = os_urandom s
    \<and> (case fiscal_finish (int n) (body_field req ''processType'' 512) (body_field req ''processData'' 4096) now sig f of
         Some f' \<Rightarrow> rs_status res = 200 \<and> fiscal_of (tbl t) = f' \<and> (f_signatures f < 2 ^ 63 - 2 \<longrightarrow> fiscal_inv (tbl t))
       | None \<Rightarrow> rs_status res = 400 \<and> tbl t = tbl s \<and> rs_body res = response_tx_error_json (w_stack s ''esc'')
           ''ErrorNoTransaction'' ''No open transaction for this number'' 512)"
proof -
  let ?pt = "body_field req ''processType'' 512" and ?pd = "body_field req ''processData'' 4096"
  let ?m = "\<lambda>c. do { st \<leftarrow> State_Monad.get;
     r \<leftarrow> store_finish_transaction A E c (atoll (show_nat n)) ?pt ?pd (stack_transaction (w_stack st)) 64 256;
     finish_answer r }"
  have handler: "handle_finish_transaction A E req (show_nat n) = with_bearer E req (do { c \<leftarrow> resolve_client_id E req 256; ?m c })"
    by (simp add: handle_finish_transaction_def Let_def)
  obtain u c where u: "later view s u"
    "run_state (handle_finish_transaction A E req (show_nat n)) s = run_state (?m c) u"
    unfolding handler by (rule run_token_check [OF token, where m = ?m]) blast
  note same = later_same [OF u(1)]
  have number: "atoll (show_nat n) = int n"
    using n show_nat_digits by (subst atoll_digits) (auto simp: list_all_iff)
  let ?out0 = "stack_transaction (w_stack u)"
  show ?thesis
  proof (cases "fiscal_finish (int n) ?pt ?pd (clock_text u) (next_signature u) f")
    case None
    obtain d where d: "run_state (sim_finish_transaction E (int n) ?pt ?pd ?out0 64 256) u
        = (Inl (no_transaction_error 64 256), u\<lparr>db_conn := d\<rparr>)" "view d = tbl u"
      using sim_finish_missing [of u "int n" ?pt ?pd "clock_text u" "next_signature u" ?out0 64 256] None sim same
      by (auto simp: fiscal_inv_def f_def)
    have "run_state (?m c) u = (set_json_response blank_response 400 (response_tx_error_json (w_stack s ''esc'')
        ''ErrorNoTransaction'' ''No open transaction for this number'' 512), u\<lparr>db_conn := d\<rparr>)"
      using d(1) sim(1) same by (simp add: store_finish_transaction_def finish_answer_def number no_transaction_error_def)
    note run = u(2) [unfolded this]
    show ?thesis
      by (rule exI, rule exI, rule exI [of _ "clock_text u"], rule exI [of _ "next_signature u"], rule conjI, rule run)
        (use None d(2) same in \<open>simp add: set_json_response_def Let_def response_tx_error_json_def fit_def http_limits\<close>)
  next
    case (Some f')
    obtain d y where d: "run_state (sim_finish_transaction E (int n) ?pt ?pd ?out0 64 256) u
        = (Inr (row_tx (serial_of view u) (int n, y)),
           u\<lparr>os_ticks := Suc (os_ticks u), os_draws := Suc (os_draws u), db_conn := d\<rparr>)" "fiscal_of (view d) = f'"
        "f_signatures f < 2 ^ 63 - 2 \<longrightarrow> fiscal_inv (view d)"
      using run_sim_finish [of u "int n" ?pt ?pd f' ?out0 64 256] Some sim same by (auto simp: f_def)
    let ?v = "u\<lparr>os_ticks := Suc (os_ticks u), os_draws := Suc (os_draws u), db_conn := d\<rparr>"
    obtain json i where json: "run_state (response_finish_transaction_json (row_tx (serial_of view u) (int n, y)) HTTP_MAX_BODY) ?v
        = (json, ?v\<lparr>os_ticks := i\<rparr>)"
      using run_finish_json [of _ _ ?v] by blast
    have "run_state (?m c) u = (set_json_response blank_response 200 json, ?v\<lparr>os_ticks := i\<rparr>)"
      using d(1) sim(1) same json by (simp add: store_finish_transaction_def finish_answer_def number)
    note run = u(2) [unfolded this]
    show ?thesis
      by (rule exI, rule exI, rule exI [of _ "clock_text u"], rule exI [of _ "next_signature u"], rule conjI, rule run)
        (use Some d(2,3) same in simp)
  qed
qed

end

lemma route_finish:
  assumes "rq_method req \<in> {''PUT'', ''PATCH''}" "n < 2 ^ 63"
    "http_normalize_path (rq_path req) HTTP_MAX_PATH = ''/transaction/'' @ show_nat n"
  shows "handlers_route A E mem req = handle_finish_transaction A E req (show_nat n)"
proof -
  have "n < 10 ^ 31" using assms(2) by simp
  then show ?thesis
    using assms(1,3) match_tx_finish_number [of n] by (auto simp: handlers_route_def Let_def)
qed

section \<open>Properties\<close>

text \<open>
  C5. Protected routes: without a bearer token that is stored and not expired, every route of the
  transaction, information and export handlers answers 401 and changes nothing but the clock and
  the connection, whose tables stay as they were; no call reaches the TSE.
\<close>

theorem protected_routes_refuse:
  fixes s :: "('db, 'hw, 'x) server_scheme"
  assumes "sqlite_engine E view"
    and "protected_route (rq_method req) (http_normalize_path (rq_path req) HTTP_MAX_PATH)"
    and "value_of (get_bearer_client E req 256) s = None"
  shows "rs_status (value_of (handlers_route A E mem req) s) = 401
    \<and> (\<exists>d i. poststate (handlers_route A E mem req) s = s\<lparr>os_ticks := i, db_conn := d\<rparr>
         \<and> view d = view (db_conn s))"
proof -
  obtain m :: "('db, 'hw, 'x, http_response) prog" where "handlers_route A E mem req = with_bearer E req m"
    using protected_with_bearer [OF assms(2)] by blast
  moreover obtain t where "run_state (get_bearer_client E req 256) s = (None, t)"
    using assms(3) by (cases "run_state (get_bearer_client E req 256) s") simp
  ultimately show ?thesis
    using sqlite_engine.run_get_bearer_client [OF assms(1), of req 256 s]
    by (simp add: run_with_bearer refusal_def set_json_response_def Let_def)
qed

text \<open>
  C4. Only a correct OAuth request mints a token: whatever statements fail, a request after which the
  token table differs was a POST to /oauth/token with Basic credentials, with the EAS code of the
  configuration (or the configuration accepts any) and with a client that is on the allowlist.
\<close>

theorem tokens_only_for_authorised:
  assumes "sqlite_engine E view"
    and "t_tokens (view (db_conn (poststate (handlers_route A E mem req) s))) \<noteq> t_tokens (view (db_conn s))"
  shows "rq_method req = ''POST'' \<and> http_normalize_path (rq_path req) HTTP_MAX_PATH = ''/oauth/token''
    \<and> (\<exists>i p. http_parse_basic_auth req 256 256 = Some (i, p) \<and> eas_ok (g_config s) p
         \<and> config_is_client_allowed (g_config s) (Some (if i \<noteq> [] then i else ''unknown'')))"
proof -
  have changed: "\<not> on_view view same_tokens s (poststate (handlers_route A E mem req) s)"
    using assms(2) by (simp add: on_view_def same_tokens_def)
  have route: "rq_method req = ''POST'' \<and> http_normalize_path (rq_path req) HTTP_MAX_PATH = ''/oauth/token''"
  proof (rule ccontr)
    assume "\<not> ?thesis"
    from io_poststateD [OF sqlite_engine.tokens_frame_route [OF assms(1) this]] changed show False by blast
  qed
  then have "handlers_route A E mem req = handle_oauth A E req" by (simp add: handlers_route_def Let_def)
  with changed route sqlite_engine.tokens_frame_oauth [OF assms(1), of req s A] show ?thesis by metis
qed

text \<open>
  C15. On a database on which no statement fails, a login gives access for a day: when a POST to
  /oauth/token is answered 200, the answer carries a token of 48 hexadecimal digits, and as long as the
  stored tokens stay as they are, every request that sends it as its bearer is taken for the client of
  the Basic credentials while the clock reads at most a day more than at the login, and refused
  afterwards.  (Where storing the token fails, the answer is 200 all the same.)
\<close>

theorem login_gives_access:
  fixes s :: "('db, 'hw, 'x) server_scheme"
  assumes "sqlite_reliable E view" and "t_schema (view (db_conn s))"
    and "rq_method req = ''POST''" and "http_normalize_path (rq_path req) HTTP_MAX_PATH = ''/oauth/token''"
    and "run_state (handlers_route A E mem req) s = (res, t)" and "rs_status res = 200"
    and "now = os_time t (os_ticks t - 1)" and "0 \<le> now" and "now < 2 ^ 54"
  shows "\<exists>tok client secret. rs_body res = response_oauth_json tok 256 \<and> length tok = 48
    \<and> http_parse_basic_auth req 256 256 = Some (client, secret)
    \<and> (\<forall>req' s'. http_get_header req' ''Authorization'' = Some (''Bearer '' @ tok)
         \<and> t_schema (view (db_conn s')) \<and> t_tokens (view (db_conn s')) = t_tokens (view (db_conn t))
         \<longrightarrow> value_of (get_bearer_client E req' 256) (s' :: ('db, 'hw, 'x) server_scheme)
           = (if os_time s' (os_ticks s') \<le> now + 86400
              then Some (fit 256 (if client \<noteq> [] then client else ''unknown'')) else None))"
proof -
  have "run_state (handle_oauth A E req) s = (res, t)"
    using assms(3,4,5) by (simp add: handlers_route_def Let_def)
  then obtain u tok client where tok: "length tok = 48" "list_all is_xdigit tok" and u: "t_schema (view (db_conn u))"
    and t: "t = poststate (db_save_oauth_token E tok (Some client) 86400) u"
    and res: "res = set_json_response blank_response 200 (response_oauth_json tok 256)"
    and auth: "\<exists>i p. http_parse_basic_auth req 256 256 = Some (i, p) \<and> client = (if i \<noteq> [] then i else ''unknown'')"
    by (rule sqlite_reliable.login_run [OF assms(1) _ assms(6,2)])
  have clock: "os_time t = os_time u" "os_ticks t = Suc (Suc (os_ticks u))"
    unfolding t by (simp_all add: db_save_oauth_token_def Let_def)
  then have now: "now = os_time u (Suc (os_ticks u))" using assms(7) by simp
  note saved = sqlite_reliable.tbl_db_save_oauth_token [OF assms(1) u, of tok "Some client" 86400]
  have expiry: "token_expiry (Some (fit 64 (iso_time (gmtime (now + 86400))))) = Some (now + 86400)"
    using assms(8,9) by (intro token_expiry_iso) simp_all
  have "value_of (get_bearer_client E req' 256) s' = (if os_time s' (os_ticks s') \<le> now + 86400 then Some (fit 256 client) else None)"
    if "http_get_header req' ''Authorization'' = Some (''Bearer '' @ tok)" "t_schema (view (db_conn s'))"
      "t_tokens (view (db_conn s')) = t_tokens (view (db_conn t))"
    for req' and s' :: "('db, 'hw, 'x) server_scheme"
  proof -
    have "http_parse_bearer req' 128 = Some tok" using that(1) tok by (intro bearer_header) auto
    then show ?thesis
      using saved that(2,3) expiry
      by (simp add: get_bearer_client_def sqlite_reliable.value_db_load_oauth_token [OF assms(1)] t update_conv'
          flip: now)
  qed
  moreover have "rs_body res = response_oauth_json tok 256"
    by (simp add: res set_json_response_def Let_def response_oauth_json_def http_limits fit_def)
  ultimately show ?thesis using tok auth by blast
qed

section \<open>Examples\<close>

definition sample_request :: "string \<Rightarrow> string \<Rightarrow> (string \<times> string) list \<Rightarrow> string \<Rightarrow> http_request" where
  "sample_request m p hs body = blank_request\<lparr>rq_method := m, rq_path := p, rq_headers := hs, rq_body := body,
     rq_body_len := length body\<rparr>"

lemma sample_request_simps [simp]:
  "rq_method (sample_request m p hs body) = m" "rq_path (sample_request m p hs body) = p"
  "rq_headers (sample_request m p hs body) = hs" "rq_body (sample_request m p hs body) = body"
  by (simp_all add: sample_request_def blank_request_def)

definition login_server :: "(tables, unit) server" where
  "login_server = sim_server\<lparr>g_config := (g_config sim_server)\<lparr>cfg_eas_code := ''b'', cfg_allowed_client_serial := []\<rparr>\<rparr>"

lemma sample_login:
  "http_parse_basic_auth (sample_request m p [(''Authorization'', ''Basic YTpi'')] body) 256 256 = Some (''a'', ''b'')"
proof -
  have "http_get_header (sample_request m p [(''Authorization'', ''Basic YTpi'')] body) ''Authorization'' = Some ''Basic YTpi''"
    by (simp add: http_get_header_def eq_nocase_def)
  moreover have "prefix_nocase ''Basic '' ''Basic YTpi''" by code_simp
  moreover have "util_base64_decode ''YTpi'' 512 = Some [97, 58, 98]" by code_simp
  moreover have "text_of_bytes [97, 58, 98] = ''a:b''" by code_simp
  ultimately show ?thesis
    by (simp add: http_parse_basic_auth_def c_str_def split_at_def)
qed

definition login_request :: http_request where
  "login_request = sample_request ''POST'' ''/oauth/token'' [(''Authorization'', ''Basic YTpi'')] []"

lemma update_nonempty [simp]: "AList.update k v t \<noteq> []"
  by (cases t) auto

lemma login_path: "http_normalize_path ''/oauth/token'' HTTP_MAX_PATH = ''/oauth/token''"
  by (simp add: http_normalize_path_def http_limits)

text \<open>The login of the example, down to the token it stores.\<close>

lemma login_example:
  obtains res t where "run_state (handlers_route sample_api sql_exec True login_request) login_server = (res, t)"
    "rs_status res = 200" "t_tokens (db_conn t) \<noteq> []" "os_time t (os_ticks t - 1) = 1700000000"
proof -
  let ?run = "run_state (handlers_route sample_api sql_exec True login_request) login_server"
  have "\<not> w_active login_server" "os_urandom login_server n 24 = Some (replicate 24 7)"
    "t_schema (db_conn login_server)" "os_time login_server n = 1700000000" for n
    by (simp_all add: login_server_def sim_server_def sim_tables_def fresh_tables_def sample_server_def)
  moreover have "eas_ok (g_config login_server) ''b''" "config_is_client_allowed (g_config login_server) (Some ''a'')"
    by (simp_all add: login_server_def eas_ok_def config_is_client_allowed_def)
  ultimately have "rs_status (fst ?run) = 200 \<and> t_tokens (db_conn (snd ?run)) \<noteq> []
      \<and> os_time (snd ?run) (os_ticks (snd ?run) - 1) = 1700000000"
    by (simp add: handlers_route_def login_request_def login_path handle_oauth_def issue_token_def sample_login
        store_register_client_def util_random_hex_def db_save_oauth_token_def Let_def)
  then show ?thesis using that by (metis prod.collapse)
qed

lemma login_route: "rq_method login_request = ''POST''"
  "http_normalize_path (rq_path login_request) HTTP_MAX_PATH = ''/oauth/token''"
  by (simp_all add: login_request_def login_path)

theorem login_gives_access_witness:
  "\<exists>tok. rs_body (value_of (handlers_route sample_api sql_exec True login_request) login_server)
     = response_oauth_json tok 256 \<and> length tok = 48"
proof -
  obtain res t where run: "run_state (handlers_route sample_api sql_exec True login_request) login_server = (res, t)"
    "rs_status res = 200" "os_time t (os_ticks t - 1) = 1700000000" by (rule login_example)
  have "t_schema (db_conn login_server)"
    by (simp add: login_server_def sim_server_def sim_tables_def fresh_tables_def)
  from login_gives_access [OF mem.sqlite_reliable_axioms this login_route run(1,2) run(3) [symmetric]] run(1)
  show ?thesis by auto
qed

theorem tokens_only_for_authorised_witness:
  "\<exists>i p. http_parse_basic_auth login_request 256 256 = Some (i, p) \<and> eas_ok (g_config login_server) p"
proof -
  obtain res t where run: "run_state (handlers_route sample_api sql_exec True login_request) login_server = (res, t)"
    "t_tokens (db_conn t) \<noteq> []" by (rule login_example)
  moreover have "t_tokens (db_conn login_server) = []"
    by (simp add: login_server_def sim_server_def sim_tables_def fresh_tables_def)
  ultimately show ?thesis
    using tokens_only_for_authorised [OF mem.engine.sqlite_engine_axioms, of sample_api True login_request login_server]
    by auto
qed

theorem protected_routes_refuse_witness:
  "rs_status (value_of (handlers_route sample_api sql_exec True (sample_request ''GET'' ''/info'' [] [])) sample_server) = 401"
proof -
  have path: "http_normalize_path ''/info'' HTTP_MAX_PATH = ''/info''"
    by (simp add: http_normalize_path_def http_limits)
  have "http_get_header (sample_request ''GET'' ''/info'' [] []) name = None" for name
    by (simp add: http_get_header_def)
  then have "value_of (get_bearer_client sql_exec (sample_request ''GET'' ''/info'' [] []) 256) sample_server = None"
    by (simp add: get_bearer_client_def http_parse_bearer_def)
  then show ?thesis
    using protected_routes_refuse [OF mem.engine.sqlite_engine_axioms, of "sample_request ''GET'' ''/info'' [] []"
        sample_server sample_api True]
    by (simp add: protected_route_def path)
qed

text \<open>
  C30. Every answer is well-formed, and one with a body is framed: on any request and state the routing
  gives one of the codes 200, 204, 400, 401, 404, 500 and 503 or a stream, with a body of the stated
  length below 64 KiB; and what is written for an answer that is neither the stream of an export nor
  without a body is read back by a client as exactly one message with exactly that body.  The export
  has no Content-Length, and ends with the connection; the answer to OPTIONS has no body.
\<close>

theorem answers_framed:
  "let r = value_of (handlers_route A E mem req) s; bytes = concat (response_writes r ka) in
   answer_ok r
   \<and> (\<not> rs_no_body r \<and> \<not> rs_stream r \<longrightarrow>
       request_complete bytes (length bytes) = Some (length bytes)
       \<and> (\<exists>h. find_header_end bytes = Some h \<and> content_length bytes h = Some (rs_body_len r)
             \<and> drop (h + 4) bytes = rs_body r))"
proof -
  let ?r = "value_of (handlers_route A E mem req) s"
  have ok: "answer_ok ?r" by (rule answers_route [unfolded answers_def, rule_format])
  moreover have "length (rs_body ?r) = rs_body_len ?r" "rs_body_len ?r < 2 ^ 31" "0 \<le> rs_status ?r"
      "rs_status ?r < 2 ^ 31"
    using ok by (auto simp: answer_ok_def http_limits)
  ultimately show ?thesis
    using response_framed [of ?r ka] unfolding Let_def by blast
qed

theorem answers_framed_witness:
  "let bytes = concat (response_writes (value_of (handlers_route sample_api sql_exec True
       (sample_request ''GET'' ''/nope'' [] [])) sample_server) True) in
   request_complete bytes (length bytes) = Some (length bytes)"
proof -
  let ?r = "value_of (handlers_route sample_api sql_exec True (sample_request ''GET'' ''/nope'' [] [])) sample_server"
  have "http_normalize_path ''/nope'' HTTP_MAX_PATH = ''/nope''"
    by (simp add: http_normalize_path_def http_limits)
  then have "\<not> rs_no_body ?r" "\<not> rs_stream ?r"
    by (simp_all add: handlers_route_def reply_not_found_def set_json_response_def blank_response_def Let_def)
  then show ?thesis
    using answers_framed [of sample_api sql_exec True "sample_request ''GET'' ''/nope'' [] []" sample_server True]
    by (simp add: Let_def)
qed

text \<open>
  C22. A receipt is opened: while the simulator signs (no TSE is active), on a database on which no
  statement fails and with random bytes to be had, a POST to /transaction with a valid token is
  answered 200 and names the next transaction number in the field a client reads, and the journal then
  holds exactly one more row: active, under that number, with the client, external id, process type
  and data of the request and the next signature counter.
\<close>

theorem receipt_started:
  fixes s :: "('db, 'hw, 'x) server_scheme"
  assumes "sqlite_reliable E view" and "\<not> w_active s" and "fiscal_inv (view (db_conn s))" and "has_entropy s"
    and "rq_method req = ''POST''" and "http_normalize_path (rq_path req) HTTP_MAX_PATH = ''/transaction''"
    and "value_of (get_bearer_client E req 256) s \<noteq> None"
  shows "let f = fiscal_of (view (db_conn s)); (res, t) = run_state (handlers_route A E mem req) s in
    rs_status res = 200
    \<and> json_get_string (rs_body res) ''transactionNumber'' 64 = Some (show_int (f_last f + 1))
    \<and> (\<exists>c now sig. (\<forall>x. pick_body_field req ''clientId'' 256 = Some x \<longrightarrow> c = util_trim (fit 256 x))
        \<and> fiscal_of (view (db_conn t)) = fiscal_start c (pick_body_field req ''externalTransactionId'' 256)
            (body_field req ''processType'' 512) (body_field req ''processData'' 4096) now sig f)"
proof -
  have route: "(handlers_route A E mem req :: ('db, 'hw, 'x, http_response) prog) = handle_start_transaction A E req"
    using assms(5,6) by (simp add: handlers_route_def Let_def)
  show ?thesis
    unfolding route using sqlite_reliable.run_start_request [OF assms(1-4,7), of A]
    by (elim exE conjE) (simp add: Let_def, blast)
qed

text \<open>
  C23. A receipt is closed: while the simulator signs (no TSE is active), on a database on which no
  statement fails and with random bytes to be had, a PUT or PATCH to /transaction/\<open>n\<close> with a valid
  token is answered 200 exactly when the journal has an active row \<open>n\<close>, which is then closed with the
  process type and data of the request and the next signature counter; otherwise it is answered 400
  with \<^verbatim>\<open>ErrorNoTransaction\<close> and the tables are unchanged.
\<close>

theorem receipt_finished:
  fixes s :: "('db, 'hw, 'x) server_scheme"
  assumes "sqlite_reliable E view" and "\<not> w_active s" and "fiscal_inv (view (db_conn s))" and "has_entropy s"
    and "rq_method req \<in> {''PUT'', ''PATCH''}" and "n < 2 ^ 63"
    and "http_normalize_path (rq_path req) HTTP_MAX_PATH = ''/transaction/'' @ show_nat n"
    and "value_of (get_bearer_client E req 256) s \<noteq> None"
  shows "let (res, t) = run_state (handlers_route A E mem req) s in \<exists>now sig.
    case fiscal_finish (int n) (body_field req ''processType'' 512) (body_field req ''processData'' 4096) now sig
        (fiscal_of (view (db_conn s))) of
      Some f' \<Rightarrow> rs_status res = 200 \<and> fiscal_of (view (db_conn t)) = f'
    | None \<Rightarrow> rs_status res = 400 \<and> view (db_conn t) = view (db_conn s)
        \<and> rs_body res = response_tx_error_json (w_stack s ''esc'') ''ErrorNoTransaction'' ''No open transaction for this number'' 512"
proof -
  note route = route_finish [OF assms(5,6,7)]
  obtain res t now sig where fin: "run_state (handle_finish_transaction A E req (show_nat n)) s = (res, t)"
    "case fiscal_finish (int n) (body_field req ''processType'' 512) (body_field req ''processData'' 4096) now sig
        (fiscal_of (view (db_conn s))) of
      Some f' \<Rightarrow> rs_status res = 200 \<and> fiscal_of (view (db_conn t)) = f'
        \<and> (f_signatures (fiscal_of (view (db_conn s))) < 2 ^ 63 - 2 \<longrightarrow> fiscal_inv (view (db_conn t)))
    | None \<Rightarrow> rs_status res = 400 \<and> view (db_conn t) = view (db_conn s)
        \<and> rs_body res = response_tx_error_json (w_stack s ''esc'') ''ErrorNoTransaction'' ''No open transaction for this number'' 512"
    using sqlite_reliable.run_finish_request [OF assms(1-4,8,6), of A] by blast
  show ?thesis
    unfolding route fin(1) prod.case Let_def
    by (rule exI [of _ now], rule exI [of _ sig]) (use fin(2) in \<open>auto split: option.splits\<close>)
qed

text \<open>
  C3. The life of a receipt over HTTP, while the simulator signs (no TSE is active), on a database on
  which no statement fails, with random bytes to be had, counters below their limits and a valid token
  on each request: the number a client reads from the answer to its start, put into the path of a
  finish, closes that receipt, and doing so a second time is refused; the three requests are answered
  200, 200 and 400, whatever clients and data they name.
\<close>

theorem receipt_lifecycle:
  fixes s :: "('db, 'hw, 'x) server_scheme"
  assumes rel: "sqlite_reliable E view" and sim: "\<not> w_active s"
    and inv: "fiscal_inv (view (db_conn s))" "f_last (fiscal_of (view (db_conn s))) < 2 ^ 63 - 2"
      "f_signatures (fiscal_of (view (db_conn s))) < 2 ^ 63 - 4"
    and entropy: "\<forall>k. \<exists>bs. os_urandom s k 32 = Some bs \<and> length bs = 32"
    and r1: "rq_method r1 = ''POST''" "http_normalize_path (rq_path r1) HTTP_MAX_PATH = ''/transaction''"
      "value_of (get_bearer_client E r1 256) s \<noteq> None" "run_state (handlers_route A E mem r1) s = (a1, s1)"
    and num: "json_get_string (rs_body a1) ''transactionNumber'' 64 = Some num"
    and r2: "rq_method r2 \<in> {''PUT'', ''PATCH''}"
      "http_normalize_path (rq_path r2) HTTP_MAX_PATH = ''/transaction/'' @ num"
      "value_of (get_bearer_client E r2 256) s1 \<noteq> None" "run_state (handlers_route A E mem r2) s1 = (a2, s2)"
    and r3: "rq_method r3 \<in> {''PUT'', ''PATCH''}"
      "http_normalize_path (rq_path r3) HTTP_MAX_PATH = ''/transaction/'' @ num"
      "value_of (get_bearer_client E r3 256) s2 \<noteq> None" "run_state (handlers_route A E mem r3) s2 = (a3, s3)"
  shows "rs_status a1 = 200 \<and> rs_status a2 = 200 \<and> rs_status a3 = 400"
proof -
  let ?f = "fiscal_of (view (db_conn s))"
  define n where "n = nat (f_last ?f + 1)"
  have last: "0 \<le> f_last ?f" using inv(1) by (simp add: fiscal_inv_def counter_at_def fiscal_of_def)
  then have n: "int n = f_last ?f + 1" "n < 2 ^ 63" using inv(2) by (simp_all add: n_def)
  have ent: "has_entropy u" if "os_urandom u = os_urandom s" for u :: "('db, 'hw, 'x) server_scheme"
    using entropy that by (simp add: has_entropy_def)
  have "run_state (handle_start_transaction A E r1) s = (a1, s1)"
    using r1(1,2,4) by (simp add: handlers_route_def Let_def)
  then obtain c now sig where s1: "rs_status a1 = 200" "w_active s1 = w_active s" "os_urandom s1 = os_urandom s"
    "json_get_string (rs_body a1) ''transactionNumber'' 64 = Some (show_int (f_last ?f + 1))"
    "fiscal_of (view (db_conn s1)) = fiscal_start c (pick_body_field r1 ''externalTransactionId'' 256)
        (body_field r1 ''processType'' 512) (body_field r1 ''processData'' 4096) now sig ?f"
    "fiscal_inv (view (db_conn s1))"
    using sqlite_reliable.run_start_request [OF rel sim inv(1) ent [OF refl] r1(3), of A] inv(2,3) by auto
  have named: "num = show_nat n" using num s1(4) last by (simp add: show_int_def n_def)
  note p2 = r2(2) [unfolded named] and p3 = r3(2) [unfolded named]
  have sim1: "\<not> w_active s1" using sim s1(2) by simp
  obtain now2 sig2 where s2: "w_active s2 = w_active s" "os_urandom s2 = os_urandom s"
    "case fiscal_finish (int n) (body_field r2 ''processType'' 512) (body_field r2 ''processData'' 4096) now2 sig2
        (fiscal_of (view (db_conn s1))) of
       Some f' \<Rightarrow> rs_status a2 = 200 \<and> fiscal_of (view (db_conn s2)) = f' \<and>
         (f_signatures (fiscal_of (view (db_conn s1))) < 2 ^ 63 - 2 \<longrightarrow> fiscal_inv (view (db_conn s2)))
     | None \<Rightarrow> rs_status a2 = 400 \<and> view (db_conn s2) = view (db_conn s1) \<and> rs_body a2
         = response_tx_error_json (w_stack s1 ''esc'') ''ErrorNoTransaction'' ''No open transaction for this number'' 512"
    using sqlite_reliable.run_finish_request [OF rel sim1 s1(6) ent [OF s1(3)] r2(3) n(2), of A]
      r2(4) [unfolded route_finish [OF r2(1) n(2) p2]] s1(2,3) by auto
  have open_row: "open_row (new_tx c e pt pd nw g sg)" for c e pt pd nw g sg
    by (simp add: open_row_def new_tx_def)
  from s2(3) have f2: "rs_status a2 = 200" "fiscal_inv (view (db_conn s2))"
    "\<exists>y. f_rows (fiscal_of (view (db_conn s2))) (int n) = Some y \<and> \<not> open_row y"
    using s1(5) inv(3) n(1) open_row
    by (simp_all add: fiscal_finish_def fiscal_start_def) (simp add: open_row_def close_row_def)
  have sim2: "\<not> w_active s2" using sim s2(1) by simp
  have "fiscal_finish (int n) pt pd nw sg (fiscal_of (view (db_conn s2))) = None" for pt pd nw sg
    using f2(3) by (auto simp: fiscal_finish_def)
  then have "rs_status a3 = 400"
    using sqlite_reliable.run_finish_request [OF rel sim2 f2(2) ent [OF s2(2)] r3(3) n(2), of A]
      r3(4) [unfolded route_finish [OF r3(1) n(2) p3]] by auto
  then show ?thesis using s1(1) f2(1) by blast
qed

definition token_server :: "(tables, unit) server" where
  "token_server = sim_server\<lparr>db_conn := sim_tables\<lparr>t_tokens :=
     [(''aa'', \<lparr>tok_client = ''a'', tok_issued = [], tok_expires = []\<rparr>)]\<rparr>\<rparr>"

lemma token_server_ready:
  "\<not> w_active token_server" "fiscal_inv (db_conn token_server)" "has_entropy token_server"
  "f_last (fiscal_of (db_conn token_server)) = 0" "f_signatures (fiscal_of (db_conn token_server)) = 0"
  "t_tokens (db_conn token_server) = [(''aa'', \<lparr>tok_client = ''a'', tok_issued = [], tok_expires = []\<rparr>)]"
proof -
  have "atoll (show_int 0) = 0" by (rule atoll_show_int) simp_all
  then show "\<not> w_active token_server" "fiscal_inv (db_conn token_server)" "has_entropy token_server"
    "f_last (fiscal_of (db_conn token_server)) = 0" "f_signatures (fiscal_of (db_conn token_server)) = 0"
    "t_tokens (db_conn token_server) = [(''aa'', \<lparr>tok_client = ''a'', tok_issued = [], tok_expires = []\<rparr>)]"
    by (simp_all add: fiscal_inv_def counter_at_def setting_int_def has_entropy_def token_server_def sim_server_def
        sim_tables_def fresh_tables_def fiscal_of_def)
qed

abbreviation token_header :: "(string \<times> string) list" where
  "token_header \<equiv> [(''Authorization'', ''Bearer aa'')]"

lemma token_accepted:
  fixes s :: "(tables, 'hw, 'x) server_scheme"
  assumes "t_schema (db_conn s)" "t_tokens (db_conn s) = [(''aa'', \<lparr>tok_client = ''a'', tok_issued = [], tok_expires = []\<rparr>)]"
  shows "value_of (get_bearer_client sql_exec (sample_request m p token_header body) 256) s \<noteq> None"
proof -
  have "http_get_header (sample_request m p token_header body) ''Authorization'' = Some (''Bearer '' @ ''aa'')"
    by (simp add: http_get_header_def eq_nocase_def)
  then have "http_parse_bearer (sample_request m p token_header body) 128 = Some ''aa''"
    by (rule bearer_header) (simp_all add: is_xdigit_def is_digit_def)
  then show ?thesis
    using assms by (simp add: get_bearer_client_def db_load_oauth_token_def column_text_def token_expiry_def Let_def)
qed

lemma transaction_path: "http_normalize_path ''/transaction'' HTTP_MAX_PATH = ''/transaction''"
  by (simp add: http_normalize_path_def http_limits)

lemma transaction_1_path: "http_normalize_path ''/transaction/1'' HTTP_MAX_PATH = ''/transaction/'' @ show_nat 1"
proof -
  have "show_nat 1 = ''1''" by code_simp
  then show ?thesis by (simp add: http_normalize_path_def http_limits)
qed

lemma token_server_schema: "t_schema (db_conn token_server)"
  using token_server_ready(2) by (simp add: fiscal_inv_def)

theorem receipt_started_witness:
  "rs_status (value_of (handlers_route sample_api sql_exec True (sample_request ''POST'' ''/transaction'' token_header [])) token_server) = 200"
proof -
  have "value_of (get_bearer_client sql_exec (sample_request ''POST'' ''/transaction'' token_header []) 256) token_server \<noteq> None"
    using token_server_schema token_server_ready(6) by (rule token_accepted)
  from receipt_started [OF mem.sqlite_reliable_axioms token_server_ready(1-3) _ _ this, of sample_api True]
  show ?thesis by (simp add: transaction_path Let_def split_beta)
qed

theorem receipt_finished_witness:
  "rs_status (value_of (handlers_route sample_api sql_exec True (sample_request ''PUT'' ''/transaction/1'' token_header [])) token_server) = 400"
proof -
  have "value_of (get_bearer_client sql_exec (sample_request ''PUT'' ''/transaction/1'' token_header []) 256) token_server \<noteq> None"
    using token_server_schema token_server_ready(6) by (rule token_accepted)
  moreover have "fiscal_finish (int 1) pt pd now sig (fiscal_of (db_conn token_server)) = None" for pt pd now sig
    by (simp add: fiscal_finish_def fiscal_of_def token_server_def sim_tables_def fresh_tables_def)
  ultimately show ?thesis
    using receipt_finished [OF mem.sqlite_reliable_axioms token_server_ready(1-3), of
        "sample_request ''PUT'' ''/transaction/1'' token_header []" 1 sample_api True]
    by (simp add: transaction_1_path Let_def split_beta)
qed

text \<open>The three requests of the example, with the states between them.\<close>

theorem receipt_lifecycle_witness:
  "let start = handlers_route sample_api sql_exec True (sample_request ''POST'' ''/transaction'' token_header []);
       finish = handlers_route sample_api sql_exec True (sample_request ''PUT'' ''/transaction/1'' token_header []);
       s1 = poststate start token_server; s2 = poststate finish s1 in
   rs_status (value_of start token_server) = 200 \<and> rs_status (value_of finish s1) = 200
   \<and> rs_status (value_of finish s2) = 400"
proof -
  let ?r1 = "sample_request ''POST'' ''/transaction'' token_header []"
  let ?r2 = "sample_request ''PUT'' ''/transaction/1'' token_header []"
  let ?start = "handlers_route sample_api sql_exec True ?r1" and ?finish = "handlers_route sample_api sql_exec True ?r2"
  let ?s1 = "poststate ?start token_server"
  let ?s2 = "poststate ?finish ?s1"
  have ent: "\<forall>k. \<exists>bs. os_urandom token_server k 32 = Some bs \<and> length bs = 32"
    by (simp add: token_server_def sim_server_def)
  have tok: "value_of (get_bearer_client sql_exec ?r1 256) token_server \<noteq> None"
    using token_server_schema token_server_ready(6) by (rule token_accepted)
  have kept: "t_tokens (db_conn (poststate (handlers_route sample_api sql_exec True req) s)) = t_tokens (db_conn s)"
    "t_schema (db_conn s) \<Longrightarrow> t_schema (db_conn (poststate (handlers_route sample_api sql_exec True req) s))"
    if "req = ?r1 \<or> req = ?r2" for req and s :: "(tables, unit) server"
  proof -
    have no: "\<not> (rq_method req = ''POST'' \<and> http_normalize_path (rq_path req) HTTP_MAX_PATH = ''/oauth/token'')"
      using that by (auto simp: transaction_path)
    show "t_tokens (db_conn (poststate (handlers_route sample_api sql_exec True req) s)) = t_tokens (db_conn s)"
      using io_poststateD [OF mem.engine.tokens_frame_route [OF no], of s sample_api True]
      by (simp add: on_view_def same_tokens_def)
    show "t_schema (db_conn s) \<Longrightarrow> t_schema (db_conn (poststate (handlers_route sample_api sql_exec True req) s))"
      using io_poststateD [OF mem.engine.schema_frame_route [OF no], of s sample_api True]
      by (simp add: on_view_def keeps_schema_def)
  qed
  have tok1: "value_of (get_bearer_client sql_exec ?r2 256) ?s1 \<noteq> None"
    by (rule token_accepted) (simp_all only: kept token_server_schema token_server_ready(6) simp_thms)
  have tok2: "value_of (get_bearer_client sql_exec ?r2 256) ?s2 \<noteq> None"
    by (rule token_accepted) (simp_all only: kept token_server_schema token_server_ready(6) simp_thms)
  have "run_state ?start token_server = run_state (handle_start_transaction sample_api sql_exec ?r1) token_server"
    by (simp add: handlers_route_def transaction_path)
  then have num: "json_get_string (rs_body (value_of ?start token_server)) ''transactionNumber'' 64 = Some (show_int 1)"
    using mem.run_start_request [OF token_server_ready(1-3) tok, of sample_api] token_server_ready(4) by auto
  have "show_int 1 = show_nat 1" by (simp add: show_int_def)
  then show ?thesis
    using receipt_lifecycle [OF mem.sqlite_reliable_axioms token_server_ready(1,2) _ _ ent _ _ tok
        prod.collapse [symmetric] num _ _ tok1 prod.collapse [symmetric] _ _ tok2 prod.collapse [symmetric]]
      token_server_ready(4,5)
    by (simp add: transaction_path transaction_1_path Let_def)
qed

end
