(* ===== verification/Tse_Conn_Props.thy ===== *)
theory Tse_Conn_Props
  imports Tse_Conn Tse_Api
begin

text \<open>
  What the connection loop guarantees: requests sent one after the other on a connection are served
  one by one in their order, however the bytes arrive; a peer that closes in the middle of a request
  keeps the loop busy for ever; an export is a faithful stream of its chunks.
\<close>

section \<open>Writing\<close>

lemma write_loop_prefix:
  "write_loop data evs out = (ok, evs', out') \<Longrightarrow> \<exists>sent. out' = out @ sent \<and> prefix sent data \<and> (ok \<longrightarrow> sent = data)"
proof (induction data evs out rule: write_loop.induct)
  case (3 c data n evs out)
  then obtain sent where "out' = (out @ take n (c # data)) @ sent" "prefix sent (drop n (c # data))"
    "ok \<longrightarrow> sent = drop n (c # data)" by auto
  then show ?case
    by (intro exI [of _ "take n (c # data) @ sent"])
      (metis append_assoc append_take_drop_id prefix_order.refl prefix_prefix same_prefix_prefix)
qed auto

lemma http_write_all_output:
  assumes "http_write_all wr data = (True, wr')"
  shows "wr_output wr' = wr_output wr @ data"
  using assms write_loop_prefix [of data "wr_sends wr" "wr_output wr"]
  by (auto simp: http_write_all_def split: prod.splits)

section \<open>Requests that are framed\<close>

text \<open>
  A request text whose end the loop finds: incomplete before its last byte, whatever follows in
  memory, and of exactly its length once it is there, whatever was received after it.
\<close>

definition framed :: "string \<Rightarrow> bool" where
  "framed q \<longleftrightarrow> 0 < length q \<and> length q < RAW_BUFFER
     \<and> (\<forall>n stale. n < length q \<longrightarrow> request_complete (take n q @ stale) n = None)
     \<and> (\<forall>n rest. length q \<le> n \<and> n \<le> length (q @ rest) \<longrightarrow> request_complete (q @ rest) n = Some (length q))"

lemma request_text_framed:
  assumes ok: "request_ok m p hs body"
  shows "framed (request_text m p hs body)"
proof -
  have "length (show_nat (length body)) \<le> 5" "length (show_nat 0) = 1"
    using show_nat_length [of "length body" 5] ok by (simp_all add: request_ok_def show_nat.simps [of 0])
  then have "length (request_text m p hs body) < RAW_BUFFER"
    using ok by (simp add: request_ok_def request_text_parts RAW_BUFFER_def http_limits)
  moreover have "0 < length (request_text m p hs body)" by (simp add: request_text_parts)
  ultimately show ?thesis
    unfolding framed_def using request_incomplete [OF ok] request_complete_text [OF ok] by blast
qed

section \<open>Serving in order\<close>

text \<open>The specification: the requests one by one, until one closes the connection.\<close>

fun serve_all :: "'hw worm_api \<Rightarrow> 'db engine \<Rightarrow> bool \<Rightarrow> string list \<Rightarrow> writer \<Rightarrow> ('db, 'hw, 'a, ending) prog" where
  "serve_all A E mem [] wr = ret (Closed wr)"
| "serve_all A E mem (q # qs) wr = do {
     r \<leftarrow> serve_request A E mem q wr;
     (case r of
        Crash \<Rightarrow> ret Crashed
      | Last wr' \<Rightarrow> ret (Closed wr')
      | Next wr' \<Rightarrow> serve_all A E mem qs wr') }"

text \<open>A read that moves \<open>n > 0\<close> bytes.\<close>

definition delivers :: "arrival \<Rightarrow> bool" where
  "delivers a \<longleftrightarrow> (\<exists>n. a = Arrives n \<and> 0 < n)"

lemma fill_buffer_delivers:
  assumes "received < CLIENT_BUFFER - 1" "rd_arrivals rd = Arrives n # as" "0 < n" "rd_input rd \<noteq> []"
    "length buf = CLIENT_BUFFER"
  obtains bs buf' where "bs \<noteq> []" "prefix bs (rd_input rd)" "received + length bs \<le> CLIENT_BUFFER - 1"
    "fill_buffer buf received rd = (Some (buf', received + length bs),
       rd\<lparr>rd_arrivals := as, rd_input := drop (length bs) (rd_input rd)\<rparr>)"
    "length buf' = CLIENT_BUFFER" "take (received + length bs) buf' = take received buf @ bs"
proof -
  define bs where "bs = take (min n (CLIENT_BUFFER - 1 - received)) (rd_input rd)"
  let ?buf = "take received buf @ bs @ NUL # drop (received + length bs + 1) buf"
  have bs: "bs \<noteq> []" "received + length bs \<le> CLIENT_BUFFER - 1" "prefix bs (rd_input rd)"
    using assms by (auto simp: bs_def take_is_prefix)
  show ?thesis
  proof (rule that [OF bs(1,3,2)])
    show "fill_buffer buf received rd = (Some (?buf, received + length bs),
       rd\<lparr>rd_arrivals := as, rd_input := drop (length bs) (rd_input rd)\<rparr>)"
      using assms(1,2) bs(1) unfolding fill_buffer_def Let_def by (simp only: bs_def next_arrival.simps if_not_P not_le split_conv arrival.case if_False)
    show "length ?buf = CLIENT_BUFFER" "take (received + length bs) ?buf = take received buf @ bs"
      using assms(1,5) bs(2) by simp_all
  qed
qed

lemma handle_client_serves:
  fixes s :: "('db, 'hw, 'x) server_scheme"
  assumes "\<forall>q \<in> set qs. framed q" "take received buf @ rd_input rd = concat qs" "length buf = CLIENT_BUFFER"
    "received \<le> CLIENT_BUFFER - 1" "\<forall>a \<in> set (rd_arrivals rd). delivers a" "length (rd_input rd) \<le> length (rd_arrivals rd)"
    "length (rd_arrivals rd) + length qs < fuel"
  shows "run_state (handle_client A E mem fuel buf received rd wr) s = run_state (serve_all A E mem qs wr) s"
  using assms
proof (induction fuel arbitrary: qs buf received rd wr s)
  case 0
  then show ?case by simp
next
  case (Suc fuel)
  show ?case
  proof (cases qs)
    case Nil
    then have "received = 0" "rd_input rd = []" using Suc.prems(2,3,4) by auto
    moreover have "request_complete buf 0 = None" by (simp add: request_complete_def)
    moreover have "fst (fill_buffer buf 0 rd) = None"
      using \<open>rd_input rd = []\<close> by (auto simp: fill_buffer_def split: prod.split arrival.split)
    ultimately show ?thesis
      using Nil by (auto simp: CLIENT_BUFFER_def http_limits split: prod.split option.split)
  next
    case (Cons q qs')
    have q: "framed q" "0 < length q" "length q < RAW_BUFFER" using Suc.prems(1) Cons by (auto simp: framed_def)
    have len: "received \<le> length buf" using Suc.prems(3,4) by (simp add: CLIENT_BUFFER_def)
    show ?thesis
    proof (cases "received < length q")
      case True
      have "take received buf = take received q"
      proof -
        have "take received (take received buf @ rd_input rd) = take received (concat qs)"
          by (simp only: Suc.prems(2))
        then show ?thesis using True Cons len by simp
      qed
      then have "buf = take received q @ drop received buf" by (metis append_take_drop_id)
      then have incomplete: "request_complete buf received = None"
        using q(1) True unfolding framed_def by metis
      have "rd_input rd \<noteq> []"
      proof
        assume "rd_input rd = []"
        then have "length (take received buf) = length (concat qs)" using Suc.prems(2) by simp
        then show False using True Cons len by simp
      qed
      then obtain a as where as: "rd_arrivals rd = a # as" using Suc.prems(6) by (cases "rd_arrivals rd") auto
      then obtain n where n: "rd_arrivals rd = Arrives n # as" "0 < n"
        using Suc.prems(5) by (auto simp: delivers_def)
      have room: "received < CLIENT_BUFFER - 1"
        using True q(3) by (simp add: CLIENT_BUFFER_def RAW_BUFFER_def)
      obtain bs buf' where bs: "bs \<noteq> []" "prefix bs (rd_input rd)" "received + length bs \<le> CLIENT_BUFFER - 1"
        "fill_buffer buf received rd = (Some (buf', received + length bs),
           rd\<lparr>rd_arrivals := as, rd_input := drop (length bs) (rd_input rd)\<rparr>)"
        "length buf' = CLIENT_BUFFER" "take (received + length bs) buf' = take received buf @ bs"
        by (rule fill_buffer_delivers [OF room n \<open>rd_input rd \<noteq> []\<close> Suc.prems(3)])
      let ?rd = "rd\<lparr>rd_arrivals := as, rd_input := drop (length bs) (rd_input rd)\<rparr>"
      have "bs @ drop (length bs) (rd_input rd) = rd_input rd" using bs(2) by (auto simp: prefix_def)
      then have "take (received + length bs) buf' @ rd_input ?rd = concat qs"
        using Suc.prems(2) bs(6) by simp
      moreover have "length bs \<ge> 1" using bs(1) by (simp add: Suc_le_eq)
      ultimately have "run_state (handle_client A E mem fuel buf' (received + length bs) ?rd wr) s
          = run_state (serve_all A E mem qs wr) s"
        using Suc.prems bs as by (intro Suc.IH) auto
      then show ?thesis using incomplete room bs(4) by simp
    next
      case False
      then have room: "length q \<le> received" by simp
      have "take received buf @ rd_input rd = q @ concat qs'" using Suc.prems(2) Cons by simp
      then have split: "take received buf = q @ drop (length q) (take received buf)"
        using room len by (metis append_eq_append_conv_if append_take_drop_id length_take min.absorb2 take_take)
      then have "buf = q @ (drop (length q) (take received buf) @ drop received buf)"
        by (metis append.assoc append_take_drop_id)
      moreover from this have "request_complete (q @ (drop (length q) (take received buf) @ drop received buf)) received = Some (length q)"
        using q(1) room len unfolding framed_def by (metis length_append)
      ultimately have complete: "request_complete buf received = Some (length q)" "take (length q) buf = q"
        by (metis, metis append_eq_conv_conj)
      let ?rest = "received - length q"
      let ?buf = "if length q < received then take ?rest (drop (length q) buf) @ drop ?rest buf else buf"
      have buf: "length ?buf = CLIENT_BUFFER" "take ?rest ?buf = drop (length q) (take received buf)"
        using Suc.prems(3) len room by (auto simp: drop_take)
      have rest: "take ?rest ?buf @ rd_input rd = concat qs'"
        using split Suc.prems(2) Cons unfolding buf(2) by (metis append_assoc concat.simps(2) same_append_eq)
      have next_run: "run_state (handle_client A E mem fuel ?buf ?rest rd wr') t = run_state (serve_all A E mem qs' wr') t"
        for wr' and t :: "('db, 'hw, 'x) server_scheme"
        using Suc.prems Cons by (intro Suc.IH [OF _ rest buf(1)]) (auto simp: le_diff_conv)
      then show ?thesis
        using complete q(3) Cons
        by (cases "length q < received") (simp_all add: Let_def split_beta split: step.split)
    qed
  qed
qed

section \<open>A connection ends\<close>

lemma request_complete_bound: "request_complete buf n = Some len \<Longrightarrow> 0 < n"
  by (rule gr0I) (auto dest!: request_complete_header)

lemma serve_nothing: "\<exists>wr'. value_of (serve_request A E mem [] wr) s = Last wr'"
  by (simp add: serve_request_def http_parse_request_def split_beta)

lemma next_arrival_spends:
  assumes "next_arrival False arrivals = (Arrives n, as)"
  shows "length as < length arrivals"
  using assms by (induction "False" arrivals rule: next_arrival.induct) auto

lemma fill_buffer_spends:
  assumes "fill_buffer buf n rd = (Some (buf', k), rd')" "\<not> rd_closed rd"
  shows "length (rd_arrivals rd') + length (rd_input rd') + k < length (rd_arrivals rd) + length (rd_input rd) + n
    \<and> \<not> rd_closed rd'"
  using assms next_arrival_spends [of "rd_arrivals rd"]
  by (auto simp: fill_buffer_def Let_def split: if_splits prod.splits arrival.splits)

lemma handle_client_request:
  fixes s :: "('db, 'hw, 'x) server_scheme"
  assumes "request_complete buf received = Some len"
  shows "\<exists>m b. (m \<noteq> 0 \<longrightarrow> received - m < received)
    \<and> run_state (handle_client A E mem (Suc fuel) buf received rd wr) s =
       (case value_of (serve_request A E mem (take m buf) wr) s of
          Crash \<Rightarrow> (Crashed, poststate (serve_request A E mem (take m buf) wr) s)
        | Last wr' \<Rightarrow> (Closed wr', poststate (serve_request A E mem (take m buf) wr) s)
        | Next wr' \<Rightarrow> run_state (handle_client A E mem fuel b (received - m) rd wr')
            (poststate (serve_request A E mem (take m buf) wr) s))"
proof -
  define m where "m = (if RAW_BUFFER \<le> len then RAW_BUFFER - 1 else len)"
  define b where "b = (if m < received then take (received - m) (drop m buf) @ drop (received - m) buf else buf)"
  have "(handle_client A E mem (Suc fuel) buf received rd wr :: ('db, 'hw, 'x, ending) prog) = do {
      r \<leftarrow> serve_request A E mem (take m buf) wr;
      (case r of
         Crash \<Rightarrow> ret Crashed
       | Last wr' \<Rightarrow> ret (Closed wr')
       | Next wr' \<Rightarrow> handle_client A E mem fuel b (received - m) rd wr') }"
    by (simp only: handle_client.simps assms option.case Let_def m_def b_def)
  then show ?thesis
    using request_complete_bound [OF assms]
    by (intro exI [of _ m] exI [of _ b]) (simp add: split_beta split: step.split)
qed

lemma handle_client_ends:
  fixes s :: "('db, 'hw, 'x) server_scheme"
  assumes "\<not> rd_closed rd" "length (rd_arrivals rd) + length (rd_input rd) + received < fuel"
  shows "value_of (handle_client A E mem fuel buf received rd wr) s \<noteq> Out_of_fuel"
  using assms
proof (induction fuel arbitrary: buf received rd wr s)
  case (Suc fuel)
  show ?case
  proof (cases "request_complete buf received")
    case None
    show ?thesis
    proof (cases "fill_buffer buf received rd")
      case (Pair r rd')
      then show ?thesis
      proof (cases r)
        case read: (Some bk)
        then obtain b k where r: "r = Some (b, k)" by (cases bk) auto
        have "length (rd_arrivals rd') + length (rd_input rd') + k < fuel" "\<not> rd_closed rd'"
          using fill_buffer_spends [of buf received rd b k rd'] Pair r Suc.prems by auto
        then show ?thesis using None Pair r Suc.IH [of rd' k b wr s] by simp
      qed (use None in simp)
    qed
  next
    case (Some len)
    obtain m b where m: "m \<noteq> 0 \<longrightarrow> received - m < received"
      "run_state (handle_client A E mem (Suc fuel) buf received rd wr) s =
         (case value_of (serve_request A E mem (take m buf) wr) s of
            Crash \<Rightarrow> (Crashed, poststate (serve_request A E mem (take m buf) wr) s)
          | Last wr' \<Rightarrow> (Closed wr', poststate (serve_request A E mem (take m buf) wr) s)
          | Next wr' \<Rightarrow> run_state (handle_client A E mem fuel b (received - m) rd wr')
              (poststate (serve_request A E mem (take m buf) wr) s))"
      using handle_client_request [OF Some, of A E mem fuel rd wr s] by blast
    have "value_of (handle_client A E mem fuel b (received - m) rd wr') t \<noteq> Out_of_fuel" if "m \<noteq> 0"
      for wr' and t :: "('db, 'hw, 'x) server_scheme"
      using Suc.prems m(1) that by (intro Suc.IH) auto
    then show ?thesis
      using m(2) serve_nothing [of A E mem wr s] by (cases "m = 0") (auto split: step.split)
  qed
qed simp

section \<open>A peer that closes too early\<close>

lemma handle_client_spins:
  assumes "framed q" "k < length q" "take received buf @ rd_input rd = take k q" "0 < k"
    "length buf = CLIENT_BUFFER" "received \<le> k" "rd_closed rd"
    "\<forall>a \<in> set (rd_arrivals rd). delivers a" "length (rd_input rd) \<le> length (rd_arrivals rd)"
  shows "value_of (handle_client A E mem fuel buf received rd wr) s = Out_of_fuel"
  using assms(3,5-9)
proof (induction fuel arbitrary: buf received rd)
  case (Suc fuel)
  have room: "received < CLIENT_BUFFER - 1" "received < length q"
    using assms(1,2) Suc.prems(3) by (simp_all add: framed_def CLIENT_BUFFER_def RAW_BUFFER_def)
  have "take received buf = take received q"
  proof -
    have "take received (take received buf @ rd_input rd) = take received (take k q)" by (simp only: Suc.prems(1))
    then show ?thesis using Suc.prems(2,3) room by (simp add: min_absorb1)
  qed
  then have "buf = take received q @ drop received buf" by (metis append_take_drop_id)
  then have incomplete: "request_complete buf received = None"
    using assms(1) room(2) unfolding framed_def by metis
  show ?case
  proof (cases "rd_input rd")
    case Nil
    then have "received = k" using Suc.prems(1,2,3) room assms(2) by (auto dest: arg_cong [of _ _ length])
    moreover obtain n as where "next_arrival (rd_closed rd) (rd_arrivals rd) = (Arrives n, as)"
      "\<forall>a \<in> set as. delivers a"
      using Suc.prems(4,5) by (cases "rd_arrivals rd") (auto simp: delivers_def)
    ultimately have "fill_buffer buf received rd = (Some (buf, received), rd\<lparr>rd_arrivals := as\<rparr>)"
      using Nil room(1) assms(4) by (simp add: fill_buffer_def)
    then show ?thesis
      using incomplete room(1) Suc.prems Nil \<open>\<forall>a \<in> set as. delivers a\<close> by (simp add: Suc.IH)
  next
    case (Cons c cs)
    then obtain a as where as: "rd_arrivals rd = a # as" using Suc.prems(6) by (cases "rd_arrivals rd") auto
    then obtain n where n: "rd_arrivals rd = Arrives n # as" "0 < n" using Suc.prems(5) by (auto simp: delivers_def)
    obtain bs buf' where bs: "bs \<noteq> []" "prefix bs (rd_input rd)" "received + length bs \<le> CLIENT_BUFFER - 1"
      "fill_buffer buf received rd = (Some (buf', received + length bs),
         rd\<lparr>rd_arrivals := as, rd_input := drop (length bs) (rd_input rd)\<rparr>)"
      "length buf' = CLIENT_BUFFER" "take (received + length bs) buf' = take received buf @ bs"
      using fill_buffer_delivers [OF room(1) n _ Suc.prems(2)] Cons by (metis list.distinct(1))
    let ?rd = "rd\<lparr>rd_arrivals := as, rd_input := drop (length bs) (rd_input rd)\<rparr>"
    have "bs @ drop (length bs) (rd_input rd) = rd_input rd" using bs(2) by (auto simp: prefix_def)
    then have all: "take (received + length bs) buf' @ rd_input ?rd = take k q" using Suc.prems(1) bs(6) by simp
    then have "received + length bs \<le> k"
      using bs(3,5) assms(2) by (auto dest!: arg_cong [of _ _ length])
    moreover have "length bs \<ge> 1" using bs(1) by (simp add: Suc_le_eq)
    ultimately have "value_of (handle_client A E mem fuel buf' (received + length bs) ?rd wr) s = Out_of_fuel"
      using Suc.prems bs(5) as all by (intro Suc.IH) auto
    then show ?thesis using incomplete room(1) bs(4) by simp
  qed
qed simp

section \<open>The export stream\<close>

lemma write_loop_reliable:
  assumes "\<forall>e \<in> set evs. \<exists>n. e = Sends (Suc n)" "length data \<le> length evs"
  shows "\<exists>evs'. write_loop data evs out = (True, evs', out @ data) \<and> set evs' \<subseteq> set evs
    \<and> length evs \<le> length evs' + length data"
  using assms
proof (induction data evs out rule: write_loop.induct)
  case (3 c data n evs out)
  then obtain k where "n = Suc k" by auto
  moreover from this have "\<exists>evs'. write_loop (drop n (c # data)) evs (out @ take n (c # data))
      = (True, evs', (out @ take n (c # data)) @ drop n (c # data)) \<and> set evs' \<subseteq> set evs
      \<and> length evs \<le> length evs' + length (drop n (c # data))"
    using "3.prems" by (intro "3.IH") auto
  ultimately show ?case by auto
qed auto

definition steady :: "writer \<Rightarrow> bool" where
  "steady wr \<longleftrightarrow> (\<forall>e \<in> set (wr_sends wr). \<exists>n. e = Sends (Suc n))"

lemma http_write_all_steady:
  assumes "steady wr" "length data \<le> length (wr_sends wr)"
  shows "\<exists>wr'. http_write_all wr data = (True, wr') \<and> steady wr' \<and> wr_output wr' = wr_output wr @ data
    \<and> length (wr_sends wr) \<le> length (wr_sends wr') + length data"
  using write_loop_reliable [OF assms(1) [unfolded steady_def] assms(2), of "wr_output wr"] assms(1)
  by (auto simp: http_write_all_def steady_def) (metis subsetD)

lemma http_write_all_prefix:
  assumes "http_write_all wr data = (ok, wr')"
  shows "\<exists>sent. wr_output wr' = wr_output wr @ sent \<and> prefix sent data \<and> (ok \<longrightarrow> sent = data)"
  using assms write_loop_prefix [of data "wr_sends wr" "wr_output wr"]
  by (auto simp: http_write_all_def split: prod.splits)

definition export_line :: "u8 list \<Rightarrow> string" where
  "export_line chunk = b64_groups chunk @ [LF]"

text \<open>One chunk: its line, or a part of it and the end of the export.\<close>

lemma export_chunk_prefix:
  assumes "export_tar_chunk_cb mem (wr, failed) chunk = ((wr', failed'), ok)"
  shows "\<exists>sent. wr_output wr' = wr_output wr @ sent \<and> prefix sent (export_line chunk) \<and> (ok \<longrightarrow> sent = export_line chunk)"
proof (cases "failed \<or> \<not> mem")
  case True
  then show ?thesis using assms by (auto simp: export_tar_chunk_cb_def split: if_splits)
next
  case False
  obtain ok1 wr1 where w1: "http_write_all wr (b64_groups chunk) = (ok1, wr1)" by fastforce
  obtain ok2 wr2 where w2: "http_write_all wr1 [LF] = (ok2, wr2)" by fastforce
  have "(wr', ok) = (if ok1 then (wr2, ok2) else (wr1, False))"
    using assms False w1 w2 by (auto simp: export_tar_chunk_cb_def util_base64_encode_def split: if_splits)
  then show ?thesis
    using http_write_all_prefix [OF w1] http_write_all_prefix [OF w2]
    by (auto simp: export_line_def prefix_append split: if_splits)
qed

lemma export_chunk_steady:
  assumes "steady wr" "length (export_line chunk) \<le> length (wr_sends wr)"
  shows "\<exists>wr'. export_tar_chunk_cb True (wr, False) chunk = ((wr', False), True) \<and> steady wr'
    \<and> wr_output wr' = wr_output wr @ export_line chunk
    \<and> length (wr_sends wr) \<le> length (wr_sends wr') + length (export_line chunk)"
proof -
  obtain wr1 where 1: "http_write_all wr (b64_groups chunk) = (True, wr1)" "steady wr1"
    "wr_output wr1 = wr_output wr @ b64_groups chunk" "length (wr_sends wr) \<le> length (wr_sends wr1) + length (b64_groups chunk)"
    using http_write_all_steady [OF assms(1), of "b64_groups chunk"] assms(2) by (auto simp: export_line_def)
  obtain wr2 where "http_write_all wr1 [LF] = (True, wr2)" "steady wr2"
    "wr_output wr2 = wr_output wr1 @ [LF]" "length (wr_sends wr1) \<le> length (wr_sends wr2) + 1"
    using http_write_all_steady [OF 1(2), of "[LF]"] 1(4) assms(2) by (auto simp: export_line_def)
  with 1 show ?thesis by (simp add: export_tar_chunk_cb_def util_base64_encode_def export_line_def)
qed

lemma deliver_prefix:
  "deliver_chunks (export_tar_chunk_cb mem) (wr, failed) chunks = ((wr', failed'), ok) \<Longrightarrow>
     \<exists>sent. wr_output wr' = wr_output wr @ sent \<and> prefix sent (concat (map export_line chunks))
       \<and> (ok \<longrightarrow> sent = concat (map export_line chunks))"
proof (induction chunks arbitrary: wr failed)
  case (Cons chunk chunks)
  obtain wr1 failed1 ok1 where one: "export_tar_chunk_cb mem (wr, failed) chunk = ((wr1, failed1), ok1)"
    by (metis prod.collapse)
  obtain sent where sent: "wr_output wr1 = wr_output wr @ sent" "prefix sent (export_line chunk)"
    "ok1 \<longrightarrow> sent = export_line chunk" using export_chunk_prefix [OF one] by blast
  show ?case
  proof (cases ok1)
    case True
    then obtain more where "wr_output wr' = wr_output wr1 @ more" "prefix more (concat (map export_line chunks))"
      "ok \<longrightarrow> more = concat (map export_line chunks)"
      using Cons.IH [of wr1 failed1] Cons.prems one by auto
    then show ?thesis using True sent by (intro exI [of _ "sent @ more"]) simp
  next
    case False
    then show ?thesis using Cons.prems one sent by (intro exI [of _ sent]) (simp add: prefix_append)
  qed
qed auto

lemma deliver_steady:
  assumes "steady wr" "length (concat (map export_line chunks)) \<le> length (wr_sends wr)"
  shows "\<exists>wr'. deliver_chunks (export_tar_chunk_cb True) (wr, False) chunks = ((wr', False), True)
    \<and> wr_output wr' = wr_output wr @ concat (map export_line chunks)"
  using assms
proof (induction chunks arbitrary: wr)
  case (Cons chunk chunks)
  obtain wr1 where "export_tar_chunk_cb True (wr, False) chunk = ((wr1, False), True)" "steady wr1"
    "wr_output wr1 = wr_output wr @ export_line chunk"
    "length (wr_sends wr) \<le> length (wr_sends wr1) + length (export_line chunk)"
    using export_chunk_steady [of wr chunk] Cons.prems by auto
  with Cons.IH [of wr1] Cons.prems show ?case by auto
qed simp

text \<open>What the client does with the stream: each line is a chunk in Base64.\<close>

fun read_lines :: "string \<Rightarrow> string \<Rightarrow> string list" where
  "read_lines acc [] = []"
| "read_lines acc (c # s) = (if c = LF then acc # read_lines [] s else read_lines (acc @ [c]) s)"

definition read_export :: "string \<Rightarrow> u8 list option list" where
  "read_export s = map (\<lambda>l. util_base64_decode l (length l + 1)) (read_lines [] s)"

lemma read_lines_line: "LF \<notin> set l \<Longrightarrow> read_lines acc (l @ LF # s) = (acc @ l) # read_lines [] s"
  by (induction l arbitrary: acc) auto

lemma b64_char_not_LF: "LF \<notin> set (b64_groups chunk)"
  by (induction chunk rule: b64_groups.induct) (simp_all add: Let_def b64_char_not_skipped [symmetric])

lemma read_export_lines: "read_export (concat (map export_line chunks)) = map Some chunks"
proof (induction chunks)
  case (Cons chunk chunks)
  let ?t = "b64_groups chunk"
  have "length chunk < length ?t + 1" by (simp add: length_b64_groups)
  then have "util_base64_decode ?t (length ?t + 1) = Some chunk"
    using b64_decode_groups [of "[]" chunk "length ?t + 1" 0] by (simp add: util_base64_decode_def)
  with Cons b64_char_not_LF [of chunk] show ?case
    by (simp add: read_export_def export_line_def read_lines_line)
qed (simp add: read_export_def)

lemma run_export_stream:
  fixes s :: "('db, 'hw, 'x) server_scheme"
  assumes "s_running s" "w_active s" "w_ptr s P_export_tar"
  shows "\<exists>h. value_of (export_stream_writer A E mem wr) s
      = fst (fst (deliver_chunks (export_tar_chunk_cb mem) (wr, False) (fst (fst (api_export A (w_store s) h)))))
      \<and> hw (poststate (export_stream_writer A E mem wr) s) = snd (api_export A (w_store s) h)"
proof -
  let ?t = "poststate (renew_for_export A E) (poststate mu_lock s)"
  have "state_io_rel (stays clockwork) (renew_for_export A E :: ('db, 'hw, 'x, unit) prog)" by (rule stays_renew)
  then have "stays clockwork (poststate mu_lock s) ?t" by (simp add: state_io_rel_def)
  moreover have "w_store (poststate mu_lock s) = w_store s" by (simp add: mu_lock_def)
  ultimately have "w_store ?t = w_store s" by (simp add: stays_def)
  then show ?thesis
    using assms
    by (intro exI [of _ "hw ?t"])
      (simp add: export_stream_writer_def run_job_def tse_worm_export_tar_def run_export_def mu_unlock_def split_beta Let_def)
qed

section \<open>Properties\<close>

text \<open>
  C8. Requests are served in order: whatever pieces the bytes of well-formed requests arrive in, on a
  connection kept open or closed after the last, the loop answers exactly these requests, one after
  the other, from the first to the one that closes the connection, and then closes it.
\<close>

theorem requests_in_order:
  assumes "\<forall>(m, p, hs, body) \<in> set reqs. request_ok m p hs body"
    and "rd_input rd = concat (map (\<lambda>(m, p, hs, body). request_text m p hs body) reqs)"
    and "\<forall>a \<in> set (rd_arrivals rd). delivers a" "length (rd_input rd) \<le> length (rd_arrivals rd)"
    and "length garbage = CLIENT_BUFFER" "length (rd_arrivals rd) + length reqs < fuel"
  shows "run_state (handle_client A E mem fuel garbage 0 rd wr) s
    = run_state (serve_all A E mem (map (\<lambda>(m, p, hs, body). request_text m p hs body) reqs) wr) s"
proof (rule handle_client_serves)
  show "\<forall>q \<in> set (map (\<lambda>(m, p, hs, body). request_text m p hs body) reqs). framed q"
    using assms(1) request_text_framed by fastforce
qed (use assms in \<open>simp_all\<close>)

definition sample_text :: string where
  "sample_text = request_text ''POST'' ''/a'' [(''Host'', ''x'')] ''hi''"

lemma sample_text_ok: "request_ok ''POST'' ''/a'' [(''Host'', ''x'')] ''hi''"
proof -
  have "no_match ''Content-Length:'' (concat (map (\<lambda>l. l @ CRLF) (request_lines ''POST'' ''/a'' [(''Host'', ''x'')])))
      ''Content-Length:''"
    by (rule no_match_check) code_simp
  moreover have "no_match ''Transfer-Encoding:'' (concat (map (\<lambda>l. l @ CRLF) (request_lines ''POST'' ''/a'' [(''Host'', ''x'')])))
      (''Content-Length: '' @ show_nat (length ''hi'') @ CRLF)"
    by (rule no_match_check) code_simp
  moreover have "word_text ''POST''" "word_text ''/a''" "list_all header_ok [(''Host'', ''x'')]"
    "length (request_text ''POST'' ''/a'' [(''Host'', ''x'')] []) \<le> 1020"
    by code_simp+
  ultimately show ?thesis unfolding request_ok_def by simp
qed

definition sample_reader :: "string \<Rightarrow> bool \<Rightarrow> reader" where
  "sample_reader input closed =
     \<lparr>rd_input = input, rd_arrivals = replicate (length input) (Arrives 1), rd_closed = closed\<rparr>"

lemma sample_reader_facts:
  "rd_input (sample_reader input closed) = input" "rd_closed (sample_reader input closed) = closed"
  "\<forall>a \<in> set (rd_arrivals (sample_reader input closed)). delivers a"
  "length (rd_arrivals (sample_reader input closed)) = length input"
  by (simp_all add: sample_reader_def delivers_def)

definition sample_writer :: writer where
  "sample_writer = \<lparr>wr_sends = replicate 100 (Sends 1), wr_output = []\<rparr>"

theorem requests_in_order_witness:
  "run_state (handle_client sample_api sql_exec True (2 * length sample_text + 3) (replicate CLIENT_BUFFER NUL) 0
      (sample_reader (sample_text @ sample_text) False) sample_writer) sample_server
   = run_state (serve_all sample_api sql_exec True [sample_text, sample_text] sample_writer) sample_server"
proof -
  let ?r = "(''POST'', ''/a'', [(''Host'', ''x'')], ''hi'')"
  have 1: "\<forall>(m, p, hs, body) \<in> set [?r, ?r]. request_ok m p hs body" using sample_text_ok by simp
  have 2: "rd_input (sample_reader (sample_text @ sample_text) False)
      = concat (map (\<lambda>(m, p, hs, body). request_text m p hs body) [?r, ?r])"
    by (simp add: sample_reader_facts sample_text_def)
  show ?thesis
    using requests_in_order [OF 1 2 sample_reader_facts(3), of "replicate CLIENT_BUFFER NUL" "2 * length sample_text + 3"]
    by (simp add: sample_reader_facts sample_text_def)
qed

text \<open>
  C25. As long as the peer does not close its side, a connection ends: whatever it sends, in whatever
  pieces, the loop returns within one round per read and per byte sent, because every round reads,
  serves a request, or gives up after the time-out.
\<close>

theorem connection_ends:
  assumes "\<not> rd_closed rd" "length (rd_arrivals rd) + length (rd_input rd) < fuel"
  shows "value_of (handle_client A E mem fuel garbage 0 rd wr) s \<noteq> Out_of_fuel"
  using assms by (intro handle_client_ends) simp_all

theorem connection_ends_witness:
  "value_of (handle_client sample_api sql_exec True 9 [] 0 (sample_reader ''GET '' False) sample_writer) sample_server
     \<noteq> Out_of_fuel"
  by (rule connection_ends) (simp_all add: sample_reader_facts)

text \<open>
  C26. A peer that closes in the middle of a request is never let go: once a part of a well-formed
  request has arrived and the connection is at its end, the loop runs on for ever, since the read of
  no bytes counts as progress; the server, which serves one connection at a time, answers nobody else.
\<close>

theorem half_request_spins:
  assumes "request_ok m p hs body" "0 < k" "k < length (request_text m p hs body)"
    and "rd_input rd = take k (request_text m p hs body)" "rd_closed rd"
    and "\<forall>a \<in> set (rd_arrivals rd). delivers a" "length (rd_input rd) \<le> length (rd_arrivals rd)"
    and "length garbage = CLIENT_BUFFER"
  shows "value_of (handle_client A E mem fuel garbage 0 rd wr) s = Out_of_fuel"
  by (rule handle_client_spins [OF request_text_framed [OF assms(1)] assms(3)]) (use assms in simp_all)

theorem half_request_spins_witness:
  "value_of (handle_client sample_api sql_exec True 1000000 (replicate CLIENT_BUFFER NUL) 0
      (sample_reader ''POST'' True) sample_writer) sample_server = Out_of_fuel"
proof -
  have part: "take 4 sample_text = ''POST''" "4 < length sample_text" by code_simp+
  show ?thesis
    by (rule half_request_spins [OF sample_text_ok, of 4])
      (use part in \<open>simp_all add: sample_reader_facts sample_text_def [symmetric]\<close>)
qed

text \<open>
  C27. The export a client receives is a beginning of the TSE's archive, one line of Base64 per chunk,
  whatever writes fail; when memory and every write succeed, reading the lines gives the chunks of
  the archive, all of them in order.
\<close>

theorem export_round_trip:
  assumes "s_running s" "w_active s" "w_ptr s P_export_tar"
  shows "\<exists>h sent. let chunks = fst (fst (api_export A (w_store s) h)) in
    hw (poststate (export_stream_writer A E mem wr) s) = snd (api_export A (w_store s) h)
    \<and> wr_output (value_of (export_stream_writer A E mem wr) s) = wr_output wr @ sent
    \<and> prefix sent (concat (map export_line chunks))
    \<and> (mem \<and> steady wr \<and> length (concat (map export_line chunks)) \<le> length (wr_sends wr)
        \<longrightarrow> read_export sent = map Some chunks)"
proof -
  obtain h where h: "value_of (export_stream_writer A E mem wr) s
      = fst (fst (deliver_chunks (export_tar_chunk_cb mem) (wr, False) (fst (fst (api_export A (w_store s) h)))))"
    "hw (poststate (export_stream_writer A E mem wr) s) = snd (api_export A (w_store s) h)"
    using run_export_stream [OF assms] by blast
  let ?chunks = "fst (fst (api_export A (w_store s) h))"
  obtain wr' failed ok where d: "deliver_chunks (export_tar_chunk_cb mem) (wr, False) ?chunks = ((wr', failed), ok)"
    by (metis prod.collapse)
  then obtain sent where "wr_output wr' = wr_output wr @ sent" "prefix sent (concat (map export_line ?chunks))"
    "ok \<longrightarrow> sent = concat (map export_line ?chunks)" using deliver_prefix by blast
  moreover have ok if "mem \<and> steady wr \<and> length (concat (map export_line ?chunks)) \<le> length (wr_sends wr)"
    using deliver_steady [of wr ?chunks] that d by auto
  ultimately show ?thesis
    using h d by (intro exI [of _ h] exI [of _ sent]) (auto simp: Let_def read_export_lines)
qed

theorem export_round_trip_witness:
  "\<exists>sent. wr_output (value_of (export_stream_writer sample_api sql_exec True sample_writer) sample_server) = sent
     \<and> read_export sent = [Some [1, 2, 3]]"
proof -
  have "s_running sample_server" "w_active sample_server" "w_ptr sample_server P_export_tar"
    by (simp_all add: sample_server_def)
  moreover have "length (export_line [1, 2, 3]) \<le> 100" "steady sample_writer"
    by (simp_all add: export_line_def length_b64_groups steady_def sample_writer_def)
  ultimately show ?thesis
    using export_round_trip [of sample_server sample_api sql_exec True sample_writer]
    by (simp add: sample_api_def sample_writer_def)
qed

end
