(* ===== verification/Tse_Worker.thy ===== *)
theory Tse_Worker
  imports Tse_Prelude
begin

text \<open>
  The worker thread of \<^verbatim>\<open>c/src/tse_worker.c\<close>: one slot for a pending job, any number of calling
  threads and the thread that executes the jobs, as a step relation over what they share.

  A critical section of \<^verbatim>\<open>s_mu\<close> is one step; \<^verbatim>\<open>pthread_cond_wait\<close> splits it in two, before and
  after the thread is woken.  The condition \<^verbatim>\<open>s_cond\<close> is shared by the worker and the callers that
  wait for the slot: a signal wakes one of them, whichever, and any may wake without one.
\<close>

section \<open>State\<close>

text \<open>
  Where a call of \<^verbatim>\<open>tse_worker_run\<close> is; a call is known by a number, as its \<^verbatim>\<open>tse_job_t\<close> is by its
  address.  \<open>Slot_wait\<close>: in the wait for the slot; \<open>Slot_woken\<close>: about to look at the slot again;
  \<open>Blocked\<close>: posted, waiting for \<^verbatim>\<open>job.done\<close>; \<open>Turned_away\<close>: returned -1.
\<close>

datatype call = Absent | Slot_wait | Slot_woken | Blocked | Returned | Turned_away

text \<open>
  Where the worker is.  \<open>Looking\<close>: about to take \<^verbatim>\<open>s_mu\<close> and test its loops; \<open>Reporting\<close>: back from
  the job's function, about to set \<^verbatim>\<open>job->done\<close>.
\<close>

datatype worker = Looking | Sleeping | Running nat | Reporting nat | Exited

record job_queue =
  q_running :: bool
  q_pending :: "nat option"
  q_worker :: worker
  q_calls :: "nat \<Rightarrow> call"
  q_done :: "nat set"
  q_log :: "nat list"

text \<open>\<open>q_log\<close> is a ghost: the functions executed, in order.  \<open>rc\<close> is what \<^verbatim>\<open>pthread_create\<close> returns.\<close>

definition tse_worker_init :: "int \<Rightarrow> job_queue" where
  "tse_worker_init rc = \<lparr>q_running = (rc = 0), q_pending = None, q_worker = (if rc = 0 then Looking else Exited),
     q_calls = (\<lambda>_. Absent), q_done = {}, q_log = []\<rparr>"

section \<open>Steps\<close>

abbreviation set_call :: "nat \<Rightarrow> call \<Rightarrow> job_queue \<Rightarrow> job_queue" where
  "set_call i c q \<equiv> q\<lparr>q_calls := (q_calls q)(i := c)\<rparr>"

text \<open>\<^verbatim>\<open>pthread_cond_signal(&s_cond)\<close>.\<close>

inductive cond_signal :: "job_queue \<Rightarrow> job_queue \<Rightarrow> bool" where
  nobody: "q_worker q \<noteq> Sleeping \<Longrightarrow> \<forall>i. q_calls q i \<noteq> Slot_wait \<Longrightarrow> cond_signal q q"
| wake_worker: "q_worker q = Sleeping \<Longrightarrow> cond_signal q (q\<lparr>q_worker := Looking\<rparr>)"
| wake_call: "q_calls q i = Slot_wait \<Longrightarrow> cond_signal q (set_call i Slot_woken q)"

text \<open>\<^verbatim>\<open>pthread_cond_broadcast(&s_cond)\<close>, by the worker.\<close>

definition cond_broadcast :: "job_queue \<Rightarrow> job_queue" where
  "cond_broadcast q = q\<lparr>q_calls := (\<lambda>i. if q_calls q i = Slot_wait then Slot_woken else q_calls q i)\<rparr>"

text \<open>The loop of a caller that holds \<^verbatim>\<open>s_mu\<close>: wait for the slot, or post the job and signal.\<close>

inductive take_slot :: "nat \<Rightarrow> job_queue \<Rightarrow> job_queue \<Rightarrow> bool" where
  occupied: "q_pending q \<noteq> None \<Longrightarrow> take_slot i q (set_call i Slot_wait q)"
| post: "q_pending q = None \<Longrightarrow> cond_signal (set_call i Blocked (q\<lparr>q_pending := Some i\<rparr>)) q' \<Longrightarrow> take_slot i q q'"

datatype move = Call nat | Resume nat | Return nat | Look | Execute | Report | Spurious nat | Spurious_worker | Shutdown

text \<open>\<^verbatim>\<open>Shutdown\<close> is the critical section of \<^verbatim>\<open>tse_worker_shutdown\<close>; its join waits for \<open>Exited\<close>.\<close>

inductive job_step :: "move \<Rightarrow> job_queue \<Rightarrow> job_queue \<Rightarrow> bool" where
  call_refused: "q_calls q i = Absent \<Longrightarrow> \<not> q_running q \<Longrightarrow> job_step (Call i) q (set_call i Turned_away q)"
| call_slot: "q_calls q i = Absent \<Longrightarrow> q_running q \<Longrightarrow> take_slot i q q' \<Longrightarrow> job_step (Call i) q q'"
| resume: "q_calls q i = Slot_woken \<Longrightarrow> take_slot i q q' \<Longrightarrow> job_step (Resume i) q q'"
| return: "q_calls q i = Blocked \<Longrightarrow> i \<in> q_done q \<Longrightarrow> job_step (Return i) q (set_call i Returned q)"
| look_sleep: "q_worker q = Looking \<Longrightarrow> q_running q \<Longrightarrow> q_pending q = None
    \<Longrightarrow> job_step Look q (q\<lparr>q_worker := Sleeping\<rparr>)"
| look_exit: "q_worker q = Looking \<Longrightarrow> \<not> q_running q \<Longrightarrow> q_pending q = None
    \<Longrightarrow> job_step Look q (q\<lparr>q_worker := Exited\<rparr>)"
| look_take: "q_worker q = Looking \<Longrightarrow> q_pending q = Some i
    \<Longrightarrow> job_step Look q (cond_broadcast (q\<lparr>q_pending := None, q_worker := Running i\<rparr>))"
| execute: "q_worker q = Running i \<Longrightarrow> job_step Execute q (q\<lparr>q_worker := Reporting i, q_log := q_log q @ [i]\<rparr>)"
| report: "q_worker q = Reporting i \<Longrightarrow> job_step Report q (q\<lparr>q_worker := Looking, q_done := insert i (q_done q)\<rparr>)"
| spurious: "q_calls q i = Slot_wait \<Longrightarrow> job_step (Spurious i) q (set_call i Slot_woken q)"
| spurious_worker: "q_worker q = Sleeping \<Longrightarrow> job_step Spurious_worker q (q\<lparr>q_worker := Looking\<rparr>)"
| shutdown: "cond_signal (q\<lparr>q_running := False\<rparr>) q' \<Longrightarrow> job_step Shutdown q q'"

inductive_cases cond_signalE: "cond_signal q q'"
inductive_cases take_slotE: "take_slot i q q'"
inductive_cases job_stepE: "job_step m q q'"

inductive worker_reaches :: "job_queue \<Rightarrow> job_queue \<Rightarrow> bool" where
  here: "worker_reaches q q"
| move: "worker_reaches q q' \<Longrightarrow> job_step m q' q'' \<Longrightarrow> worker_reaches q q''"

section \<open>The invariant\<close>

text \<open>
  A posted job is in one place: pending, running, reporting or done.  Nobody sleeps over work: while
  the slot is free no caller waits for it, and the worker sleeps only while there is nothing to do.
\<close>

definition queue_ok :: "job_queue \<Rightarrow> bool" where
  "queue_ok q \<longleftrightarrow>
     (\<forall>i. q_calls q i = Blocked \<longrightarrow> i \<in> q_done q \<or> q_pending q = Some i \<or> q_worker q = Running i \<or> q_worker q = Reporting i)
   \<and> (\<forall>i. q_pending q = Some i \<or> q_worker q = Running i \<longrightarrow> q_calls q i = Blocked \<and> i \<notin> set (q_log q))
   \<and> (\<forall>i. q_pending q = Some i \<longrightarrow> q_worker q \<noteq> Running i)
   \<and> (\<forall>i. q_worker q = Reporting i \<longrightarrow> q_calls q i = Blocked \<and> i \<notin> q_done q)
   \<and> distinct (q_log q) \<and> set (q_log q) = q_done q \<union> {i. q_worker q = Reporting i}
   \<and> (\<forall>i \<in> q_done q. q_calls q i \<in> {Blocked, Returned}) \<and> (\<forall>i. q_calls q i = Returned \<longrightarrow> i \<in> q_done q)
   \<and> (q_pending q = None \<longrightarrow> (\<forall>i. q_calls q i \<noteq> Slot_wait))
   \<and> (q_worker q = Sleeping \<longrightarrow> q_pending q = None \<and> q_running q)
   \<and> (q_worker q = Exited \<longrightarrow> \<not> q_running q)
   \<and> finite {i. q_calls q i \<noteq> Absent}"

lemma queue_ok_init: "queue_ok (tse_worker_init rc)"
  by (simp add: queue_ok_def tse_worker_init_def)

lemma finite_set_call: "finite {j. q_calls q j \<noteq> Absent} \<Longrightarrow> finite {j. ((q_calls q)(i := c)) j \<noteq> Absent}"
  by (rule finite_subset [of _ "insert i {j. q_calls q j \<noteq> Absent}"]) auto

lemma finite_broadcast: "finite {i. q_calls q i \<noteq> Absent} \<Longrightarrow> finite {i. q_calls (cond_broadcast q) i \<noteq> Absent}"
  by (rule finite_subset [of _ "{i. q_calls q i \<noteq> Absent}"]) (auto simp: cond_broadcast_def)

lemma take_slot_ok:
  assumes "queue_ok q" "take_slot i q q'" "q_calls q i \<in> {Absent, Slot_woken}"
  shows "queue_ok q'"
  using assms(2)
proof (cases rule: take_slot.cases)
  case occupied
  then show ?thesis
    using assms(1,3) finite_set_call [of q i Slot_wait] unfolding queue_ok_def by (auto; metis)
next
  case post
  show ?thesis
    using post(2)
  proof (cases rule: cond_signal.cases)
    case nobody
    then show ?thesis
      using assms(1,3) post(1) finite_set_call [of q i Blocked] unfolding queue_ok_def by (auto; metis)
  next
    case wake_worker
    then show ?thesis
      using assms(1,3) post(1) finite_set_call [of q i Blocked] unfolding queue_ok_def by (auto; metis)
  next
    case (wake_call j)
    then show ?thesis using assms(1) post(1) by (auto simp: queue_ok_def split: if_splits)
  qed
qed

lemma job_step_ok:
  assumes "queue_ok q" "job_step m q q'"
  shows "queue_ok q'"
  using assms(2)
proof (cases rule: job_step.cases)
  case (call_refused i)
  then show ?thesis
    using assms(1) finite_set_call [of q i Turned_away] unfolding queue_ok_def by (auto; metis)
next
  case (call_slot i)
  then show ?thesis using take_slot_ok [OF assms(1)] by simp
next
  case (resume i)
  then show ?thesis using take_slot_ok [OF assms(1)] by simp
next
  case (return i)
  then show ?thesis
    using assms(1) finite_set_call [of q i Returned] unfolding queue_ok_def by (auto; metis)
next
  case (look_take i)
  then show ?thesis
    using assms(1) finite_broadcast [of "q\<lparr>q_pending := None, q_worker := Running i\<rparr>"]
    unfolding queue_ok_def by (auto simp: cond_broadcast_def)
next
  case (spurious i)
  then show ?thesis
    using assms(1) finite_set_call [of q i Slot_woken] unfolding queue_ok_def by (auto; metis)
next
  case shutdown
  from shutdown(2) show ?thesis
  proof (cases rule: cond_signal.cases)
    case (wake_call i)
    then show ?thesis
      using assms(1) finite_set_call [of q i Slot_woken] unfolding queue_ok_def by (auto; metis)
  qed (use assms(1) in \<open>auto simp: queue_ok_def\<close>)
qed (use assms(1) in \<open>auto simp: queue_ok_def\<close>)

lemma worker_reaches_ok: "worker_reaches q q' \<Longrightarrow> queue_ok q \<Longrightarrow> queue_ok q'"
  by (induction rule: worker_reaches.induct) (auto intro: job_step_ok)

section \<open>Progress\<close>

text \<open>The moves the threads make of themselves; the others are new calls, spurious wake-ups and the shutdown.\<close>

definition internal :: "move \<Rightarrow> bool" where
  "internal m \<longleftrightarrow> (case m of Call _ \<Rightarrow> False | Spurious _ \<Rightarrow> False | Spurious_worker \<Rightarrow> False | Shutdown \<Rightarrow> False | _ \<Rightarrow> True)"

inductive internal_run :: "nat \<Rightarrow> job_queue \<Rightarrow> job_queue \<Rightarrow> bool" where
  stay: "internal_run 0 q q"
| run: "internal_run n q q' \<Longrightarrow> internal m \<Longrightarrow> job_step m q' q'' \<Longrightarrow> internal_run (Suc n) q q''"

definition tally :: "call \<Rightarrow> job_queue \<Rightarrow> nat" where
  "tally c q = card {i. q_calls q i = c}"

lemma tally_moves:
  assumes "finite {i. q_calls q i \<noteq> Absent}" "q_calls q i = a" "a \<noteq> Absent" "b \<noteq> Absent" "a \<noteq> b"
    and "q_calls q' = (q_calls q)(i := b)"
  shows "tally a q = Suc (tally a q')" "tally b q' = Suc (tally b q)"
    and "c \<noteq> a \<Longrightarrow> c \<noteq> b \<Longrightarrow> tally c q' = tally c q"
proof -
  have fin: "finite {j. q_calls q j = c}" if "c \<noteq> Absent" for c
    by (rule finite_subset [OF _ assms(1)]) (use that in auto)
  have "{j. q_calls q j = a} = insert i {j. q_calls q' j = a}" "i \<notin> {j. q_calls q' j = a}"
    using assms(2,5,6) by auto
  moreover have "finite {j. q_calls q' j = a}"
    by (rule finite_subset [OF _ fin [OF assms(3)]]) (use assms in auto)
  ultimately show "tally a q = Suc (tally a q')" by (simp add: tally_def)
  have "{j. q_calls q' j = b} = insert i {j. q_calls q j = b}" "i \<notin> {j. q_calls q j = b}"
    using assms(2,5,6) by auto
  then show "tally b q' = Suc (tally b q)" by (simp add: tally_def fin [OF assms(4)])
  assume "c \<noteq> a" "c \<noteq> b"
  then have "{j. q_calls q' j = c} = {j. q_calls q j = c}" using assms(2,6) by auto
  then show "tally c q' = tally c q" by (simp add: tally_def)
qed

text \<open>The calls that have begun; the internal moves do not change them.\<close>

definition begun :: "job_queue \<Rightarrow> nat" where
  "begun q = card {i. q_calls q i \<noteq> Absent}"

fun worker_weight :: "worker \<Rightarrow> nat" where
  "worker_weight (Running i) = 3"
| "worker_weight (Reporting i) = 2"
| "worker_weight Looking = 1"
| "worker_weight _ = 0"

text \<open>Every internal move makes this smaller: the jobs the worker has yet to take count most.\<close>

definition job_weight :: "job_queue \<Rightarrow> nat" where
  "job_weight q = (tally Slot_wait q + tally Slot_woken q + (if q_pending q = None then 0 else 1)) * (3 * begun q + 3)
     + 3 * tally Slot_woken q + tally Blocked q + worker_weight (q_worker q)"

lemma begun_moves:
  "q_calls q i \<noteq> Absent \<Longrightarrow> b \<noteq> Absent \<Longrightarrow> q_calls q' = (q_calls q)(i := b) \<Longrightarrow> begun q' = begun q"
  unfolding begun_def by (rule arg_cong [of _ _ card]) auto

text \<open>Moves of the worker alone, and of a caller alone.\<close>

lemma weight_worker:
  "q_calls q' = q_calls q \<Longrightarrow> q_pending q' = q_pending q \<Longrightarrow> worker_weight (q_worker q') < worker_weight (q_worker q)
     \<Longrightarrow> job_weight q' < job_weight q"
  by (simp add: job_weight_def tally_def begun_def)

lemma weight_occupied:
  assumes "finite {i. q_calls q i \<noteq> Absent}" "q_calls q i = Slot_woken"
  shows "job_weight (set_call i Slot_wait q) < job_weight q"
proof -
  let ?q = "set_call i Slot_wait q"
  have "begun ?q = begun q" by (rule begun_moves [of _ i]) (use assms in auto)
  then show ?thesis
    using tally_moves [OF assms, of Slot_wait ?q] by (simp add: job_weight_def)
qed

lemma weight_return:
  assumes "finite {i. q_calls q i \<noteq> Absent}" "q_calls q i = Blocked"
  shows "job_weight (set_call i Returned q) < job_weight q"
proof -
  let ?q = "set_call i Returned q"
  have "begun ?q = begun q" by (rule begun_moves [of _ i]) (use assms in auto)
  then show ?thesis
    using tally_moves [OF assms, of Returned ?q] by (simp add: job_weight_def)
qed

lemma weight_post:
  assumes "finite {i. q_calls q i \<noteq> Absent}" "q_calls q i = Slot_woken" "q_pending q = None"
    and "q_calls q' = (q_calls q)(i := Blocked)" "q_pending q' = Some i" "worker_weight (q_worker q') \<le> worker_weight (q_worker q) + 1"
  shows "job_weight q' < job_weight q"
proof -
  have "begun q' = begun q" by (rule begun_moves [of _ i]) (use assms in auto)
  then show ?thesis
    using tally_moves [OF assms(1,2), of Blocked q'] assms(3-6) by (simp add: job_weight_def)
qed

lemma weight_take:
  assumes "finite {i. q_calls q i \<noteq> Absent}" "q_pending q = Some i" "q_worker q = Looking"
  shows "job_weight (cond_broadcast (q\<lparr>q_pending := None, q_worker := Running i\<rparr>)) < job_weight q"
proof -
  let ?q = "cond_broadcast (q\<lparr>q_pending := None, q_worker := Running i\<rparr>)"
  have fin: "finite {j. q_calls q j = c}" if "c \<noteq> Absent" for c
    by (rule finite_subset [OF _ assms(1)]) (use that in auto)
  have "{j. q_calls ?q j = Slot_woken} = {j. q_calls q j = Slot_wait} \<union> {j. q_calls q j = Slot_woken}"
    "{j. q_calls ?q j = Slot_wait} = {}" "{j. q_calls ?q j = Blocked} = {j. q_calls q j = Blocked}"
    "{j. q_calls ?q j \<noteq> Absent} = {j. q_calls q j \<noteq> Absent}"
    by (auto simp: cond_broadcast_def split: if_splits)
  then have "tally Slot_woken ?q = tally Slot_wait q + tally Slot_woken q" "tally Slot_wait ?q = 0"
    "tally Blocked ?q = tally Blocked q" "begun ?q = begun q"
    using fin by (auto simp: tally_def begun_def card_Un_disjoint disjoint_iff)
  moreover have "tally Slot_wait q + tally Slot_woken q \<le> begun q"
  proof -
    have "tally Slot_wait q + tally Slot_woken q = card ({j. q_calls q j = Slot_wait} \<union> {j. q_calls q j = Slot_woken})"
      using fin by (auto simp: tally_def card_Un_disjoint disjoint_iff)
    also have "\<dots> \<le> begun q" unfolding begun_def by (rule card_mono [OF assms(1)]) auto
    finally show ?thesis .
  qed
  ultimately show ?thesis
    using assms(2,3) by (simp add: job_weight_def cond_broadcast_def)
qed

lemma internal_lighter:
  assumes "queue_ok q" "internal m" "job_step m q q'"
  shows "job_weight q' < job_weight q"
proof -
  have fin: "finite {i. q_calls q i \<noteq> Absent}" using assms(1) by (simp add: queue_ok_def)
  show ?thesis
    using assms(3)
  proof (cases rule: job_step.cases)
    case (resume i)
    from resume(3) show ?thesis
    proof (cases rule: take_slot.cases)
      case occupied
      then show ?thesis using weight_occupied [OF fin resume(2)] by simp
    next
      case post
      have no_wait: "q_calls q j \<noteq> Slot_wait" for j using assms(1) post(1) by (simp add: queue_ok_def)
      show ?thesis
        using post(2)
      proof (cases rule: cond_signal.cases)
        case (wake_call j)
        then show ?thesis using no_wait [of j] by (simp split: if_splits)
      qed (use weight_post [OF fin resume(2) post(1), of q'] in simp_all)
    qed
  next
    case (look_take i)
    then show ?thesis using weight_take [OF fin] by simp
  next
    case (return i)
    then show ?thesis using weight_return [OF fin] by simp
  qed (use assms(2) in \<open>auto simp: internal_def intro!: weight_worker\<close>)
qed

text \<open>
  While the worker serves: it is not shut down, or no call is still waiting for the slot.  A server
  whose calls come from one thread is always in the second case or the first.
\<close>

definition serves :: "job_queue \<Rightarrow> bool" where
  "serves q \<longleftrightarrow> q_running q
     \<or> (\<forall>i. q_calls q i \<notin> {Slot_wait, Slot_woken}) \<and> (q_worker q = Exited \<longrightarrow> q_pending q = None)"

lemma internal_serves:
  assumes "serves q" "internal m" "job_step m q q'"
  shows "serves q'"
  using assms(3)
  by (cases rule: job_step.cases)
    (use assms(1,2) in \<open>auto simp: serves_def internal_def cond_broadcast_def elim!: take_slotE cond_signalE split: if_splits\<close>)

lemma internal_underway:
  assumes "internal m" "job_step m q q'" "q_calls q i \<notin> {Absent, Turned_away}"
  shows "q_calls q' i \<notin> {Absent, Turned_away}"
  using assms(2)
  by (cases rule: job_step.cases)
    (use assms(1,3) in \<open>auto simp: internal_def cond_broadcast_def elim!: take_slotE cond_signalE split: if_splits\<close>)

lemma some_signal: "\<exists>q'. cond_signal q q'"
  by (metis cond_signal.intros)

lemma stuck_settled:
  assumes ok: "queue_ok q" and "serves q" and stuck: "\<And>m q'. internal m \<Longrightarrow> \<not> job_step m q q'"
  shows "q_calls q i \<in> {Absent, Returned, Turned_away}"
proof -
  have move: "job_step m q q' \<Longrightarrow> internal m \<Longrightarrow> False" for m q' using stuck by blast
  have quiet: "q_worker q \<noteq> Running j" "q_worker q \<noteq> Reporting j" for j
    using move [OF execute [of q j]] move [OF report [of q j]] by (auto simp: internal_def)
  have "q_worker q \<noteq> Looking"
    using move [OF look_sleep [of q]] move [OF look_exit [of q]] move [OF look_take [of q]]
    by (cases "q_pending q") (auto simp: internal_def)
  then have "q_worker q \<in> {Sleeping, Exited}" using quiet by (cases "q_worker q") auto
  then have idle: "q_pending q = None" using ok \<open>serves q\<close> by (auto simp: queue_ok_def serves_def)
  have "q_calls q i \<noteq> Slot_woken"
  proof
    assume woken: "q_calls q i = Slot_woken"
    from some_signal obtain q' where "cond_signal (set_call i Blocked (q\<lparr>q_pending := Some i\<rparr>)) q'" by blast
    then show False using move [OF resume [OF woken post [OF idle]]] by (auto simp: internal_def)
  qed
  moreover have "q_calls q i \<noteq> Slot_wait" using ok idle by (simp add: queue_ok_def)
  moreover have "q_calls q i \<noteq> Blocked"
  proof
    assume "q_calls q i = Blocked"
    moreover from this have "i \<in> q_done q" using ok quiet idle by (auto simp: queue_ok_def)
    ultimately show False using move [OF return] by (simp add: internal_def)
  qed
  ultimately show ?thesis by (cases "q_calls q i") auto
qed

lemma internal_run_keeps:
  assumes "internal_run n q q'" "queue_ok q" "serves q"
  shows "queue_ok q' \<and> serves q' \<and> job_weight q' + n \<le> job_weight q
    \<and> (\<forall>i. q_calls q i \<notin> {Absent, Turned_away} \<longrightarrow> q_calls q' i \<notin> {Absent, Turned_away})"
  using assms
proof (induction rule: internal_run.induct)
  case (run n q q' m q'')
  then show ?case
    using job_step_ok [of q' m q''] internal_serves [of q' m q''] internal_lighter [of q' m q''] internal_underway [of m q' q'']
    by (metis add_Suc_right leD le_trans not_less_eq_eq add_le_mono1 add_less_mono1 less_le_trans Suc_leI)
qed simp

lemma count_list_distinct: "distinct xs \<Longrightarrow> count_list xs x = (if x \<in> set xs then 1 else 0)"
  by (induction xs) auto

section \<open>Properties\<close>

text \<open>
  C13. Jobs are executed one at a time and exactly once: in any interleaving of calls, wake-ups and
  the shutdown, no job is executed twice, a call that returned 0 had its job executed, and a call that
  was turned away, has not begun, or still waits for the slot did not.
\<close>

theorem jobs_run_once:
  assumes "worker_reaches (tse_worker_init rc) q"
  shows "count_list (q_log q) i \<le> 1
    \<and> (q_calls q i = Returned \<longrightarrow> count_list (q_log q) i = 1)
    \<and> (q_calls q i \<in> {Absent, Slot_wait, Slot_woken, Turned_away} \<longrightarrow> count_list (q_log q) i = 0)"
proof -
  have ok: "queue_ok q" by (rule worker_reaches_ok [OF assms queue_ok_init])
  then have "count_list (q_log q) i = (if i \<in> set (q_log q) then 1 else 0)"
    by (simp add: queue_ok_def count_list_distinct)
  with ok show ?thesis by (auto simp: queue_ok_def)
qed

text \<open>
  C14. No call is lost: from any reachable state in which the worker serves, the threads can make
  only a bounded number of moves without a new call, a spurious wake-up or the shutdown, and when
  none is left every call under way has returned 0.  In particular a job that is pending when the
  worker is shut down is still executed.
\<close>

theorem calls_return:
  assumes "worker_reaches (tse_worker_init rc) q" "serves q"
  shows "\<exists>bound. \<forall>n q'. internal_run n q q' \<longrightarrow> n \<le> bound
    \<and> ((\<nexists>m q''. internal m \<and> job_step m q' q'')
        \<longrightarrow> (\<forall>i. q_calls q i \<notin> {Absent, Turned_away} \<longrightarrow> q_calls q' i = Returned))"
proof (intro exI [of _ "job_weight q"] allI impI)
  fix n q' assume "internal_run n q q'"
  from internal_run_keeps [OF this worker_reaches_ok [OF assms(1) queue_ok_init] assms(2)]
  show "n \<le> job_weight q \<and> ((\<nexists>m q''. internal m \<and> job_step m q' q'')
      \<longrightarrow> (\<forall>i. q_calls q i \<notin> {Absent, Turned_away} \<longrightarrow> q_calls q' i = Returned))"
    using stuck_settled [of q'] by auto
qed

text \<open>A caller that has not posted when the worker ends waits for ever.\<close>

definition late :: "nat \<Rightarrow> job_queue \<Rightarrow> bool" where
  "late i q \<longleftrightarrow> q_worker q = Exited \<and> q_calls q i \<in> {Slot_wait, Slot_woken, Blocked}
     \<and> i \<notin> q_done q \<and> i \<notin> set (q_log q)"

lemma late_step: "job_step m q q' \<Longrightarrow> late i q \<Longrightarrow> late i q'"
  by (cases rule: job_step.cases, assumption) (auto simp: late_def elim!: take_slotE cond_signalE split: if_splits)

lemma late_for_ever: "worker_reaches q q' \<Longrightarrow> late i q \<Longrightarrow> late i q'"
  by (induction rule: worker_reaches.induct) (auto intro: late_step)

text \<open>The steps as equations, for concrete runs.\<close>

definition queue_of :: "bool \<Rightarrow> nat option \<Rightarrow> worker \<Rightarrow> (nat \<Rightarrow> call) \<Rightarrow> nat set \<Rightarrow> nat list \<Rightarrow> job_queue" where
  "queue_of run p w c d l = \<lparr>q_running = run, q_pending = p, q_worker = w, q_calls = c, q_done = d, q_log = l\<rparr>"

lemma queue_of_steps:
  "c i = Absent \<Longrightarrow> w \<noteq> Sleeping \<Longrightarrow> \<forall>j. c j \<noteq> Slot_wait
     \<Longrightarrow> job_step (Call i) (queue_of True None w c d l) (queue_of True (Some i) w (c(i := Blocked)) d l)"
  "c i = Absent \<Longrightarrow> job_step (Call i) (queue_of True (Some k) w c d l) (queue_of True (Some k) w (c(i := Slot_wait)) d l)"
  "c i = Slot_woken \<Longrightarrow> w \<noteq> Sleeping \<Longrightarrow> \<forall>j. c j \<noteq> Slot_wait
     \<Longrightarrow> job_step (Resume i) (queue_of run None w c d l) (queue_of run (Some i) w (c(i := Blocked)) d l)"
  "job_step Look (queue_of run (Some k) Looking c d l)
     (queue_of run None (Running k) (\<lambda>i. if c i = Slot_wait then Slot_woken else c i) d l)"
  "job_step Look (queue_of False None Looking c d l) (queue_of False None Exited c d l)"
  "job_step Execute (queue_of run p (Running k) c d l) (queue_of run p (Reporting k) c d (l @ [k]))"
  "job_step Report (queue_of run p (Reporting k) c d l) (queue_of run p Looking c (insert k d) l)"
  "w \<noteq> Sleeping \<Longrightarrow> \<forall>j. c j \<noteq> Slot_wait \<Longrightarrow> job_step Shutdown (queue_of True p w c d l) (queue_of False p w c d l)"
  using call_slot [of "queue_of True None w c d l" i, OF _ _ post [OF _ cond_signal.nobody]]
    call_slot [of "queue_of True (Some k) w c d l" i, OF _ _ occupied]
    resume [of "queue_of run None w c d l" i, OF _ post [OF _ cond_signal.nobody]]
    look_take [of "queue_of run (Some k) Looking c d l" k] look_exit [of "queue_of False None Looking c d l"]
    execute [of "queue_of run p (Running k) c d l" k] report [of "queue_of run p (Reporting k) c d l" k]
    shutdown [OF cond_signal.nobody, of "queue_of True p w c d l"]
  by (simp_all add: queue_of_def cond_broadcast_def cong: if_cong)

text \<open>Three calls.\<close>

definition calls3 :: "call \<Rightarrow> call \<Rightarrow> call \<Rightarrow> nat \<Rightarrow> call" where
  "calls3 a b c i = (if i = 0 then a else if i = 1 then b else if i = 2 then c else Absent)"

lemma calls3_simps:
  "calls3 a b c 0 = a" "calls3 a b c 1 = b" "calls3 a b c 2 = c"
  "(calls3 a b c)(0 := x) = calls3 x b c" "(calls3 a b c)(1 := x) = calls3 a x c" "(calls3 a b c)(2 := x) = calls3 a b x"
  by (auto simp: calls3_def fun_eq_iff)

lemma calls3_no_wait:
  "a \<noteq> Slot_wait \<Longrightarrow> b \<noteq> Slot_wait \<Longrightarrow> c \<noteq> Slot_wait \<Longrightarrow> \<forall>j. calls3 a b c j \<noteq> Slot_wait"
  by (simp add: calls3_def)

lemma calls3_broadcast:
  "(\<lambda>i. if calls3 a b c i = Slot_wait then Slot_woken else calls3 a b c i) = calls3
     (if a = Slot_wait then Slot_woken else a) (if b = Slot_wait then Slot_woken else b) (if c = Slot_wait then Slot_woken else c)"
  by (auto simp: calls3_def fun_eq_iff)

text \<open>The worker takes the first of them.\<close>

lemma first_job_taken:
  "worker_reaches (tse_worker_init 0) (queue_of True None (Running 0) (calls3 Blocked Absent Absent) {} [])"
proof -
  let ?q0 = "tse_worker_init 0"
  have "?q0 = queue_of True None Looking (calls3 Absent Absent Absent) {} []"
    by (auto simp: tse_worker_init_def queue_of_def calls3_def)
  then have "worker_reaches ?q0 (queue_of True None Looking (calls3 Absent Absent Absent) {} [])"
    by (metis here)
  then have "worker_reaches ?q0 (queue_of True (Some 0) Looking (calls3 Blocked Absent Absent) {} [])"
    using move [OF _ queue_of_steps(1) [of "calls3 Absent Absent Absent" 0 Looking]] by (simp add: calls3_simps calls3_no_wait)
  then show ?thesis
    using move [OF _ queue_of_steps(4) [where c = "calls3 Blocked Absent Absent"]] by (simp add: calls3_broadcast)
qed

text \<open>The worker has ended after a second caller was woken from its wait for the slot.\<close>

abbreviation late_queue :: job_queue where
  "late_queue \<equiv> queue_of False None Exited (calls3 Blocked Blocked Slot_woken) {1, 0} [0, 1]"

lemma late_queue_reached: "worker_reaches (tse_worker_init 0) late_queue"
proof -
  let ?q0 = "tse_worker_init 0"
  from first_job_taken
  have "worker_reaches ?q0 (queue_of True (Some 1) (Running 0) (calls3 Blocked Blocked Absent) {} [])"
    using move [OF _ queue_of_steps(1) [of "calls3 Blocked Absent Absent" 1 "Running 0"]] by (simp add: calls3_simps calls3_no_wait del: One_nat_def)
  then have "worker_reaches ?q0 (queue_of True (Some 1) (Running 0) (calls3 Blocked Blocked Slot_wait) {} [])"
    using move [OF _ queue_of_steps(2) [of "calls3 Blocked Blocked Absent" 2]] by (simp add: calls3_simps calls3_no_wait del: One_nat_def)
  then have "worker_reaches ?q0 (queue_of True (Some 1) Looking (calls3 Blocked Blocked Slot_wait) {0} [0])"
    using move [OF move [OF _ queue_of_steps(6)] queue_of_steps(7)] by fastforce
  then have "worker_reaches ?q0 (queue_of True None (Running 1) (calls3 Blocked Blocked Slot_woken) {0} [0])"
    using move [OF _ queue_of_steps(4) [where c = "calls3 Blocked Blocked Slot_wait"]] by (simp add: calls3_broadcast)
  then have "worker_reaches ?q0 (queue_of False None (Running 1) (calls3 Blocked Blocked Slot_woken) {0} [0])"
    using move [OF _ queue_of_steps(8) [of "Running 1" "calls3 Blocked Blocked Slot_woken"]] by (simp add: calls3_simps calls3_no_wait)
  then have "worker_reaches ?q0 (queue_of False None Looking (calls3 Blocked Blocked Slot_woken) {1, 0} [0, 1])"
    using move [OF move [OF _ queue_of_steps(6)] queue_of_steps(7)] by fastforce
  then have "worker_reaches ?q0 (queue_of False None Exited (calls3 Blocked Blocked Slot_woken) {1, 0} [0, 1])"
    by (rule move [OF _ queue_of_steps(5)])
  then show ?thesis .
qed

lemma late_queue_posts:
  "job_step (Resume 2) late_queue (queue_of False (Some 2) Exited (calls3 Blocked Blocked Blocked) {1, 0} [0, 1])"
  using queue_of_steps(3) [of "calls3 Blocked Blocked Slot_woken" 2 Exited] by (simp add: calls3_simps calls3_no_wait)

text \<open>
  C36. A call from a second thread is lost at the shutdown.  When the worker has ended, a caller in its
  wait for the slot or just woken from it, whatever is reached from there, is still waiting and its
  function is never executed: it does not look at \<^verbatim>\<open>s_running\<close> again.  Such a state is reachable, with
  a caller that was woken and whose next step posts its job into the free slot.
\<close>

theorem shutdown_loses_call:
  "(\<forall>q i. worker_reaches (tse_worker_init 0) q \<and> q_worker q = Exited \<and> q_calls q i \<in> {Slot_wait, Slot_woken}
      \<longrightarrow> (\<forall>q'. worker_reaches q q' \<longrightarrow> q_calls q' i \<in> {Slot_wait, Slot_woken, Blocked} \<and> i \<notin> set (q_log q')))
   \<and> (\<exists>q q' i. worker_reaches (tse_worker_init 0) q \<and> q_worker q = Exited \<and> q_calls q i = Slot_woken
      \<and> job_step (Resume i) q q' \<and> q_pending q' = Some i \<and> q_calls q' i = Blocked)"
proof (intro conjI allI impI)
  fix q i q'
  assume "worker_reaches (tse_worker_init 0) q \<and> q_worker q = Exited \<and> q_calls q i \<in> {Slot_wait, Slot_woken}"
  then have q: "queue_ok q" "q_worker q = Exited" "q_calls q i \<in> {Slot_wait, Slot_woken}"
    using worker_reaches_ok [OF _ queue_ok_init] by blast+
  then have "late i q" by (auto simp: late_def queue_ok_def)
  moreover assume "worker_reaches q q'"
  ultimately have "late i q'" using late_for_ever by blast
  then show "q_calls q' i \<in> {Slot_wait, Slot_woken, Blocked}" "i \<notin> set (q_log q')" by (simp_all add: late_def)
next
  have "q_calls late_queue 2 = Slot_woken" "q_worker late_queue = Exited"
    by (simp_all add: queue_of_def calls3_simps)
  moreover have "q_pending (queue_of False (Some 2) Exited (calls3 Blocked Blocked Blocked) {1, 0} [0, 1]) = Some 2"
    "q_calls (queue_of False (Some 2) Exited (calls3 Blocked Blocked Blocked) {1, 0} [0, 1]) 2 = Blocked"
    by (simp_all add: queue_of_def calls3_simps)
  ultimately show "\<exists>q q' i. worker_reaches (tse_worker_init 0) q \<and> q_worker q = Exited \<and> q_calls q i = Slot_woken
      \<and> job_step (Resume i) q q' \<and> q_pending q' = Some i \<and> q_calls q' i = Blocked"
    using late_queue_reached late_queue_posts by blast
qed

theorem jobs_run_once_witness:
  "\<exists>q. worker_reaches (tse_worker_init 0) q \<and> q_calls q 0 = Returned \<and> count_list (q_log q) 0 = 1"
proof -
  have "worker_reaches (tse_worker_init 0) (queue_of True None Looking (calls3 Blocked Absent Absent) {0} [0])"
    using move [OF move [OF first_job_taken queue_of_steps(6)] queue_of_steps(7)] by simp
  then have reached: "worker_reaches (tse_worker_init 0)
      (set_call 0 Returned (queue_of True None Looking (calls3 Blocked Absent Absent) {0} [0]))"
    by (rule move [OF _ return]) (simp_all add: queue_of_def calls3_simps)
  show ?thesis
    by (rule exI, rule conjI [OF reached]) (use jobs_run_once [OF reached, of 0] in simp)
qed

theorem shutdown_loses_call_witness:
  "q_calls (queue_of False (Some 2) Exited (calls3 Blocked Blocked Blocked) {1, 0} [0, 1]) 2 \<in> {Slot_wait, Slot_woken, Blocked}
   \<and> 2 \<notin> set (q_log (queue_of False (Some 2) Exited (calls3 Blocked Blocked Blocked) {1, 0} [0, 1]))"
proof -
  have "q_worker late_queue = Exited" "q_calls late_queue 2 \<in> {Slot_wait, Slot_woken}"
    by (simp_all add: queue_of_def calls3_simps)
  moreover have "worker_reaches late_queue (queue_of False (Some 2) Exited (calls3 Blocked Blocked Blocked) {1, 0} [0, 1])"
    by (rule move [OF here late_queue_posts])
  ultimately show ?thesis
    using shutdown_loses_call [THEN conjunct1] late_queue_reached by blast
qed

theorem calls_return_witness:
  "\<exists>bound. \<forall>n q'. internal_run n (set_call 0 Blocked (tse_worker_init 0\<lparr>q_pending := Some 0\<rparr>)) q' \<longrightarrow> n \<le> bound
    \<and> ((\<nexists>m q''. internal m \<and> job_step m q' q'') \<longrightarrow> q_calls q' 0 = Returned)"
proof -
  let ?q = "set_call 0 Blocked (tse_worker_init 0\<lparr>q_pending := Some 0\<rparr>)"
  have "job_step (Call 0) (tse_worker_init 0) ?q"
    by (rule call_slot [OF _ _ post [OF _ cond_signal.nobody]]) (simp_all add: tse_worker_init_def)
  then have "worker_reaches (tse_worker_init 0) ?q" by (rule move [OF here])
  moreover have "serves ?q" "q_calls ?q 0 = Blocked" by (simp_all add: serves_def tse_worker_init_def)
  ultimately obtain bound where "\<forall>n q'. internal_run n ?q q' \<longrightarrow> n \<le> bound
      \<and> ((\<nexists>m q''. internal m \<and> job_step m q' q'')
          \<longrightarrow> (\<forall>i. q_calls ?q i \<notin> {Absent, Turned_away} \<longrightarrow> q_calls q' i = Returned))"
    using calls_return [of 0 ?q] by blast
  with \<open>q_calls ?q 0 = Blocked\<close> show ?thesis by (intro exI [of _ bound]) simp
qed

end
