(* ===== verification/Tse_Block.thy ===== *)
theory Tse_Block
  imports Tse_Types
begin

text \<open>
  The block device of \<^verbatim>\<open>c/src/tse_block.c\<close>, the director callbacks of
  \<^verbatim>\<open>c/src/tse_worm_director.c\<close> that give it to the WormAPI, and the search for the device in
  \<^verbatim>\<open>c/src/tse_worm.c\<close> (\<^verbatim>\<open>ensure_block_open\<close>).

  What the system does is part of the state: the contents of the devices, of fixed size, by their
  path; the open descriptors; the outcomes of the coming \<^verbatim>\<open>pread\<close> and \<^verbatim>\<open>pwrite\<close> calls, and when
  they are used up every call moves as much as it can; and what \<^verbatim>\<open>/sys/block\<close> says.
\<close>

section \<open>State\<close>

record tse_block =
  blk_fd :: int
  blk_device :: string
  lba_info :: u32
  lba_comm :: u32
  lba_store :: u32
  offsets_valid :: bool

datatype transfer = Moves nat | Move_interrupted | Move_failed

text \<open>\<open>dv_opened\<close> is a ghost: the paths \<^verbatim>\<open>open\<close> was called with.  \<open>g_rw\<close> says that the director has a block.\<close>

record ('db, 'hw) host = "('db, 'hw) server" +
  dv_disks :: "string \<Rightarrow> u8 list option"
  dv_files :: "(int \<times> string) list"
  dv_transfers :: "transfer list"
  dv_opened :: "string list"
  dv_sys :: "string list option"
  dv_removable :: "string \<Rightarrow> string option"
  g_block :: tse_block
  g_rw :: bool

type_synonym ('db, 'hw, 'a, 'r) hprog = "(('db, 'hw, 'a) host_scheme, 'r) state"

definition TSE_BLOCK_SIZE :: nat where "TSE_BLOCK_SIZE = 512"
definition TSE_OFFSET_TABLE_LBA :: u64 where "TSE_OFFSET_TABLE_LBA = 8"

definition blank_block :: tse_block where
  "blank_block = \<lparr>blk_fd = -1, blk_device = [], lba_info = 0, lba_comm = 0, lba_store = 0, offsets_valid = False\<rparr>"

section \<open>Reading and writing\<close>

text \<open>The loops of \<^verbatim>\<open>read_exact\<close> and \<^verbatim>\<open>write_exact\<close>; a call that moves nothing ends them with -1.\<close>

fun pread_loop :: "u8 list \<Rightarrow> transfer list \<Rightarrow> nat \<Rightarrow> nat \<Rightarrow> u8 list \<Rightarrow> u8 list option \<times> transfer list" where
  "pread_loop disk ts 0 off acc = (Some acc, ts)"
| "pread_loop disk [] len off acc =
     (let bs = take len (drop off disk) in (if length bs = len then Some (acc @ bs) else None, []))"
| "pread_loop disk (Moves k # ts) len off acc =
     (let bs = take (min k len) (drop off disk) in
      if bs = [] then (None, ts) else pread_loop disk ts (len - length bs) (off + length bs) (acc @ bs))"
| "pread_loop disk (Move_interrupted # ts) len off acc = pread_loop disk ts len off acc"
| "pread_loop disk (Move_failed # ts) len off acc = (None, ts)"

definition poke :: "u8 list \<Rightarrow> nat \<Rightarrow> u8 list \<Rightarrow> u8 list" where
  "poke disk off bs = take off disk @ bs @ drop (off + length bs) disk"

fun pwrite_loop :: "u8 list \<Rightarrow> transfer list \<Rightarrow> u8 list \<Rightarrow> nat \<Rightarrow> bool \<times> u8 list \<times> transfer list" where
  "pwrite_loop disk ts [] off = (True, disk, ts)"
| "pwrite_loop disk [] data off =
     (let n = min (length data) (length disk - off) in
      (n = length data, poke disk off (take n data), []))"
| "pwrite_loop disk (Moves k # ts) data off =
     (let n = min (min k (length data)) (length disk - off) in
      if n = 0 then (False, disk, ts) else pwrite_loop (poke disk off (take n data)) ts (drop n data) (off + n))"
| "pwrite_loop disk (Move_interrupted # ts) data off = pwrite_loop disk ts data off"
| "pwrite_loop disk (Move_failed # ts) data off = (False, disk, ts)"

text \<open>A bad descriptor or a negative offset makes the first call fail.\<close>

definition file_of :: "('db, 'hw, 'a) host_scheme \<Rightarrow> int \<Rightarrow> (string \<times> u8 list) option" where
  "file_of s fd = (case map_of (dv_files s) fd of None \<Rightarrow> None
     | Some path \<Rightarrow> map_option (Pair path) (dv_disks s path))"

definition read_exact :: "int \<Rightarrow> nat \<Rightarrow> int \<Rightarrow> ('db, 'hw, 'a, u8 list option) hprog" where
  "read_exact fd len off = do {
     s \<leftarrow> State_Monad.get;
     (case file_of s fd of
        None \<Rightarrow> ret None
      | Some (path, disk) \<Rightarrow>
          if off < 0 then ret None
          else case pread_loop disk (dv_transfers s) len (nat off) [] of
            (r, ts) \<Rightarrow> do { _ \<leftarrow> State_Monad.set (s\<lparr>dv_transfers := ts\<rparr>); ret r }) }"

definition write_exact :: "int \<Rightarrow> u8 list \<Rightarrow> int \<Rightarrow> ('db, 'hw, 'a, bool) hprog" where
  "write_exact fd data off = do {
     s \<leftarrow> State_Monad.get;
     (case file_of s fd of
        None \<Rightarrow> ret False
      | Some (path, disk) \<Rightarrow>
          if off < 0 then ret False
          else case pwrite_loop disk (dv_transfers s) data (nat off) of
            (ok, disk', ts) \<Rightarrow> do {
              _ \<leftarrow> State_Monad.set (s\<lparr>dv_transfers := ts, dv_disks := (dv_disks s)(path := Some disk')\<rparr>);
              ret ok }) }"

text \<open>\<^verbatim>\<open>(off_t)(lba * TSE_BLOCK_SIZE)\<close>: the product is unsigned, 64 bits.\<close>

definition lba_offset :: "u64 \<Rightarrow> int" where
  "lba_offset lba = sint (lba * of_nat TSE_BLOCK_SIZE)"

definition tse_block_read_lba :: "tse_block \<Rightarrow> u64 \<Rightarrow> nat \<Rightarrow> ('db, 'hw, 'a, u8 list option) hprog" where
  "tse_block_read_lba blk lba len =
     (if blk_fd blk < 0 \<or> len = 0 then ret None
      else if len mod TSE_BLOCK_SIZE \<noteq> 0 then ret None
      else read_exact (blk_fd blk) len (lba_offset lba))"

definition tse_block_write_lba :: "tse_block \<Rightarrow> u64 \<Rightarrow> u8 list \<Rightarrow> ('db, 'hw, 'a, bool) hprog" where
  "tse_block_write_lba blk lba data =
     (if blk_fd blk < 0 \<or> data = [] then ret False
      else if length data mod TSE_BLOCK_SIZE \<noteq> 0 then ret False
      else write_exact (blk_fd blk) data (lba_offset lba))"

section \<open>The regions\<close>

definition tse_block_read_info :: "tse_block \<Rightarrow> ('db, 'hw, 'a, u8 list option) hprog" where
  "tse_block_read_info blk =
     (if \<not> offsets_valid blk then ret None else tse_block_read_lba blk (ucast (lba_info blk)) TSE_BLOCK_SIZE)"

definition tse_block_read_comm :: "tse_block \<Rightarrow> ('db, 'hw, 'a, u8 list option) hprog" where
  "tse_block_read_comm blk =
     (if \<not> offsets_valid blk then ret None else tse_block_read_lba blk (ucast (lba_comm blk)) TSE_BLOCK_SIZE)"

definition tse_block_write_comm :: "tse_block \<Rightarrow> u8 list \<Rightarrow> ('db, 'hw, 'a, bool) hprog" where
  "tse_block_write_comm blk buf =
     (if \<not> offsets_valid blk then ret False else tse_block_write_lba blk (ucast (lba_comm blk)) (take TSE_BLOCK_SIZE buf))"

definition tse_block_read_store :: "tse_block \<Rightarrow> u64 \<Rightarrow> nat \<Rightarrow> ('db, 'hw, 'a, u8 list option) hprog" where
  "tse_block_read_store blk offset len =
     (if \<not> offsets_valid blk then ret None
      else if len = 0 then ret (Some [])
      else tse_block_read_lba blk (ucast (lba_store blk) + offset) len)"

definition tse_block_write_store :: "tse_block \<Rightarrow> u64 \<Rightarrow> u8 list \<Rightarrow> ('db, 'hw, 'a, bool) hprog" where
  "tse_block_write_store blk offset data =
     (if \<not> offsets_valid blk then ret False
      else if data = [] then ret True
      else tse_block_write_lba blk (ucast (lba_store blk) + offset) data)"

section \<open>Opening\<close>

definition be32 :: "u8 list \<Rightarrow> nat \<Rightarrow> u32" where
  "be32 sector i = ((push_bit 24 (ucast (sector ! i)) OR push_bit 16 (ucast (sector ! (i + 1))))
     OR push_bit 8 (ucast (sector ! (i + 2)))) OR ucast (sector ! (i + 3))"

definition tse_block_load_offsets :: "tse_block \<Rightarrow> ('db, 'hw, 'a, bool \<times> tse_block) hprog" where
  "tse_block_load_offsets blk = do {
     r \<leftarrow> tse_block_read_lba blk TSE_OFFSET_TABLE_LBA TSE_BLOCK_SIZE;
     (case r of
        None \<Rightarrow> ret (False, blk\<lparr>offsets_valid := False\<rparr>)
      | Some sector \<Rightarrow>
          let blk' = blk\<lparr>lba_info := be32 sector 0, lba_comm := be32 sector 4, lba_store := be32 sector 8\<rparr> in
          if lba_info blk' = 0 \<or> lba_comm blk' = 0 \<or> lba_store blk' = 0
          then ret (False, blk'\<lparr>offsets_valid := False\<rparr>)
          else ret (True, blk'\<lparr>offsets_valid := True\<rparr>)) }"

text \<open>\<^verbatim>\<open>open\<close>: a fresh descriptor, when there is such a device.\<close>

definition open_device :: "string \<Rightarrow> ('db, 'hw, 'a, int) hprog" where
  "open_device device = do {
     s \<leftarrow> State_Monad.get;
     let s' = s\<lparr>dv_opened := dv_opened s @ [device]\<rparr>;
     let fd = Max (insert 2 (fst ` set (dv_files s))) + 1;
     (if dv_disks s device = None then do { _ \<leftarrow> State_Monad.set s'; ret (-1) }
      else do { _ \<leftarrow> State_Monad.set (s'\<lparr>dv_files := (fd, device) # dv_files s\<rparr>); ret fd }) }"

definition close_device :: "int \<Rightarrow> ('db, 'hw, 'a, unit) hprog" where
  "close_device fd = modify (\<lambda>s. s\<lparr>dv_files := filter (\<lambda>f. fst f \<noteq> fd) (dv_files s)\<rparr>)"

definition tse_block_open :: "string \<Rightarrow> ('db, 'hw, 'a, bool \<times> tse_block) hprog" where
  "tse_block_open device = do {
     let blk = blank_block\<lparr>blk_device := util_strlcpy (Some device) 256\<rparr>;
     fd \<leftarrow> open_device device;
     (if fd < 0 then ret (False, blk) else tse_block_load_offsets (blk\<lparr>blk_fd := fd\<rparr>)) }"

definition tse_block_close :: "tse_block \<Rightarrow> ('db, 'hw, 'a, tse_block) hprog" where
  "tse_block_close blk = do {
     _ \<leftarrow> (if 0 \<le> blk_fd blk then close_device (blk_fd blk) else ret ());
     ret (blk\<lparr>blk_fd := -1, offsets_valid := False\<rparr>) }"

text \<open>The text of the error is only logged.\<close>

definition tse_block_probe :: "string \<Rightarrow> ('db, 'hw, 'a, bool) hprog" where
  "tse_block_probe device = do {
     (ok, blk) \<leftarrow> tse_block_open device;
     if \<not> ok then ret False
     else do {
       info \<leftarrow> tse_block_read_info blk;
       _ \<leftarrow> tse_block_close blk;
       ret (case info of None \<Rightarrow> False | Some bs \<Rightarrow> map (char_of \<circ> unat) (take 7 bs) = ''GMISRLS'') } }"

text \<open>The part of the device an address is in, as the log names it.\<close>

definition region_for_lba :: "tse_block \<Rightarrow> u64 \<Rightarrow> string" where
  "region_for_lba blk lba =
     (if lba = TSE_OFFSET_TABLE_LBA then ''offset-table''
      else if offsets_valid blk \<and> lba = ucast (lba_info blk) then ''info''
      else if offsets_valid blk \<and> lba = ucast (lba_comm blk) then ''comm''
      else if offsets_valid blk \<and> ucast (lba_store blk) \<le> lba then ''store''
      else ''unknown'')"

section \<open>The director\<close>

text \<open>
  The callbacks of the WormAPI; 0 is success, 1 a failure.  A buffer to read into is there or a null
  pointer; a successful read gives the bytes put there.
\<close>

definition tse_worm_director_set_block :: "('db, 'hw, 'a, unit) hprog" where
  "tse_worm_director_set_block = modify (\<lambda>s. s\<lparr>g_rw := True\<rparr>)"

definition director_read :: "bool \<Rightarrow> (tse_block \<Rightarrow> ('db, 'hw, 'a, u8 list option) hprog) \<Rightarrow> ('db, 'hw, 'a, int \<times> u8 list) hprog" where
  "director_read have_buf rd = do {
     s \<leftarrow> State_Monad.get;
     (if \<not> g_rw s \<or> \<not> have_buf then ret (1, [])
      else do {
        r \<leftarrow> rd (g_block s);
        ret (case r of None \<Rightarrow> (1, []) | Some bs \<Rightarrow> (0, bs)) }) }"

definition director_write :: "u8 list option \<Rightarrow> (tse_block \<Rightarrow> u8 list \<Rightarrow> ('db, 'hw, 'a, bool) hprog) \<Rightarrow> ('db, 'hw, 'a, int) hprog" where
  "director_write buf wr = do {
     s \<leftarrow> State_Monad.get;
     (case buf of
        None \<Rightarrow> ret 1
      | Some bs \<Rightarrow>
          if \<not> g_rw s then ret 1
          else do { ok \<leftarrow> wr (g_block s) bs; ret (if ok then 0 else 1) }) }"

definition director_readInfo :: "bool \<Rightarrow> ('db, 'hw, 'a, int \<times> u8 list) hprog" where
  "director_readInfo have_buf = director_read have_buf tse_block_read_info"

definition director_readComm :: "bool \<Rightarrow> ('db, 'hw, 'a, int \<times> u8 list) hprog" where
  "director_readComm have_buf = director_read have_buf tse_block_read_comm"

definition director_writeComm :: "u8 list option \<Rightarrow> ('db, 'hw, 'a, int) hprog" where
  "director_writeComm buf = director_write buf tse_block_write_comm"

definition director_readStore :: "u64 \<Rightarrow> bool \<Rightarrow> ('db, 'hw, 'a, int \<times> u8 list) hprog" where
  "director_readStore offset have_buf = director_read have_buf (\<lambda>blk. tse_block_read_store blk offset 512)"

definition director_writeStore :: "u64 \<Rightarrow> u8 list option \<Rightarrow> ('db, 'hw, 'a, int) hprog" where
  "director_writeStore offset buf = director_write buf (\<lambda>blk bs. tse_block_write_store blk offset (take 512 bs))"

text \<open>The callbacks of the older interface are the same; it keeps nothing alive.\<close>

definition WormLegacy_readInfo :: "bool \<Rightarrow> ('db, 'hw, 'a, int \<times> u8 list) hprog" where
  "WormLegacy_readInfo have_buf = director_readInfo have_buf"

definition WormLegacy_readComm :: "bool \<Rightarrow> ('db, 'hw, 'a, int \<times> u8 list) hprog" where
  "WormLegacy_readComm have_buf = director_readComm have_buf"

definition WormLegacy_writeComm :: "u8 list option \<Rightarrow> ('db, 'hw, 'a, int) hprog" where
  "WormLegacy_writeComm buf = director_writeComm buf"

definition WormLegacy_readStore :: "u64 \<Rightarrow> bool \<Rightarrow> ('db, 'hw, 'a, int \<times> u8 list) hprog" where
  "WormLegacy_readStore offset have_buf = director_readStore offset have_buf"

definition WormLegacy_writeStore :: "u64 \<Rightarrow> u8 list option \<Rightarrow> ('db, 'hw, 'a, int) hprog" where
  "WormLegacy_writeStore offset buf = director_writeStore offset buf"

definition WormLegacy_openKeepAlive :: "('db, 'hw, 'a, int) hprog" where
  "WormLegacy_openKeepAlive = ret 0"

definition WormLegacy_closeKeepAlive :: "('db, 'hw, 'a, int) hprog" where
  "WormLegacy_closeKeepAlive = ret 0"

definition WormLegacy_readKeepAlive :: "bool \<Rightarrow> ('db, 'hw, 'a, int \<times> u8 list) hprog" where
  "WormLegacy_readKeepAlive have_buf = ret (1, [])"

section \<open>Finding the device\<close>

text \<open>The conversions of \<^verbatim>\<open>sscanf\<close> as far as they decide.\<close>

definition is_block_dev_name :: "string \<Rightarrow> bool" where
  "is_block_dev_name name \<longleftrightarrow>
     (let sd = prefix ''sd'' name \<and> 2 < length name; letter = name ! 2; low = (CHR ''a'' \<le> letter \<and> letter \<le> CHR ''z'') in
      (sd \<and> read_int (drop 3 name) \<noteq> None \<and> low) \<or> (sd \<and> low))
     \<or> (prefix ''mmcblk'' name \<and> read_int (drop 6 name) \<noteq> None)
     \<or> prefix ''nvme'' name"

definition sysfs_device_is_removable :: "(string \<Rightarrow> string option) \<Rightarrow> string \<Rightarrow> bool" where
  "sysfs_device_is_removable sysfs name = (case sysfs name of Some (c # _) \<Rightarrow> c = CHR ''1'' | _ \<Rightarrow> False)"

text \<open>At most 32 candidates of 31 characters.\<close>

definition candidates :: "(string \<Rightarrow> string option) \<Rightarrow> string list \<Rightarrow> string list" where
  "candidates sysfs names = take 32 (map ((@) ''/dev/'')
     (filter (\<lambda>n. is_block_dev_name n \<and> sysfs_device_is_removable sysfs n \<and> length n + 6 \<le> 32) names))"

definition fallback_for :: "string \<Rightarrow> string option" where
  "fallback_for dev =
     (if dev \<noteq> [] \<and> is_digit (last dev) then Some (fit 32 (butlast dev))
      else if length dev + 2 \<le> 32 then Some (fit 32 (dev @ ''1''))
      else None)"

text \<open>Probe and, when it looks like a TSE, open as the global block.\<close>

definition probe_open :: "string \<Rightarrow> ('db, 'hw, 'a, bool) hprog" where
  "probe_open dev = do {
     found \<leftarrow> tse_block_probe dev;
     if \<not> found then ret False
     else do {
       (ok, blk) \<leftarrow> tse_block_open dev;
       _ \<leftarrow> modify (\<lambda>s. s\<lparr>g_block := blk\<rparr>);
       _ \<leftarrow> (if ok then modify (\<lambda>s. s\<lparr>g_config := (g_config s)\<lparr>cfg_tse_device := util_strlcpy (Some dev) 256\<rparr>\<rparr>) else ret ());
       ret ok } }"

fun try_candidates :: "string list \<Rightarrow> ('db, 'hw, 'a, bool) hprog" where
  "try_candidates [] = ret False"
| "try_candidates (dev # devs) = do {
     ok \<leftarrow> probe_open dev;
     if ok then ret True
     else do {
       ok2 \<leftarrow> (case fallback_for dev of None \<Rightarrow> ret False | Some f \<Rightarrow> probe_open f);
       if ok2 then ret True else try_candidates devs } }"

definition ensure_block_open :: "('db, 'hw, 'a, bool) hprog" where
  "ensure_block_open = do {
     s \<leftarrow> State_Monad.get;
     (case dv_sys s of
        None \<Rightarrow> ret False
      | Some names \<Rightarrow> try_candidates (candidates (dv_removable s) names)) }"

end
