(* ===== verification/Tse_Worm_Init.thy ===== *)
theory Tse_Worm_Init
  imports Tse_Block Tse_Store
begin

text \<open>
  The life of the TSE client in \<^verbatim>\<open>c/src/tse_worm.c\<close>: loading the library, opening the device,
  provisioning (\<^verbatim>\<open>tse_worm_init\<close>), the background thread (\<^verbatim>\<open>time_sync_thread_main\<close>) and
  \<^verbatim>\<open>tse_worm_shutdown\<close>; and \<^verbatim>\<open>store_init\<close>, \<^verbatim>\<open>store_shutdown\<close> of \<^verbatim>\<open>c/src/store.c\<close>.

  The dynamic loader is a parameter: the symbols each library exports.  What the library does with
  the director's callbacks is its own business.
\<close>

section \<open>State\<close>

text \<open>
  \<open>lb_addr\<close> is the address of the buffer the weak random digits are seeded with, \<open>lb_thread\<close> whether
  \<^verbatim>\<open>pthread_create\<close> succeeds, \<open>g_sync_thread\<close> that the background thread was started.
\<close>

record ('db, 'hw) station = "('db, 'hw) host" +
  lb_symbols :: "string \<Rightarrow> (string \<Rightarrow> bool) option"
  lb_addr :: u32
  lb_thread :: bool
  g_lib :: bool
  g_sync_thread :: bool

type_synonym ('db, 'hw, 'a, 'r) sprog = "(('db, 'hw, 'a) station_scheme, 'r) state"

section \<open>Symbols\<close>

definition resolve :: "(string \<Rightarrow> bool) \<Rightarrow> string \<Rightarrow> string option \<Rightarrow> bool" where
  "resolve syms primary alt \<longleftrightarrow> syms primary \<or> (case alt of Some a \<Rightarrow> syms a | None \<Rightarrow> False)"

text \<open>A chain of \<^verbatim>\<open>require_sym\<close>, up to the first that is missing.\<close>

fun require_all ::
  "(string \<Rightarrow> bool) \<Rightarrow> (string \<times> string option \<times> fnptr) list \<Rightarrow> (fnptr \<Rightarrow> bool) \<Rightarrow> bool \<times> (fnptr \<Rightarrow> bool)" where
  "require_all syms [] ptr = (True, ptr)"
| "require_all syms ((primary, alt, p) # rest) ptr =
     (let found = resolve syms primary alt; ptr' = ptr(p := found) in
      if found then require_all syms rest ptr' else (False, ptr'))"

fun resolve_all ::
  "(string \<Rightarrow> bool) \<Rightarrow> (string \<times> string option \<times> fnptr) list \<Rightarrow> (fnptr \<Rightarrow> bool) \<Rightarrow> (fnptr \<Rightarrow> bool)" where
  "resolve_all syms [] ptr = ptr"
| "resolve_all syms ((primary, alt, p) # rest) ptr = resolve_all syms rest (ptr(p := resolve syms primary alt))"

definition store_api_symbols :: "(string \<times> string option \<times> fnptr) list" where
  "store_api_symbols =
     [(''worm_store_free'', Some ''delete_WormStore'', P_store_free),
      (''worm_info_new'', Some ''WormInformation_new'', P_info_new),
      (''worm_info_free'', Some ''delete_WormInformation'', P_info_free),
      (''worm_info_read'', Some ''WormInformation_read'', P_info_read),
      (''worm_transaction_response_new'', None, P_tx_resp_new),
      (''worm_transaction_response_free'', None, P_tx_resp_free),
      (''worm_transaction_start'', None, P_tx_start),
      (''worm_transaction_finish'', None, P_tx_finish),
      (''worm_transaction_response_transactionNumber'', None, P_tx_resp_tx_num),
      (''worm_transaction_response_signatureCounter'', None, P_tx_resp_sig_counter),
      (''worm_transaction_response_logTime'', None, P_tx_resp_log_time),
      (''worm_transaction_response_signature'', None, P_tx_resp_signature)]"

definition legacy_api_symbols :: "(string \<times> string option \<times> fnptr) list" where
  "legacy_api_symbols =
     [(''worm_init'', None, P_init),
      (''worm_cleanup'', None, P_cleanup),
      (''worm_info_new'', None, P_info_new),
      (''worm_info_free'', None, P_info_free),
      (''worm_info_read'', None, P_info_read),
      (''worm_transaction_response_new'', None, P_tx_resp_new),
      (''worm_transaction_response_free'', None, P_tx_resp_free),
      (''worm_transaction_start'', None, P_tx_start),
      (''worm_transaction_finish'', None, P_tx_finish),
      (''worm_transaction_response_transactionNumber'', None, P_tx_resp_tx_num),
      (''worm_transaction_response_signatureCounter'', None, P_tx_resp_sig_counter),
      (''worm_transaction_response_logTime'', None, P_tx_resp_log_time),
      (''worm_transaction_response_signature'', None, P_tx_sig_legacy)]"

definition store_api_optional :: "(string \<times> string option \<times> fnptr) list" where
  "store_api_optional =
     [(''worm_info_tseSerialNumber'', Some ''WormInformation_tseSerialNumber'', P_info_serial),
      (''worm_info_tsePublicKey'', Some ''WormInformation_tsePublicKey'', P_info_pubkey),
      (''worm_store_internal_new'', Some ''new_WormStoreInternal'', P_store_internal_new),
      (''new_WormTSEReaderWriter'', None, P_rw_new),
      (''WormTSEReaderWriter_director_connect'', None, P_rw_director_connect)]"

definition legacy_api_optional :: "(string \<times> string option \<times> fnptr) list" where
  "legacy_api_optional =
     [(''worm_info_tseSerialNumber'', None, P_info_serial_out),
      (''worm_info_tsePublicKey'', None, P_info_pubkey_out),
      (''worm_init_with_communication_callbacks'', None, P_init_callbacks)]"

definition optional_symbols :: "(string \<times> string option \<times> fnptr) list" where
  "optional_symbols =
     [(''worm_tse_registerClient'', Some ''WormStore_tse_registerClient'', P_register_client),
      (''worm_tse_runSelfTest'', Some ''WormStore_tse_runSelfTest'', P_run_self_test),
      (''worm_tse_updateTime'', Some ''WormStore_tse_updateTime'', P_update_time),
      (''worm_user_login'', Some ''WormStore_user_login'', P_user_login),
      (''worm_user_logout'', Some ''WormStore_user_logout'', P_user_logout),
      (''worm_info_hasValidTime'', None, P_has_valid_time),
      (''worm_info_hasPassedSelfTest'', None, P_has_passed_self_test),
      (''worm_info_timeUntilNextSelfTest'', None, P_time_until_next_self_test),
      (''worm_info_registeredClients'', None, P_registered_clients),
      (''worm_info_maxRegisteredClients'', None, P_max_registered_clients),
      (''worm_info_isTransactionInProgress'', None, P_is_tx_in_progress),
      (''worm_info_startedTransactions'', None, P_started_transactions),
      (''worm_info_maxStartedTransactions'', None, P_max_started_transactions),
      (''worm_info_createdSignatures'', None, P_created_signatures),
      (''worm_info_maxTimeSynchronizationDelay'', None, P_max_time_sync_delay),
      (''worm_info_hasChangedTimeAdminPin'', None, P_has_changed_time_admin_pin),
      (''worm_info_initializationState'', None, P_init_state),
      (''worm_info_hardwareVersion'', None, P_hardware_version),
      (''worm_info_firmwareVersion'', None, P_firmware_version),
      (''worm_tse_setup'', None, P_tse_setup),
      (''worm_getLogMessageCertificate'', None, P_get_certificate),
      (''worm_getVersion'', None, P_get_version),
      (''worm_export_tar'', None, P_export_tar),
      (''worm_logTimeFormat'', None, P_log_time_format)]"

text \<open>Whether the library has all the symbols of its kind, and the pointers it gives.\<close>

definition load_symbols :: "(string \<Rightarrow> bool) \<Rightarrow> ('db, 'hw, 'a, bool) sprog" where
  "load_symbols syms = do {
     s \<leftarrow> State_Monad.get;
     let store_api = resolve syms ''worm_store_new'' (Some ''WormStore_new'');
     let (ok, ptr) = require_all syms (if store_api then store_api_symbols else legacy_api_symbols)
                       ((w_ptr s)(P_store_new := store_api));
     let ptr' = (if ok then resolve_all syms optional_symbols
                   (resolve_all syms (if store_api then store_api_optional else legacy_api_optional) ptr) else ptr);
     _ \<leftarrow> modify (\<lambda>s. s\<lparr>w_ptr := ptr', w_legacy := w_legacy s \<or> \<not> store_api\<rparr>);
     ret ok }"

section \<open>Opening the store\<close>

definition hw_open :: "'hw worm_api \<Rightarrow> wcall \<Rightarrow> ('db, 'hw, 'a, int \<times> int) prog" where
  "hw_open A c = do {
     s \<leftarrow> State_Monad.get;
     let ((rc, ctx), h) = api_open A c (hw s);
     _ \<leftarrow> State_Monad.set (s\<lparr>hw := h, w_trace := w_trace s @ [(c, rc)]\<rparr>);
     ret (rc, ctx) }"

definition use_store :: "int \<Rightarrow> string \<Rightarrow> ('db, 'hw, 'a, bool) prog" where
  "use_store ctx path = do {
     _ \<leftarrow> modify (\<lambda>s. s\<lparr>w_store := ctx, w_store_path := fit 512 path\<rparr>);
     ret True }"

definition open_store_legacy :: "'hw worm_api \<Rightarrow> string \<Rightarrow> ('db, 'hw, 'a, bool) prog" where
  "open_store_legacy A path = do {
     (rc, ctx) \<leftarrow> hw_open A (Worm_init path);
     if rc \<noteq> WORM_ERROR_NOERROR \<or> ctx = 0 then ret False else use_store ctx path }"

definition open_store_legacy_block :: "'hw worm_api \<Rightarrow> ('db, 'hw, 'a, bool) hprog" where
  "open_store_legacy_block A = do {
     s \<leftarrow> State_Monad.get;
     if \<not> w_ptr s P_init_callbacks then ret False else do {
       _ \<leftarrow> tse_worm_director_set_block;
       (rc, ctx) \<leftarrow> hw_open A Worm_init_callbacks;
       if rc \<noteq> WORM_ERROR_NOERROR \<or> ctx = 0 then ret False
       else use_store ctx (''block:'' @ blk_device (g_block s)) } }"

fun try_paths :: "'hw worm_api \<Rightarrow> string \<Rightarrow> string list \<Rightarrow> ('db, 'hw, 'a, bool) prog" where
  "try_paths A configured [] = ret False"
| "try_paths A configured (path # paths) =
     (if configured \<noteq> [] \<and> configured = path then try_paths A configured paths
      else do {
        ok \<leftarrow> open_store_legacy A path;
        if ok then ret True else try_paths A configured paths })"

definition try_legacy_mount_paths :: "'hw worm_api \<Rightarrow> ('db, 'hw, 'a, bool) prog" where
  "try_legacy_mount_paths A = do {
     s \<leftarrow> State_Monad.get;
     try_paths A (cfg_worm_path (g_config s)) [''/mnt/tse'', ''/mnt/SWISSBIT''] }"

definition open_store :: "'hw worm_api \<Rightarrow> string \<Rightarrow> ('db, 'hw, 'a, bool) prog" where
  "open_store A path = do {
     s \<leftarrow> State_Monad.get;
     if w_legacy s then open_store_legacy A path
     else do {
       ctx \<leftarrow> hw_handle A (Store_new path);
       _ \<leftarrow> modify (\<lambda>s. s\<lparr>w_store := ctx\<rparr>);
       if ctx = 0 then ret False else use_store ctx path } }"

definition open_store_with_block :: "'hw worm_api \<Rightarrow> ('db, 'hw, 'a, bool) hprog" where
  "open_store_with_block A = do {
     s \<leftarrow> State_Monad.get;
     if \<not> w_ptr s P_store_internal_new \<or> \<not> w_ptr s P_rw_new \<or> \<not> w_ptr s P_rw_director_connect then ret False
     else do {
       _ \<leftarrow> tse_worm_director_set_block;
       rw \<leftarrow> hw_handle A Rw_new;
       if rw = 0 then ret False else do {
         _ \<leftarrow> hw_void A (Director_connect rw);
         ctx \<leftarrow> hw_handle A (Store_internal_new rw);
         _ \<leftarrow> modify (\<lambda>s. s\<lparr>w_store := ctx\<rparr>);
         if ctx = 0 then ret False else use_store ctx (''block:'' @ blk_device (g_block s)) } } }"

text \<open>One after the other, until one succeeds.\<close>

definition or_else :: "('s, bool) state \<Rightarrow> ('s, bool) state \<Rightarrow> ('s, bool) state" where
  "or_else m n = do { ok \<leftarrow> m; if ok then ret True else n }"

definition open_legacy :: "'hw worm_api \<Rightarrow> ('db, 'hw, 'a, bool) hprog" where
  "open_legacy A = do {
     s \<leftarrow> State_Monad.get;
     let path = cfg_worm_path (g_config s);
     or_else (if path \<noteq> [] then open_store A path else ret False)
       (or_else (try_legacy_mount_paths A)
         (do { found \<leftarrow> ensure_block_open; if found then open_store_legacy_block A else ret False })) }"

definition open_device_store :: "'hw worm_api \<Rightarrow> ('db, 'hw, 'a, bool) hprog" where
  "open_device_store A = do {
     s \<leftarrow> State_Monad.get;
     let path = cfg_worm_path (g_config s);
     or_else (if path \<noteq> [] then open_store A path else ret False)
       (or_else (open_store A (blk_device (g_block s))) (open_store_with_block A)) }"

section \<open>What the TSE says of itself\<close>

text \<open>\<open>None\<close>: the bytes are missing, empty, or do not fit, and the buffer stays.\<close>

definition read_info_bytes :: "'hw worm_api \<Rightarrow> wcall \<Rightarrow> ('db, 'hw, 'a, u8 list option) prog" where
  "read_info_bytes A c = do {
     r \<leftarrow> hw_bytes A c;
     ret (case r of None \<Rightarrow> None | Some bs \<Rightarrow> if bs = [] then None else Some bs) }"

definition refresh_info_fields :: "'hw worm_api \<Rightarrow> ('db, 'hw, 'a, unit) prog" where
  "refresh_info_fields A = do {
     s \<leftarrow> State_Monad.get;
     if w_store s = 0 then ret () else with_info A () (\<lambda>info. do {
       serial \<leftarrow> (if (w_legacy s \<and> w_ptr s P_info_serial_out) \<or> w_ptr s P_info_serial
                  then read_info_bytes A (Info_serial info) else ret None);
       _ \<leftarrow> (case serial of None \<Rightarrow> ret () | Some bs \<Rightarrow>
              modify (\<lambda>s. s\<lparr>w_serial := (case util_bytes_to_hex bs 128 of None \<Rightarrow> w_serial s | Some t \<Rightarrow> t)\<rparr>));
       pk \<leftarrow> (if (w_legacy s \<and> w_ptr s P_info_pubkey_out) \<or> w_ptr s P_info_pubkey
              then read_info_bytes A (Info_pubkey info) else ret None);
       (case pk of None \<Rightarrow> ret () | Some bs \<Rightarrow>
          modify (\<lambda>s. s\<lparr>w_public_key_hex := (case util_bytes_to_hex bs 256 of None \<Rightarrow> w_public_key_hex s | Some t \<Rightarrow> t),
            w_public_key_b64 := (case util_base64_encode bs 256 of None \<Rightarrow> w_public_key_b64 s | Some t \<Rightarrow> t)\<rparr>)) }) }"

text \<open>The certificate in two calls: its size, then its bytes; \<open>mem\<close> says whether \<^verbatim>\<open>malloc\<close> succeeds.\<close>

definition refresh_certificate :: "'hw worm_api \<Rightarrow> bool \<Rightarrow> ('db, 'hw, 'a, unit) prog" where
  "refresh_certificate A mem = do {
     s \<leftarrow> State_Monad.get;
     if w_store s = 0 \<or> \<not> w_ptr s P_get_certificate then ret () else do {
       (rc, len) \<leftarrow> hw_open A (Get_certificate_size (w_store s));
       if rc \<noteq> WORM_ERROR_NOERROR \<or> len = 0 \<or> 8192 < len \<or> \<not> mem then ret () else do {
         r \<leftarrow> hw_bytes A (Get_certificate (w_store s) (nat len));
         (case r of
            None \<Rightarrow> ret ()
          | Some bs \<Rightarrow> if bs = [] then ret () else
              modify (\<lambda>s. s\<lparr>w_certificate := (case util_base64_encode bs 6144 of None \<Rightarrow> w_certificate s | Some t \<Rightarrow> t)\<rparr>)) } } }"

section \<open>Provisioning\<close>

text \<open>The weak generator: a linear congruence on 32 bits.\<close>

fun lcg_bytes :: "nat \<Rightarrow> u32 \<Rightarrow> u8 list" where
  "lcg_bytes 0 seed = []"
| "lcg_bytes (Suc n) seed = (let seed' = seed * 1103515245 + 12345 in ucast (drop_bit 16 seed') # lcg_bytes n seed')"

definition generate_random_digits :: "nat \<Rightarrow> nat \<Rightarrow> ('db, 'hw, 'a, string) sprog" where
  "generate_random_digits outlen count = do {
     let count1 = (if outlen \<le> count then outlen - 1 else count);
     let count' = (if 16 < count1 then 16 else count1);
     s \<leftarrow> State_Monad.get;
     r \<leftarrow> util_random_bytes count';
     bytes \<leftarrow> (case r of
        Some bs \<Rightarrow> ret bs
      | None \<Rightarrow> do { now \<leftarrow> time_now; ret (lcg_bytes count' (word_of_int now XOR lb_addr s)) });
     ret (map (\<lambda>b. digit_char (unat b mod 10)) bytes) }"

definition load_or_generate_credential ::
  "'db engine \<Rightarrow> string \<Rightarrow> string \<Rightarrow> nat \<Rightarrow> nat \<Rightarrow> ('db, 'hw, 'a, string) sprog" where
  "load_or_generate_credential E db_key configured outlen digits =
     (if configured \<noteq> [] then ret (fit outlen configured)
      else do {
        stored \<leftarrow> db_get_setting E db_key 32;
        (case stored of
           Some (c # cs) \<Rightarrow> ret (fit outlen (c # cs))
         | _ \<Rightarrow> do {
             out \<leftarrow> generate_random_digits outlen digits;
             _ \<leftarrow> db_set_setting E db_key out;
             ret out }) })"

text \<open>The state of the initialization; \<open>None\<close> when it cannot be read.\<close>

definition tse_init_state :: "'hw worm_api \<Rightarrow> ('db, 'hw, 'a, u64 option) prog" where
  "tse_init_state A = do {
     s \<leftarrow> State_Monad.get;
     if \<not> w_ptr s P_init_state \<or> \<not> w_ptr s P_tse_setup then ret None
     else with_info A None (\<lambda>info. do { v \<leftarrow> hw_u64 A (Info_u64 P_init_state info); ret (Some v) }) }"

definition bootstrap_client :: string where "bootstrap_client = ''cloudtse-bootstrap''"

definition run_setup :: "'hw worm_api \<Rightarrow> string \<Rightarrow> string \<Rightarrow> string \<Rightarrow> string \<Rightarrow> ('db, 'hw, 'a, unit) prog" where
  "run_setup A seed puk pin time_pin = do {
     s \<leftarrow> State_Monad.get;
     let self_test = (if w_ptr s P_run_self_test
                      then hw_rc A (Run_self_test (w_store s) bootstrap_client) else ret 0);
     _ \<leftarrow> self_test;
     rc \<leftarrow> hw_rc A (Tse_setup (w_store s) seed puk pin time_pin bootstrap_client);
     if rc \<noteq> WORM_ERROR_NOERROR then ret () else do {
       _ \<leftarrow> modify (\<lambda>s. s\<lparr>g_config := (g_config s)\<lparr>cfg_worm_admin_pin := fit 128 pin,
              cfg_worm_admin_puk := fit 128 puk, cfg_worm_time_admin_pin := fit 128 time_pin\<rparr>\<rparr>);
       _ \<leftarrow> worm_client_mark_registered bootstrap_client;
       _ \<leftarrow> self_test;
       ret () } }"

definition ensure_tse_provisioned :: "'hw worm_api \<Rightarrow> 'db engine \<Rightarrow> ('db, 'hw, 'a, unit) sprog" where
  "ensure_tse_provisioned A E = do {
     state \<leftarrow> tse_init_state A;
     if state \<noteq> Some 0 then ret () else do {
       s \<leftarrow> State_Monad.get;
       pin \<leftarrow> load_or_generate_credential E ''worm_admin_pin'' (cfg_worm_admin_pin (g_config s)) 16 5;
       puk \<leftarrow> load_or_generate_credential E ''worm_admin_puk'' (cfg_worm_admin_puk (g_config s)) 16 6;
       time_pin \<leftarrow> load_or_generate_credential E ''worm_time_admin_pin'' (cfg_worm_time_admin_pin (g_config s)) 16 5;
       let seed = (if cfg_worm_credential_seed (g_config s) \<noteq> [] then cfg_worm_credential_seed (g_config s)
                   else ''SwissbitSwissbit'');
       run_setup A seed puk pin time_pin } }"

section \<open>Start-up and shutdown\<close>

text \<open>After the store is open: read the device, provision it, test it, set its clock.\<close>

definition adopt_serial :: "config \<Rightarrow> string \<Rightarrow> config \<times> string" where
  "adopt_serial cfg serial =
     (if cfg_tse_mode cfg = TSE_MODE_SIM \<and> cfg_tse_public_key_b64 cfg \<noteq> [] then (cfg, fit 128 (cfg_tse_serial cfg))
      else if serial \<noteq> [] then (cfg\<lparr>cfg_tse_serial := fit 128 serial\<rparr>, serial)
      else (cfg, serial))"

definition prepare_device :: "'hw worm_api \<Rightarrow> 'db engine \<Rightarrow> bool \<Rightarrow> ('db, 'hw, 'a, unit) sprog" where
  "prepare_device A E mem = do {
     _ \<leftarrow> refresh_info_fields A;
     _ \<leftarrow> refresh_certificate A mem;
     _ \<leftarrow> ensure_tse_provisioned A E;
     _ \<leftarrow> ensure_self_test_passed A E False;
     valid \<leftarrow> worm_has_valid_time A;
     _ \<leftarrow> (if \<not> valid then do { _ \<leftarrow> perform_time_sync A E; ret () } else ret ());
     log_worm_diagnostics A }"

definition activate :: "('db, 'hw, 'a, unit) sprog" where
  "activate = modify (\<lambda>s. case adopt_serial (g_config s) (w_serial s) of (cfg, serial) \<Rightarrow>
     s\<lparr>g_config := cfg, w_serial := serial, w_active := True, g_sync_thread := g_sync_thread s \<or> lb_thread s\<rparr>)"

definition unload :: "bool \<Rightarrow> ('db, 'hw, 'a, bool) sprog" where
  "unload close_block = do {
     s \<leftarrow> State_Monad.get;
     _ \<leftarrow> modify (\<lambda>s. s\<lparr>g_lib := False\<rparr>);
     _ \<leftarrow> (if close_block then do {
             blk \<leftarrow> tse_block_close (g_block s);
             modify (\<lambda>s. s\<lparr>g_block := blk\<rparr>) }
           else ret ());
     ret False }"

text \<open>True is the 0.\<close>

definition tse_worm_init :: "'hw worm_api \<Rightarrow> 'db engine \<Rightarrow> bool \<Rightarrow> ('db, 'hw, 'a, bool) sprog" where
  "tse_worm_init A E mem = do {
     _ \<leftarrow> modify (\<lambda>s. s\<lparr>g_block := blank_block\<rparr>);
     s \<leftarrow> State_Monad.get;
     (case lb_symbols s (cfg_worm_lib (g_config s)) of
        None \<Rightarrow> do { _ \<leftarrow> modify (\<lambda>s. s\<lparr>g_lib := False\<rparr>); ret False }
      | Some syms \<Rightarrow> do {
          _ \<leftarrow> modify (\<lambda>s. s\<lparr>g_lib := True\<rparr>);
          loaded \<leftarrow> load_symbols syms;
          if \<not> loaded then unload True
          else do {
            s1 \<leftarrow> State_Monad.get;
            found \<leftarrow> (if w_legacy s1 then ret True else ensure_block_open);
            if \<not> found then unload False
            else do {
              opened \<leftarrow> (if w_legacy s1 then open_legacy A else open_device_store A);
              if \<not> opened then unload True
              else do {
                _ \<leftarrow> prepare_device A E mem;
                _ \<leftarrow> activate;
                ret True } } } }) }"

definition tse_worm_shutdown :: "'hw worm_api \<Rightarrow> ('db, 'hw, 'a, unit) sprog" where
  "tse_worm_shutdown A = do {
     _ \<leftarrow> mu_lock;
     s \<leftarrow> State_Monad.get;
     _ \<leftarrow> (if w_store s = 0 then ret ()
           else do {
             _ \<leftarrow> (if w_legacy s \<and> w_ptr s P_cleanup then hw_void A (Worm_cleanup (w_store s))
                   else if w_ptr s P_store_free then hw_void A (Store_free (w_store s)) else ret ());
             modify (\<lambda>s. s\<lparr>w_store := 0\<rparr>) });
     _ \<leftarrow> unload True;
     _ \<leftarrow> modify (\<lambda>s. s\<lparr>w_active := False\<rparr>);
     mu_unlock }"

section \<open>The background thread\<close>

definition localtime :: "('db, 'hw, 'a) server_scheme \<Rightarrow> int \<Rightarrow> tm" where
  "localtime s t = gmtime (t + os_utc_offset s t)"

definition past_slot :: "config \<Rightarrow> tm \<Rightarrow> bool" where
  "past_slot cfg tm \<longleftrightarrow> cfg_self_test_at_hour cfg < tm_hour tm
     \<or> tm_hour tm = cfg_self_test_at_hour cfg \<and> cfg_self_test_at_minute cfg \<le> tm_min tm"

text \<open>\<^verbatim>\<open>YYYYMMDD\<close>.\<close>

definition day_stamp :: "tm \<Rightarrow> int" where
  "day_stamp tm = (tm_year tm + 1900) * 10000 + (tm_mon tm + 1) * 100 + tm_mday tm"

text \<open>The day whose run counts as done when the thread starts.\<close>

definition initial_day :: "('db, 'hw, 'a, int) prog" where
  "initial_day = do {
     s \<leftarrow> State_Monad.get;
     if cfg_self_test_at_hour (g_config s) < 0 then ret 0
     else do {
       t0 \<leftarrow> time_now;
       let tm0 = localtime s t0;
       ret (if past_slot (g_config s) tm0 then day_stamp tm0 else 0) } }"

record clock_check =
  ck_valid :: bool
  ck_self_test_ok :: bool
  ck_max_delay :: u64
  ck_until_self_test :: "u64 option"

definition check_clock :: "'hw worm_api \<Rightarrow> ('db, 'hw, 'a, clock_check) prog" where
  "check_clock A = with_info A \<lparr>ck_valid = True, ck_self_test_ok = True, ck_max_delay = 0, ck_until_self_test = None\<rparr>
     (\<lambda>info. do {
        valid \<leftarrow> info_get A P_has_valid_time info;
        passed \<leftarrow> info_get A P_has_passed_self_test info;
        delay \<leftarrow> info_get A P_max_time_sync_delay info;
        until \<leftarrow> info_get A P_time_until_next_self_test info;
        ret \<lparr>ck_valid = (case valid of None \<Rightarrow> True | Some v \<Rightarrow> v \<noteq> 0),
             ck_self_test_ok = (case passed of None \<Rightarrow> True | Some v \<Rightarrow> v \<noteq> 0),
             ck_max_delay = (case delay of None \<Rightarrow> 0 | Some v \<Rightarrow> v), ck_until_self_test = until\<rparr> })"

definition scheduled_now :: "config \<Rightarrow> tm \<Rightarrow> int \<Rightarrow> bool" where
  "scheduled_now cfg tm last_day \<longleftrightarrow> 0 \<le> cfg_self_test_at_hour cfg \<and> past_slot cfg tm \<and> last_day \<noteq> day_stamp tm"

definition self_test_due :: "clock_check \<Rightarrow> bool \<Rightarrow> bool" where
  "self_test_due ck scheduled \<longleftrightarrow> \<not> ck_self_test_ok ck \<or> scheduled
     \<or> (case ck_until_self_test ck of None \<Rightarrow> False | Some v \<Rightarrow> v \<le> 3600)"

text \<open>The difference of the times is compared as an unsigned number.\<close>

definition sync_due :: "clock_check \<Rightarrow> int \<Rightarrow> int \<Rightarrow> bool" where
  "sync_due ck last_sync now \<longleftrightarrow> \<not> ck_valid ck \<or> last_sync = 0
     \<or> (0 < ck_max_delay ck \<and> max 10 (ck_max_delay ck div 2) \<le> word_of_int (now - last_sync))"

text \<open>One round of the thread, after its sleep: \<open>None\<close> when it ends, or the day last done.\<close>

definition sync_tick :: "'hw worm_api \<Rightarrow> 'db engine \<Rightarrow> int \<Rightarrow> ('db, 'hw, 'a, int option) prog" where
  "sync_tick A E last_day = do {
     _ \<leftarrow> mu_lock;
     s \<leftarrow> State_Monad.get;
     if \<not> w_active s then do { _ \<leftarrow> mu_unlock; ret None }
     else do {
       ck \<leftarrow> check_clock A;
       now \<leftarrow> time_now;
       let scheduled = scheduled_now (g_config s) (localtime s now) last_day;
       _ \<leftarrow> (if self_test_due ck scheduled then do {
               _ \<leftarrow> ensure_self_test_passed A E True;
               (if scheduled then do { _ \<leftarrow> perform_time_sync A E; ret () } else ret ()) }
             else ret ());
       s1 \<leftarrow> State_Monad.get;
       _ \<leftarrow> (if sync_due ck (w_last_time_sync s1) now \<and> \<not> scheduled
             then do { _ \<leftarrow> perform_time_sync A E; ret () } else ret ());
       _ \<leftarrow> mu_unlock;
       s2 \<leftarrow> State_Monad.get;
       ret (if w_active s2 then Some (if scheduled then day_stamp (localtime s now) else last_day) else None) } }"

text \<open>The rounds, as many as there is fuel for; \<open>True\<close> when the thread has ended.\<close>

fun sync_rounds :: "'hw worm_api \<Rightarrow> 'db engine \<Rightarrow> nat \<Rightarrow> int \<Rightarrow> ('db, 'hw, 'a, bool) prog" where
  "sync_rounds A E 0 last_day = ret False"
| "sync_rounds A E (Suc n) last_day = do {
     r \<leftarrow> sync_tick A E last_day;
     (case r of None \<Rightarrow> ret True | Some d \<Rightarrow> sync_rounds A E n d) }"

section \<open>The store\<close>

definition store_init :: "'hw worm_api \<Rightarrow> 'db engine \<Rightarrow> bool \<Rightarrow> ('db, 'hw, 'a, unit) sprog" where
  "store_init A E mem = do {
     s0 \<leftarrow> State_Monad.get;
     _ \<leftarrow> (if cfg_tse_mode (g_config s0) = TSE_MODE_HARDWARE then do { _ \<leftarrow> tse_worm_init A E mem; ret () } else ret ());
     s \<leftarrow> State_Monad.get;
     _ \<leftarrow> db_set_setting E ''tse_serial'' (store_normalize_serial (Some (cfg_tse_serial (g_config s))) 128);
     created \<leftarrow> db_get_setting E ''created_at'' 64;
     (case created of
        Some t \<Rightarrow> modify (\<lambda>s. s\<lparr>g_created_at := t\<rparr>)
      | None \<Rightarrow> do { now \<leftarrow> util_now_iso; modify (\<lambda>s. s\<lparr>g_created_at := now\<rparr>) }) }"

definition store_shutdown :: "'hw worm_api \<Rightarrow> ('db, 'hw, 'a, unit) sprog" where
  "store_shutdown A = do {
     s \<leftarrow> State_Monad.get;
     if w_active s then tse_worm_shutdown A else ret () }"

end
