(* ===== verification/Tse_Block_Props.thy ===== *)
theory Tse_Block_Props
  imports Tse_Block Tse_Worm_Safety
begin

text \<open>
  What the block device guarantees: what was written is read back, a write stays inside its sectors,
  the offset table is read as it was encoded, and the search opens removable devices only.
\<close>

section \<open>Bytes on a device\<close>

lemma length_poke [simp]: "off + length bs \<le> length disk \<Longrightarrow> length (poke disk off bs) = length disk"
  by (simp add: poke_def)

lemma poke_Nil [simp]: "poke disk off [] = disk"
  by (simp add: poke_def)

lemma nth_poke:
  assumes "off + length bs \<le> length disk" "k < length disk"
  shows "poke disk off bs ! k = (if k < off then disk ! k else if k < off + length bs then bs ! (k - off) else disk ! k)"
  using assms by (auto simp: poke_def nth_append min_def)

lemma read_poke: "off + length bs \<le> length disk \<Longrightarrow> take (length bs) (drop off (poke disk off bs)) = bs"
  by (simp add: poke_def)

lemma poke_poke:
  assumes "off + length a + length b \<le> length disk"
  shows "poke (poke disk off a) (off + length a) b = poke disk off (a @ b)"
  by (rule nth_equalityI) (use assms in \<open>auto simp: nth_poke nth_append\<close>)

section \<open>The transfer loops\<close>

lemma take_after_take:
  assumes "m \<le> n"
  shows "take m xs @ take (n - length (take m xs)) (drop (length (take m xs)) xs) = take n xs"
proof (cases "m \<le> length xs")
  case True
  then show ?thesis using assms by (simp add: take_add [symmetric])
qed (use assms in simp)

lemma pread_loop_reads:
  "pread_loop disk ts len off acc = (Some r, ts') \<Longrightarrow> r = acc @ take len (drop off disk)"
proof (induction disk ts len off acc rule: pread_loop.induct)
  case (3 disk k ts v off acc)
  let ?bs = "take (min k (Suc v)) (drop off disk)"
  have "r = (acc @ ?bs) @ take (Suc v - length ?bs) (drop (off + length ?bs) disk)"
    using "3.IH" [OF refl] "3.prems" by (auto simp: Let_def split: if_splits)
  then show ?case
    using take_after_take [of "min k (Suc v)" "Suc v" "drop off disk"] by (simp add: add.commute)
qed (auto simp: Let_def split: if_splits)

lemma pwrite_loop_writes:
  "pwrite_loop disk ts data off = (ok, disk', ts') \<Longrightarrow>
     \<exists>n \<le> length data. (n = 0 \<or> off + n \<le> length disk) \<and> disk' = poke disk off (take n data) \<and> (ok \<longrightarrow> n = length data)"
proof (induction disk ts data off rule: pwrite_loop.induct)
  case (1 disk ts off)
  then show ?case by auto
next
  case (2 disk v va off)
  then show ?case by (intro exI [of _ "min (length (v # va)) (length disk - off)"]) (auto simp: Let_def)
next
  case (3 disk k ts v va off)
  let ?d = "v # va"
  define n where "n = min (min k (length ?d)) (length disk - off)"
  show ?case
  proof (cases "n = 0")
    case True
    then show ?thesis using "3.prems" unfolding n_def by (intro exI [of _ 0]) (auto simp: Let_def)
  next
    case False
    then have "pwrite_loop (poke disk off (take n ?d)) ts (drop n ?d) (off + n) = (ok, disk', ts')"
      using "3.prems" False by (simp only: pwrite_loop.simps Let_def n_def [symmetric] if_False)
    then obtain m where m: "m \<le> length (drop n ?d)" "m = 0 \<or> off + n + m \<le> length (poke disk off (take n ?d))"
      "disk' = poke (poke disk off (take n ?d)) (off + n) (take m (drop n ?d))" "ok \<longrightarrow> m = length (drop n ?d)"
      using "3.IH" [OF n_def] False by blast
    have n: "n \<le> length ?d" "off + n \<le> length disk" using False by (auto simp: n_def)
    then have fit: "off + n + m \<le> length disk" using m(2) by auto
    then have "disk' = poke disk off (take n ?d @ take m (drop n ?d))"
      using poke_poke [of off "take n ?d" "take m (drop n ?d)" disk] n m(1,3) by simp
    also have "take n ?d @ take m (drop n ?d) = take (n + m) ?d" by (simp only: take_add)
    finally show ?thesis using m n fit by (intro exI [of _ "n + m"]) auto
  qed
next
  case (4 disk ts v va off)
  then show ?case by simp
next
  case (5 disk ts v va off)
  then show ?case by (intro exI [of _ 0]) simp
qed

section \<open>Sectors\<close>

text \<open>Transfers that move something or are interrupted.\<close>

definition progress :: "transfer list \<Rightarrow> bool" where
  "progress ts \<longleftrightarrow> Move_failed \<notin> set ts \<and> Moves 0 \<notin> set ts"

lemma progress_simps [simp]:
  "progress []" "progress (Move_interrupted # ts) = progress ts" "\<not> progress (Move_failed # ts)"
  "progress (Moves k # ts) = (0 < k \<and> progress ts)"
  by (auto simp: progress_def)

lemma pread_loop_ends:
  "progress ts \<Longrightarrow> off + len \<le> length disk \<Longrightarrow> \<exists>ts'. pread_loop disk ts len off acc = (Some (acc @ take len (drop off disk)), ts')"
proof (induction disk ts len off acc rule: pread_loop.induct)
  case (3 disk k ts v off acc)
  let ?bs = "take (min k (Suc v)) (drop off disk)"
  have ne: "?bs \<noteq> []" and len: "length ?bs = min k (Suc v)" using 3(2,3) by auto
  have off: "off + length ?bs + (Suc v - length ?bs) \<le> length disk" using 3(3) len by simp
  have prog: "progress ts" using 3(2) by simp
  obtain ts' where "pread_loop disk ts (Suc v - length ?bs) (off + length ?bs) (acc @ ?bs)
      = (Some ((acc @ ?bs) @ take (Suc v - length ?bs) (drop (off + length ?bs) disk)), ts')"
    using "3.IH" [OF refl ne prog off] by blast
  then show ?case
    using ne take_after_take [of "min k (Suc v)" "Suc v" "drop off disk"]
    by (simp add: Let_def add.commute)
qed (auto simp: Let_def)

lemma pwrite_loop_ends:
  "progress ts \<Longrightarrow> off + length data \<le> length disk \<Longrightarrow> \<exists>disk' ts'. pwrite_loop disk ts data off = (True, disk', ts')"
proof (induction disk ts data off rule: pwrite_loop.induct)
  case (3 disk k ts v va off)
  let ?d = "v # va"
  define n where "n = min (min k (length ?d)) (length disk - off)"
  have n: "n \<noteq> 0" "n \<le> length ?d" "off + n \<le> length disk" using "3.prems" by (auto simp: n_def)
  have room: "off + n + length (drop n ?d) \<le> length (poke disk off (take n ?d))"
    using n "3.prems"(2) by simp
  have "pwrite_loop disk (Moves k # ts) ?d off = pwrite_loop (poke disk off (take n ?d)) ts (drop n ?d) (off + n)"
    using n(1) by (simp only: pwrite_loop.simps Let_def n_def [symmetric] if_False)
  then show ?case using "3.IH" [OF n_def n(1) _ room] "3.prems"(1) by simp
qed (auto simp: Let_def)

lemma file_of_writes:
  "file_of s fd = Some (path, disk) \<Longrightarrow>
     file_of (s\<lparr>dv_transfers := ts, dv_disks := (dv_disks s)(path := Some disk')\<rparr>) fd = Some (path, disk')"
  by (auto simp: file_of_def split: option.splits)

lemma read_lba_run:
  assumes "run_state (tse_block_read_lba blk lba len) s = (Some bs, t)"
  shows "\<exists>path disk. file_of s (blk_fd blk) = Some (path, disk) \<and> 0 \<le> lba_offset lba
    \<and> bs = take len (drop (nat (lba_offset lba)) disk)"
  using assms pread_loop_reads
  by (fastforce simp: tse_block_read_lba_def read_exact_def split: if_splits option.splits prod.splits)

lemma write_lba_run:
  assumes "run_state (tse_block_write_lba blk lba data) s = (ok, t)"
  shows "(\<not> ok \<and> t = s) \<or> (\<exists>path disk disk' ts. file_of s (blk_fd blk) = Some (path, disk) \<and> 0 \<le> lba_offset lba
    \<and> pwrite_loop disk (dv_transfers s) data (nat (lba_offset lba)) = (ok, disk', ts)
    \<and> t = s\<lparr>dv_transfers := ts, dv_disks := (dv_disks s)(path := Some disk')\<rparr>)"
  using assms by (auto simp: tse_block_write_lba_def write_exact_def split: if_splits option.splits prod.splits)

lemma sint_small:
  fixes w :: u64
  assumes "unat w < 2 ^ 63"
  shows "sint w = int (unat w)"
proof -
  have "int (unat w) < int (2 ^ 63)" using assms by (simp only: of_nat_less_iff)
  then have "signed_take_bit 63 (int (unat w)) = int (unat w)"
    by (intro signed_take_bit_int_eq_self) (rule order_trans [of _ 0], simp_all only: of_nat_0_le_iff, simp_all)
  then show ?thesis by (simp add: sint_uint)
qed

text \<open>The byte at which a sector begins, when the 64-bit product does not wrap.\<close>

lemma lba_offset_unat:
  assumes "unat lba < 2 ^ 54"
  shows "lba_offset lba = int (512 * unat lba)"
proof -
  have n: "unat (lba * of_nat TSE_BLOCK_SIZE) = 512 * unat lba"
    using assms by (simp add: TSE_BLOCK_SIZE_def unat_mult_lem [THEN iffD1])
  moreover have "512 * unat lba < 2 ^ 63" using assms by simp
  ultimately show ?thesis using sint_small [of "lba * of_nat TSE_BLOCK_SIZE"] unfolding lba_offset_def n by metis
qed

text \<open>Any write, whatever fails, changes only bytes of its own sectors.\<close>

definition keeps_outside :: "string \<Rightarrow> nat \<Rightarrow> nat \<Rightarrow> ('db, 'hw, 'a) host_scheme \<Rightarrow> ('db, 'hw, 'a) host_scheme \<Rightarrow> bool" where
  "keeps_outside path start len s t \<longleftrightarrow> (\<forall>p disk. dv_disks s p = Some disk \<longrightarrow>
     (\<exists>disk'. dv_disks t p = Some disk' \<and> length disk' = length disk
        \<and> (\<forall>k < length disk. p \<noteq> path \<or> k < start \<or> start + len \<le> k \<longrightarrow> disk' ! k = disk ! k)))"

lemma write_lba_confined:
  assumes "map_of (dv_files s) (blk_fd blk) = Some path" "unat lba < 2 ^ 54"
  shows "keeps_outside path (512 * unat lba) (length data) s (poststate (tse_block_write_lba blk lba data) s)"
proof -
  obtain ok t where run: "run_state (tse_block_write_lba blk lba data) s = (ok, t)" by fastforce
  show ?thesis
    using write_lba_run [OF run]
  proof (elim disjE exE conjE)
    assume "t = s"
    then show ?thesis by (simp add: run keeps_outside_def)
  next
    fix q disk disk' ts
    assume f: "file_of s (blk_fd blk) = Some (q, disk)"
      and w: "pwrite_loop disk (dv_transfers s) data (nat (lba_offset lba)) = (ok, disk', ts)"
      and t: "t = s\<lparr>dv_transfers := ts, dv_disks := (dv_disks s)(q := Some disk')\<rparr>"
    have q: "q = path" "dv_disks s path = Some disk" using f assms(1) by (auto simp: file_of_def)
    obtain n where n: "n \<le> length data" "n = 0 \<or> 512 * unat lba + n \<le> length disk"
      "disk' = poke disk (512 * unat lba) (take n data)"
      using pwrite_loop_writes [OF w [unfolded lba_offset_unat [OF assms(2)] nat_int]] by blast
    show ?thesis
      using n q by (cases "n = 0") (auto simp: run t keeps_outside_def nth_poke)
  qed
qed

section \<open>The offset table\<close>

definition be_bytes :: "u32 \<Rightarrow> u8 list" where
  "be_bytes w = [ucast (drop_bit 24 w), ucast (drop_bit 16 w), ucast (drop_bit 8 w), ucast w]"

lemma be32_bytes:
  assumes "take 4 (drop i sector) = be_bytes w"
  shows "be32 sector i = w"
proof -
  have len: "i + 4 \<le> length sector"
    using arg_cong [OF assms, of length] by (simp add: be_bytes_def)
  have "sector ! (i + j) = be_bytes w ! j" if "j < 4" for j
    using that len by (simp flip: assms)
  from this [of 0] this [of 1] this [of 2] this [of 3]
  have "be32 sector i = ((push_bit 24 (ucast (ucast (drop_bit 24 w) :: u8)) OR push_bit 16 (ucast (ucast (drop_bit 16 w) :: u8)))
      OR push_bit 8 (ucast (ucast (drop_bit 8 w) :: u8))) OR ucast (ucast w :: u8)"
    by (simp add: be32_def be_bytes_def numeral_2_eq_2 numeral_3_eq_3)
  also have "\<dots> = w"
  proof (rule bit_word_eqI)
    fix n assume "n < LENGTH(32)"
    then consider "n < 8" | "8 \<le> n" "n < 16" | "16 \<le> n" "n < 24" | "24 \<le> n" "n < 32" by fastforce
    then show "bit ((((push_bit 24 (ucast (ucast (drop_bit 24 w) :: u8)) OR push_bit 16 (ucast (ucast (drop_bit 16 w) :: u8)))
      OR push_bit 8 (ucast (ucast (drop_bit 8 w) :: u8))) OR ucast (ucast w :: u8)) :: u32) n = bit w n"
      by cases (auto simp: bit_simps)
  qed
  finally show ?thesis .
qed

section \<open>Opening\<close>

text \<open>Only paths of \<open>D\<close> are given to \<^verbatim>\<open>open\<close>.\<close>

definition opens_only :: "string set \<Rightarrow> ('db, 'hw, 'a) host_scheme \<Rightarrow> ('db, 'hw, 'a) host_scheme \<Rightarrow> bool" where
  "opens_only D s t \<longleftrightarrow> (\<exists>ext. dv_opened t = dv_opened s @ ext \<and> set ext \<subseteq> D)"

lemma opens_only_preorder [simp]: "reflp (opens_only D)" "transp (opens_only D)"
  by (auto simp: reflp_def transp_def opens_only_def)

lemma opens_same: "(\<And>s. dv_opened (f s) = dv_opened s) \<Longrightarrow> state_io_rel (opens_only D) (modify f)"
  by (rule io_modify) (simp add: opens_only_def)

lemma opens_read [frame]: "state_io_rel (opens_only D) (tse_block_read_lba blk lba n)"
  by (auto simp: state_io_rel_def opens_only_def tse_block_read_lba_def read_exact_def split: option.split prod.split)

lemma opens_open_device: "d \<in> D \<Longrightarrow> state_io_rel (opens_only D) (open_device d)"
  by (auto simp: state_io_rel_def opens_only_def open_device_def Let_def split: option.split)

lemma opens_close [frame]: "state_io_rel (opens_only D) (tse_block_close blk)"
  unfolding tse_block_close_def close_device_def by (intro frame opens_same) simp_all

lemma opens_block [frame]: "d \<in> D \<Longrightarrow> state_io_rel (opens_only D) (tse_block_open d)"
  unfolding tse_block_open_def tse_block_load_offsets_def Let_def by (intro frame opens_open_device) simp_all

lemma opens_info [frame]: "state_io_rel (opens_only D) (tse_block_read_info blk)"
  unfolding tse_block_read_info_def by (intro frame) simp_all

lemma opens_probe [frame]: "d \<in> D \<Longrightarrow> state_io_rel (opens_only D) (tse_block_probe d)"
  unfolding tse_block_probe_def by (intro frame) simp_all

lemma opens_probe_open [frame]: "d \<in> D \<Longrightarrow> state_io_rel (opens_only D) (probe_open d)"
  unfolding probe_open_def by (intro frame opens_same) simp_all

lemma opens_candidates:
  fixes D :: "string set"
  shows "set devs \<subseteq> D \<Longrightarrow> {f. \<exists>dev \<in> set devs. fallback_for dev = Some f} \<subseteq> D \<Longrightarrow>
     state_io_rel (opens_only D :: ('db, 'hw, 'a) host_scheme \<Rightarrow> _) (try_candidates devs)"
proof (induction devs)
  case (Cons dev devs)
  then have "fallback_for dev = Some f \<Longrightarrow> f \<in> D" for f by auto
  then have fallback: "state_io_rel (opens_only D :: ('db, 'hw, 'a) host_scheme \<Rightarrow> _)
      (case fallback_for dev of None \<Rightarrow> ret False | Some f \<Rightarrow> probe_open f)"
    by (cases "fallback_for dev") (simp_all add: io_return opens_probe_open)
  have "{f. \<exists>dev \<in> set devs. fallback_for dev = Some f} \<subseteq> D" using Cons.prems(2) by (simp add: subset_iff)
  then show ?case unfolding try_candidates.simps using Cons.IH Cons.prems(1)
    by (intro frame fallback) simp_all
qed (simp add: io_return)

section \<open>Properties\<close>

text \<open>
  C34. In whatever pieces the system transfers the bytes, and however often it is interrupted, reading
  blocks of the device is reading that slice of it at once, and writing them is replacing the slice.
\<close>

theorem any_pieces:
  assumes "file_of s (blk_fd blk) = Some (path, disk)" and "0 \<le> blk_fd blk" and "progress (dv_transfers s)"
    and "0 < length data" "length data mod TSE_BLOCK_SIZE = 0"
    and "unat lba < 2 ^ 54" "512 * unat lba + length data \<le> length disk"
  shows "value_of (tse_block_read_lba blk lba (length data)) s = Some (take (length data) (drop (512 * unat lba) disk))
    \<and> value_of (tse_block_write_lba blk lba data) s
    \<and> dv_disks (poststate (tse_block_write_lba blk lba data) s) path = Some (poke disk (512 * unat lba) data)"
proof -
  obtain k where k: "512 * unat lba = k" by blast
  have off: "lba_offset lba = int k" using lba_offset_unat [OF assms(6)] k by simp
  note room = assms(7) [unfolded k]
  obtain ts1 where rd: "pread_loop disk (dv_transfers s) (length data) k [] = (Some ([] @ take (length data) (drop k disk)), ts1)"
    using pread_loop_ends [OF assms(3) room] by blast
  obtain disk' ts2 where wr: "pwrite_loop disk (dv_transfers s) data k = (True, disk', ts2)"
    using pwrite_loop_ends [OF assms(3) room] by blast
  from pwrite_loop_writes [OF wr] have disk': "disk' = poke disk k data" by auto
  show ?thesis
    unfolding k using assms(1,2,4,5) off rd wr disk'
    by (simp add: tse_block_read_lba_def tse_block_write_lba_def read_exact_def write_exact_def)
qed

text \<open>
  What was written is read back: after a write to the store region that reports success, a
  successful read of the same sectors gives the data, in whatever pieces the transfers are made.
\<close>

theorem store_round_trip:
  assumes "run_state (tse_block_write_store blk offset data) s = (True, t)"
    and "run_state (tse_block_read_store blk offset (length data)) t = (Some bs, u)"
  shows "bs = data"
proof (cases "data = []")
  case True
  then show ?thesis using assms(2) by (simp add: tse_block_read_store_def split: if_splits)
next
  case False
  have valid: "offsets_valid blk" using assms(1) by (auto simp: tse_block_write_store_def split: if_splits)
  let ?lba = "ucast (lba_store blk) + offset"
  have "run_state (tse_block_write_lba blk ?lba data) s = (True, t)"
    using assms(1) False valid by (simp add: tse_block_write_store_def)
  then obtain path disk disk' ts where w: "file_of s (blk_fd blk) = Some (path, disk)"
    "pwrite_loop disk (dv_transfers s) data (nat (lba_offset ?lba)) = (True, disk', ts)"
    "t = s\<lparr>dv_transfers := ts, dv_disks := (dv_disks s)(path := Some disk')\<rparr>"
    using write_lba_run by blast
  have "run_state (tse_block_read_lba blk ?lba (length data)) t = (Some bs, u)"
    using assms(2) False valid by (simp add: tse_block_read_store_def)
  then have "bs = take (length data) (drop (nat (lba_offset ?lba)) disk')"
    using read_lba_run file_of_writes [OF w(1)] w(3) by fastforce
  then show ?thesis using pwrite_loop_writes [OF w(2)] False read_poke by auto
qed

text \<open>
  C33. A write stays inside its region: a write to the store, even one that fails half-way, changes no
  other device and no byte before or behind its sectors, as long as the sector number does not wrap;
  the offset table and the other regions before the store are untouched.
\<close>

theorem store_write_confined:
  assumes "map_of (dv_files s) (blk_fd blk) = Some path" "unat (lba_store blk) + unat offset < 2 ^ 54"
  shows "keeps_outside path (512 * (unat (lba_store blk) + unat offset)) (length data) s
    (poststate (tse_block_write_store blk offset data) s)"
proof -
  have "unat (lba_store blk) < 2 ^ 54" using assms(2) by simp
  then have "unat (ucast (lba_store blk) + offset) = unat (lba_store blk) + unat offset"
    using assms(2) by (subst unat_add_lem [THEN iffD1]) (simp_all add: unsigned_ucast_eq take_bit_nat_eq_self)
  then show ?thesis
    using write_lba_confined [OF assms(1), of "ucast (lba_store blk) + offset" data] assms(2)
    by (auto simp: tse_block_write_store_def keeps_outside_def)
qed

text \<open>
  The offset table is read as it was written: when opening a device whose sector 8 begins with
  three big-endian numbers succeeds, these are the starts of the regions and none is 0; when it fails
  the block cannot be used.
\<close>

theorem offset_table_read:
  assumes "dv_disks s device = Some disk" "take 12 (drop 4096 disk) = be_bytes i @ be_bytes c @ be_bytes st"
    and "run_state (tse_block_open device) s = ((ok, blk), t)"
  shows "(ok \<longrightarrow> lba_info blk = i \<and> lba_comm blk = c \<and> lba_store blk = st \<and> i \<noteq> 0 \<and> c \<noteq> 0 \<and> st \<noteq> 0)
    \<and> offsets_valid blk = ok"
proof -
  let ?fd = "Max (insert 2 (fst ` set (dv_files s))) + 1"
  let ?s = "s\<lparr>dv_opened := dv_opened s @ [device], dv_files := (?fd, device) # dv_files s\<rparr>"
  let ?blk = "blank_block\<lparr>blk_device := util_strlcpy (Some device) 256, blk_fd := ?fd\<rparr>"
  have fd: "0 \<le> ?fd" by (rule order_trans [of _ "2 + 1"]) simp_all
  then have load: "run_state (tse_block_load_offsets ?blk) ?s = ((ok, blk), t)"
    using assms(1,3) by (simp add: tse_block_open_def open_device_def Let_def not_less)
  show ?thesis
  proof (cases "value_of (tse_block_read_lba ?blk TSE_OFFSET_TABLE_LBA TSE_BLOCK_SIZE) ?s")
    case None
    then show ?thesis using load by (auto simp: tse_block_load_offsets_def split_beta)
  next
    case (Some sector)
    have "lba_offset TSE_OFFSET_TABLE_LBA = 4096"
      using lba_offset_unat [of TSE_OFFSET_TABLE_LBA] by (simp add: TSE_OFFSET_TABLE_LBA_def)
    moreover have "file_of ?s ?fd = Some (device, disk)" using assms(1) by (simp add: file_of_def)
    moreover obtain u where "run_state (tse_block_read_lba ?blk TSE_OFFSET_TABLE_LBA TSE_BLOCK_SIZE) ?s = (Some sector, u)"
      by (metis Some prod.collapse)
    ultimately have sector: "sector = take 512 (drop 4096 disk)"
      by (auto simp: TSE_BLOCK_SIZE_def dest!: read_lba_run)
    have "take 4 (drop k sector) = take 4 (drop k (take 12 (drop 4096 disk)))" if "k \<le> 8" for k
      unfolding sector using that by (simp add: drop_take min_def)
    from this [of 0] this [of 4] this [of 8]
    have "be32 sector 0 = i" "be32 sector 4 = c" "be32 sector 8 = st"
      by (auto intro!: be32_bytes simp: assms(2) be_bytes_def)
    then show ?thesis
      using load Some by (auto simp: tse_block_load_offsets_def split_beta Let_def split: if_splits)
  qed
qed

text \<open>
  C32. Only removable devices are opened: the search opens block devices that \<^verbatim>\<open>/sys/block\<close> lists
  as removable and the fallback names derived from them, nothing else.
\<close>

theorem only_removable_opened:
  "\<exists>opened. dv_opened (poststate ensure_block_open s) = dv_opened s @ opened
    \<and> (\<forall>path \<in> set opened. \<exists>name. sysfs_device_is_removable (dv_removable s) name \<and> is_block_dev_name name
         \<and> (path = ''/dev/'' @ name \<or> fallback_for (''/dev/'' @ name) = Some path))"
proof -
  let ?D = "{path. \<exists>name. sysfs_device_is_removable (dv_removable s) name \<and> is_block_dev_name name
         \<and> (path = ''/dev/'' @ name \<or> fallback_for (''/dev/'' @ name) = Some path)}"
  have "opens_only ?D s (poststate (try_candidates (candidates (dv_removable s) names)) s)" for names
  proof (rule io_poststateD, rule opens_candidates)
    have "set (candidates (dv_removable s) names) \<subseteq> {''/dev/'' @ n | n. sysfs_device_is_removable (dv_removable s) n \<and> is_block_dev_name n}"
      unfolding candidates_def by (auto dest!: in_set_takeD)
    then show "set (candidates (dv_removable s) names) \<subseteq> ?D"
      "{f. \<exists>dev \<in> set (candidates (dv_removable s) names). fallback_for dev = Some f} \<subseteq> ?D" by blast+
  qed
  then have "opens_only ?D s (poststate ensure_block_open s)"
    by (auto simp: ensure_block_open_def opens_only_def split: option.split)
  then show ?thesis by (auto simp: opens_only_def)
qed

text \<open>The fallback of a removable device can be another, fixed one.\<close>

lemma fallback_other_device: "fallback_for ''/dev/mmcblk10'' = Some ''/dev/mmcblk1''"
  by code_simp

section \<open>Examples\<close>

text \<open>A host with one removable device, which has nothing but one sector.\<close>

definition sample_host :: "(tables, unit) host" where
  "sample_host = server.extend sample_server (host.fields
     (\<lambda>path. if path = ''/dev/sda'' then Some (replicate TSE_BLOCK_SIZE 0) else None)
     [(3, ''/dev/sda'')] [] [] (Some [''sda'']) (\<lambda>_. Some ''1'') blank_block False)"

definition sample_block :: tse_block where
  "sample_block = blank_block\<lparr>blk_fd := 3, offsets_valid := True\<rparr>"

lemma sample_host_facts:
  "dv_files sample_host = [(3, ''/dev/sda'')]" "dv_transfers sample_host = []"
  "dv_disks sample_host ''/dev/sda'' = Some (replicate TSE_BLOCK_SIZE 0)"
  by (simp_all add: sample_host_def server.defs host.defs sample_server_def)

lemma loops_at_once:
  "off + length data \<le> length disk \<Longrightarrow> pwrite_loop disk [] data off = (True, poke disk off data, [])"
  "off + len \<le> length disk \<Longrightarrow> pread_loop disk [] len off acc = (Some (acc @ take len (drop off disk)), [])"
  by (cases data; simp add: Let_def) (cases len; simp add: Let_def)

theorem store_round_trip_witness:
  "value_of (tse_block_read_store sample_block 0 TSE_BLOCK_SIZE)
     (poststate (tse_block_write_store sample_block 0 (replicate TSE_BLOCK_SIZE 1)) sample_host)
   = Some (replicate TSE_BLOCK_SIZE 1)"
proof -
  let ?data = "replicate TSE_BLOCK_SIZE 1 :: u8 list"
  let ?disk = "replicate TSE_BLOCK_SIZE 0 :: u8 list"
  let ?t = "sample_host\<lparr>dv_transfers := [], dv_disks := (dv_disks sample_host)(''/dev/sda'' := Some (poke ?disk 0 ?data))\<rparr>"
  have start: "lba_offset 0 = 0" "0 < TSE_BLOCK_SIZE" using lba_offset_unat [of 0] by (simp_all add: TSE_BLOCK_SIZE_def)
  have found: "file_of sample_host 3 = Some (''/dev/sda'', ?disk)"
    by (simp add: file_of_def sample_host_facts)
  have "run_state (tse_block_write_store sample_block 0 ?data) sample_host = (True, ?t)"
    using start found by (simp add: tse_block_write_store_def tse_block_write_lba_def write_exact_def sample_block_def
        blank_block_def loops_at_once sample_host_facts)
  moreover have "\<exists>bs. run_state (tse_block_read_store sample_block 0 (length ?data)) ?t = (Some bs, ?t)"
    using start file_of_writes [OF found] by (simp add: tse_block_read_store_def tse_block_read_lba_def read_exact_def
        sample_block_def blank_block_def loops_at_once)
  ultimately show ?thesis using store_round_trip [of sample_block 0 ?data sample_host ?t] by auto
qed

theorem any_pieces_witness:
  "value_of (tse_block_read_lba sample_block 0 512) (sample_host\<lparr>dv_transfers := [Moves 100, Move_interrupted, Moves 1]\<rparr>)
   = Some (replicate 512 0)"
proof -
  have "file_of (sample_host\<lparr>dv_transfers := [Moves 100, Move_interrupted, Moves 1]\<rparr>) 3
      = Some (''/dev/sda'', replicate TSE_BLOCK_SIZE 0)"
    by (simp add: file_of_def sample_host_facts)
  with any_pieces [of "sample_host\<lparr>dv_transfers := [Moves 100, Move_interrupted, Moves 1]\<rparr>" sample_block
      "''/dev/sda''" "replicate TSE_BLOCK_SIZE 0" "replicate 512 0" 0]
  show ?thesis by (simp add: sample_block_def blank_block_def TSE_BLOCK_SIZE_def)
qed

theorem store_write_confined_witness:
  "keeps_outside ''/dev/sda'' 0 TSE_BLOCK_SIZE sample_host
    (poststate (tse_block_write_store sample_block 0 (replicate TSE_BLOCK_SIZE 1)) sample_host)"
  using store_write_confined [of sample_host sample_block "''/dev/sda''" 0 "replicate TSE_BLOCK_SIZE 1"]
  by (simp add: sample_host_facts sample_block_def blank_block_def)

theorem only_removable_opened_witness:
  "\<exists>opened. dv_opened (poststate ensure_block_open (sample_host\<lparr>dv_removable := [''sda'' \<mapsto> ''1'', ''sdb'' \<mapsto> ''0'']\<rparr>)) = opened
    \<and> set opened \<subseteq> {''/dev/sda'', ''/dev/sda1''}"
proof -
  let ?s = "sample_host\<lparr>dv_removable := [''sda'' \<mapsto> ''1'', ''sdb'' \<mapsto> ''0'']\<rparr>"
  have only: "sysfs_device_is_removable (dv_removable ?s) name \<longleftrightarrow> name = ''sda''" for name
    by (simp add: sysfs_device_is_removable_def)
  have fallback: "fallback_for ''/dev/sda'' = Some ''/dev/sda1''" by code_simp
  have "dv_opened ?s = []" by (simp add: sample_host_def server.defs host.defs sample_server_def)
  with only_removable_opened [of ?s] fallback show ?thesis unfolding only by auto
qed

theorem offset_table_read_witness:
  "\<exists>ok blk. value_of (tse_block_open ''/dev/sda'') (sample_host\<lparr>dv_disks := (\<lambda>_. Some (replicate 4096 0 @
      be_bytes 1 @ be_bytes 2 @ be_bytes 3))\<rparr>) = (ok, blk) \<and> offsets_valid blk = ok"
proof -
  let ?s = "sample_host\<lparr>dv_disks := (\<lambda>_. Some (replicate 4096 0 @ be_bytes 1 @ be_bytes 2 @ be_bytes 3))\<rparr>"
  obtain ok blk t where run: "run_state (tse_block_open ''/dev/sda'') ?s = ((ok, blk), t)" by (metis prod.collapse)
  have "take 12 (drop 4096 (replicate 4096 0 @ be_bytes 1 @ be_bytes 2 @ be_bytes 3)) = be_bytes 1 @ be_bytes 2 @ be_bytes 3"
    by (simp add: be_bytes_def)
  from offset_table_read [OF _ this run] run show ?thesis by simp
qed

text \<open>A device without a valid offset table stays open after the probe.\<close>

lemma probe_leaks: "dv_files (poststate (tse_block_probe ''/dev/sda'') sample_host) = [(4, ''/dev/sda''), (3, ''/dev/sda'')]"
proof -
  have "lba_offset TSE_OFFSET_TABLE_LBA = 4096"
    using lba_offset_unat [of TSE_OFFSET_TABLE_LBA] by (simp add: TSE_OFFSET_TABLE_LBA_def)
  moreover have "pread_loop (replicate 512 0) [] 512 4096 [] = (None, [])"
    using pread_loop.simps(2) [of "replicate 512 0" 511 4096 "[]"] by (simp add: Let_def)
  ultimately show ?thesis
    by (simp add: tse_block_probe_def tse_block_open_def open_device_def tse_block_load_offsets_def tse_block_read_lba_def
        read_exact_def file_of_def sample_host_facts Let_def TSE_BLOCK_SIZE_def)
qed

end
