(* ===== verification/Tse_Worm_Start.thy ===== *)
theory Tse_Worm_Start
  imports Tse_Worm_Init Tse_Worm_Safety Tse_Block_Props
begin

text \<open>
  What the start of the TSE client leaves: a client that is active has an open store and the function
  pointers its calls use, a device is set up at most once and only when it says that it is not
  initialised, the credentials of the set-up are found again, and the background thread keeps the
  clock and the self-test current.
\<close>

section \<open>What the steps of the start leave alone\<close>

text \<open>\<open>serves C\<close>: only calls in \<open>C\<close> are made, and the client keeps its pointers, its store and its lock.\<close>

definition serves :: "(wcall \<Rightarrow> bool) \<Rightarrow> ('db, 'hw, 'a) server_scheme \<Rightarrow> ('db, 'hw, 'a) server_scheme \<Rightarrow> bool" where
  "serves C s t \<longleftrightarrow> (\<exists>ext. w_trace t = w_trace s @ ext \<and> list_all (\<lambda>e. C (fst e)) ext) \<and>
     w_ptr t = w_ptr s \<and> w_legacy t = w_legacy s \<and> w_active t = w_active s \<and> w_store t = w_store s \<and>
     w_mu t = w_mu s \<and> w_stuck t = w_stuck s"

named_theorems serves_intros \<open>steps that keep the client as it is\<close>

lemma serves_refl [simp]: "reflp (serves C)"
  by (rule reflpI) (auto simp: serves_def)

lemma serves_trans [simp]: "transp (serves C)"
proof (rule transpI)
  fix s t u :: "('a, 'b, 'c) server_scheme"
  assume "serves C s t" "serves C t u"
  then show "serves C s u" by (auto simp: serves_def)
qed

lemma stays_serves: "stays C s t \<Longrightarrow> serves C s t"
  by (auto simp: stays_def serves_def)

lemma serves_mono: "serves C s t \<Longrightarrow> (\<And>c. C c \<Longrightarrow> D c) \<Longrightarrow> serves D s t"
  by (auto simp: serves_def list_all_iff)

lemma serves_of_stays: "state_io_rel (stays C) m \<Longrightarrow> state_io_rel (serves C) m"
  by (auto simp: state_io_rel_def intro: stays_serves split: prod.splits)

lemma wp_rel: "state_io_rel R m \<Longrightarrow> wp m (\<lambda>_ t. R s t) s"
  by (erule wp_io)

lemma serves_return [serves_intros]: "state_io_rel (serves C) (ret x)"
  by (rule io_return) simp

lemma serves_get [serves_intros]: "state_io_rel (serves C) State_Monad.get"
  by (rule io_gets) simp

lemma serves_bind [serves_intros]:
  "state_io_rel (serves C) m \<Longrightarrow> (\<And>x. state_io_rel (serves C) (f x)) \<Longrightarrow>
   state_io_rel (serves C) (State_Monad.bind m f)"
  by (rule io_bind) simp_all

lemmas [serves_intros] = io_if io_option io_prod

lemma serves_modify:
  "(\<And>s. w_trace (f s) = w_trace s) \<Longrightarrow> (\<And>s. w_ptr (f s) = w_ptr s) \<Longrightarrow> (\<And>s. w_legacy (f s) = w_legacy s) \<Longrightarrow>
   (\<And>s. w_active (f s) = w_active s) \<Longrightarrow> (\<And>s. w_store (f s) = w_store s) \<Longrightarrow> (\<And>s. w_mu (f s) = w_mu s) \<Longrightarrow>
   (\<And>s. w_stuck (f s) = w_stuck s) \<Longrightarrow> state_io_rel (serves C) (modify f)"
  by (rule io_modify) (auto simp: serves_def)

lemma serves_calls [serves_intros]:
  "C c \<Longrightarrow> state_io_rel (serves C) (hw_rc A c)" "C c \<Longrightarrow> state_io_rel (serves C) (hw_bytes A c)"
  "C c \<Longrightarrow> state_io_rel (serves C) (hw_handle A c)" "C c \<Longrightarrow> state_io_rel (serves C) (hw_void A c)"
  "C c \<Longrightarrow> state_io_rel (serves C) (hw_u64 A c)"
  by (rule serves_of_stays, rule stays_hw, assumption)+

lemma serves_open [serves_intros]: "C c \<Longrightarrow> state_io_rel (serves C) (hw_open A c)"
  by (auto simp: state_io_rel_def serves_def hw_open_def split: prod.splits)

lemma serves_quiet [serves_intros]:
  "state_io_rel (serves C) time_now" "state_io_rel (serves C) (util_random_bytes n)"
  "state_io_rel (serves C) (db_get_setting E k n)" "state_io_rel (serves C) (db_set_setting E k v)"
  "state_io_rel (serves C) (worm_client_mark_registered c)"
proof -
  show "state_io_rel (serves C) (util_random_bytes n)"
    by (auto simp: state_io_rel_def serves_def util_random_bytes_def)
qed (rule serves_of_stays, intro stays_intros)+

lemma serves_with_info [serves_intros]:
  "(\<And>c. is_query c \<Longrightarrow> C c) \<Longrightarrow> (\<And>i. state_io_rel (serves C) (body i)) \<Longrightarrow>
   state_io_rel (serves C) (with_info A d body)"
  unfolding with_info_def by (intro serves_intros) auto

section \<open>Opening the store\<close>

fun is_opening :: "wcall \<Rightarrow> bool" where
  "is_opening (Worm_init _) = True"
| "is_opening Worm_init_callbacks = True"
| "is_opening (Store_new _) = True"
| "is_opening Rw_new = True"
| "is_opening (Director_connect _) = True"
| "is_opening (Store_internal_new _) = True"
| "is_opening _ = False"

text \<open>Success leaves a store, failure none but the one that was there.\<close>

definition opens :: "(('db, 'hw, 'a) server_scheme, bool) state \<Rightarrow> bool" where
  "opens m \<longleftrightarrow> (\<forall>s. wp m (\<lambda>ok t. serves is_opening s (t\<lparr>w_store := w_store s\<rparr>)
     \<and> (if ok then w_store t \<noteq> 0 else w_store t \<in> {0, w_store s})) s)"

lemma opensI:
  "(\<And>s. wp m (\<lambda>ok t. serves is_opening s (t\<lparr>w_store := w_store s\<rparr>)
     \<and> (if ok then w_store t \<noteq> 0 else w_store t \<in> {0, w_store s})) s) \<Longrightarrow> opens m"
  by (simp add: opens_def)

lemma opens_fail: "opens (ret False)"
  by (rule opensI) (simp add: wps reflpD [OF serves_refl])

lemma serves_store_trans:
  assumes "serves C s (t\<lparr>w_store := w_store s\<rparr>)" and "serves C t (u\<lparr>w_store := w_store t\<rparr>)"
  shows "serves C s (u\<lparr>w_store := w_store s\<rparr>)"
  using assms by (auto simp: serves_def)

lemma opens_or_else: "opens m \<Longrightarrow> opens n \<Longrightarrow> opens (or_else m n)"
proof (rule opensI)
  fix s :: "('a, 'b, 'c) server_scheme"
  assume m: "opens m" and n: "opens n"
  show "wp (or_else m n) (\<lambda>ok t. serves is_opening s (t\<lparr>w_store := w_store s\<rparr>)
     \<and> (if ok then w_store t \<noteq> 0 else w_store t \<in> {0, w_store s})) s"
    unfolding or_else_def
  proof (rule wp_seq [OF m [unfolded opens_def, rule_format]])
    fix ok t
    assume t: "serves is_opening s (t\<lparr>w_store := w_store s\<rparr>) \<and> (if ok then w_store t \<noteq> 0 else w_store t \<in> {0, w_store s})"
    show "wp (if ok then ret True else n) (\<lambda>ok u. serves is_opening s (u\<lparr>w_store := w_store s\<rparr>)
       \<and> (if ok then w_store u \<noteq> 0 else w_store u \<in> {0, w_store s})) t"
    proof (cases ok)
      case True
      then show ?thesis using t by (simp add: wps)
    next
      case False
      then show ?thesis
        using t n [unfolded opens_def, rule_format, of t]
        by (auto elim!: wp_mono dest: serves_store_trans)
    qed
  qed
qed

lemma opens_after: "state_io_rel (serves is_opening) m \<Longrightarrow> (\<And>x. opens (f x)) \<Longrightarrow> opens (State_Monad.bind m f)"
proof (rule opensI)
  fix s :: "('a, 'b, 'c) server_scheme"
  assume m: "state_io_rel (serves is_opening) m" and f: "\<And>x. opens (f x)"
  show "wp (State_Monad.bind m f) (\<lambda>ok t. serves is_opening s (t\<lparr>w_store := w_store s\<rparr>)
     \<and> (if ok then w_store t \<noteq> 0 else w_store t \<in> {0, w_store s})) s"
  proof (rule wp_seq [OF wp_rel [OF m]])
    fix x t assume t: "serves is_opening s t"
    then have st: "w_store t = w_store s" by (simp add: serves_def)
    from t have "serves is_opening s (t\<lparr>w_store := w_store s\<rparr>)" by (simp add: serves_def)
    then show "wp (f x) (\<lambda>ok u. serves is_opening s (u\<lparr>w_store := w_store s\<rparr>)
       \<and> (if ok then w_store u \<noteq> 0 else w_store u \<in> {0, w_store s})) t"
      using f [of x, unfolded opens_def, rule_format, of t] st by (auto elim!: wp_mono dest: serves_store_trans)
  qed
qed

lemma opens_if: "opens m \<Longrightarrow> opens n \<Longrightarrow> opens (if b then m else n)"
  by simp

lemma opens_use: "ctx \<noteq> 0 \<Longrightarrow> opens (use_store ctx path)"
  by (rule opensI) (simp add: use_store_def wps serves_def)

lemma opens_use_new: "opens (do { _ \<leftarrow> modify (\<lambda>s. s\<lparr>w_store := ctx\<rparr>); if ctx = 0 then ret False else use_store ctx path })"
  by (rule opensI) (simp add: use_store_def wps serves_def)

lemma opens_legacy: "opens (open_store_legacy A path)"
  unfolding open_store_legacy_def
  by (rule opens_after, intro serves_intros, simp) (auto split: prod.split intro: opens_fail opens_use)

lemma opens_store: "opens (open_store A path)"
  unfolding open_store_def
  by (intro opens_after opens_if opens_use_new opens_legacy serves_intros) simp

lemma opens_paths: "opens (try_paths A configured paths)"
proof (induction paths)
  case (Cons path paths)
  then show ?case
    unfolding try_paths.simps or_else_def [symmetric] by (intro opens_if opens_or_else opens_legacy)
qed (simp add: opens_fail)


text \<open>The block device is found without a call of the library.\<close>

lemma serves_read [serves_intros]: "state_io_rel (serves C) (tse_block_read_lba blk lba n)"
  by (auto simp: state_io_rel_def serves_def tse_block_read_lba_def read_exact_def split: option.split prod.split)

lemma serves_open_device [serves_intros]: "state_io_rel (serves C) (open_device d)"
  by (auto simp: state_io_rel_def serves_def open_device_def Let_def split: option.split)

lemma serves_close [serves_intros]: "state_io_rel (serves C) (tse_block_close blk)"
  by (auto simp: state_io_rel_def serves_def tse_block_close_def close_device_def)

lemma serves_block [serves_intros]: "state_io_rel (serves C) (tse_block_open d)"
  unfolding tse_block_open_def tse_block_load_offsets_def Let_def by (intro serves_intros)

lemma serves_probe [serves_intros]: "state_io_rel (serves C) (tse_block_probe d)"
  unfolding tse_block_probe_def tse_block_read_info_def Let_def by (intro serves_intros)

lemma serves_probe_open [serves_intros]: "state_io_rel (serves C) (probe_open d)"
  unfolding probe_open_def by (intro serves_intros serves_modify) simp_all

lemma serves_candidates [serves_intros]: "state_io_rel (serves C) (try_candidates ds)"
proof (induction ds)
  case (Cons d ds)
  then show ?case unfolding try_candidates.simps by (intro serves_intros)
qed (simp add: serves_return)

lemma serves_ensure_block [serves_intros]: "state_io_rel (serves C) ensure_block_open"
  unfolding ensure_block_open_def by (intro serves_intros)

lemma serves_set_block [serves_intros]: "state_io_rel (serves C) tse_worm_director_set_block"
  unfolding tse_worm_director_set_block_def by (rule serves_modify) simp_all

lemma opens_legacy_block: "opens (open_store_legacy_block A)"
  unfolding open_store_legacy_block_def
  by (intro opens_after opens_if opens_fail serves_intros; (simp; fail)?) (auto split: prod.split intro: opens_fail opens_use)

lemma opens_with_block: "opens (open_store_with_block A)"
  unfolding open_store_with_block_def
  by (intro opens_after opens_if opens_use_new opens_fail serves_intros) simp_all

lemma opens_first_path: "opens (if path \<noteq> [] then open_store A path else ret False)"
  by (intro opens_if opens_store opens_fail)

lemma opens_open_legacy: "opens (open_legacy A)"
  unfolding open_legacy_def Let_def try_legacy_mount_paths_def
  by (intro opens_after opens_or_else opens_first_path opens_paths opens_if opens_legacy_block opens_fail serves_intros)

lemma opens_device_store: "opens (open_device_store A)"
  unfolding open_device_store_def Let_def
  by (intro opens_after opens_or_else opens_first_path opens_store opens_with_block serves_intros)


section \<open>Reading and setting up the device\<close>

fun is_setup :: "wcall \<Rightarrow> bool" where
  "is_setup (Tse_setup _ _ _ _ _ _) = True"
| "is_setup _ = False"

lemma not_setup [simp]: "clockwork c \<Longrightarrow> \<not> is_setup c" "is_opening c \<Longrightarrow> \<not> is_setup c" "is_query c \<Longrightarrow> \<not> is_setup c"
  by (cases c; simp add: clockwork_def upkeep_def)+

lemma serves_info_fields [serves_intros]:
  "(\<And>c. \<not> is_setup c \<Longrightarrow> C c) \<Longrightarrow> state_io_rel (serves C) (refresh_info_fields A)"
  unfolding refresh_info_fields_def read_info_bytes_def by (intro serves_intros serves_modify) simp_all

lemma serves_certificate [serves_intros]:
  "(\<And>c. \<not> is_setup c \<Longrightarrow> C c) \<Longrightarrow> state_io_rel (serves C) (refresh_certificate A mem)"
  unfolding refresh_certificate_def by (intro serves_intros serves_modify) simp_all

lemma serves_digits [serves_intros]: "state_io_rel (serves C) (generate_random_digits n k)"
  unfolding generate_random_digits_def Let_def by (intro serves_intros)

lemma serves_credential [serves_intros]: "state_io_rel (serves C) (load_or_generate_credential E key configured n k)"
  unfolding load_or_generate_credential_def
  by (intro serves_intros) (auto split: list.split intro!: serves_intros)

lemma serves_provisioned [serves_intros]:
  "state_io_rel (serves (\<lambda>_. True)) (ensure_tse_provisioned A E)"
  unfolding ensure_tse_provisioned_def tse_init_state_def run_setup_def Let_def
  by (intro serves_intros serves_modify) simp_all

lemma serves_upkeep [serves_intros]:
  "(\<And>c. clockwork c \<Longrightarrow> C c) \<Longrightarrow> state_io_rel (serves C) (ensure_self_test_passed A E force)"
  "(\<And>c. clockwork c \<Longrightarrow> C c) \<Longrightarrow> state_io_rel (serves C) (worm_has_valid_time A)"
  "(\<And>c. clockwork c \<Longrightarrow> C c) \<Longrightarrow> state_io_rel (serves C) (perform_time_sync A E)"
  "(\<And>c. clockwork c \<Longrightarrow> C c) \<Longrightarrow> state_io_rel (serves C) (log_worm_diagnostics A)"
  by (rule serves_of_stays, intro stays_intros, simp)+

lemma serves_prepare [serves_intros]: "state_io_rel (serves (\<lambda>_. True)) (prepare_device A E mem)"
  unfolding prepare_device_def by (intro serves_intros) simp_all

section \<open>The symbols\<close>

lemma require_all_pointers:
  "require_all syms rs ptr = (True, ptr') \<Longrightarrow> ptr f \<or> (\<exists>p a. (p, a, f) \<in> set rs) \<Longrightarrow> ptr' f"
proof (induction rs arbitrary: ptr)
  case (Cons r rs)
  obtain p a g where r: "r = (p, a, g)" by (cases r)
  from Cons.prems(1) have found: "resolve syms p a"
    and rest: "require_all syms rs (ptr(g := True)) = (True, ptr')"
    by (cases "resolve syms p a"; simp add: r Let_def)+
  from Cons.prems(2) show ?case
    by (intro Cons.IH [OF rest]) (auto simp: r)
qed simp

lemma resolve_all_other: "(\<And>p a. (p, a, f) \<notin> set rs) \<Longrightarrow> resolve_all syms rs ptr f = ptr f"
proof (induction rs arbitrary: ptr)
  case (Cons r rs)
  obtain p a g where r: "r = (p, a, g)" by (cases r)
  have "f \<noteq> g" using Cons.prems [of p a] by (auto simp: r)
  then show ?case using Cons by (simp add: r)
qed simp

text \<open>The pointers that the source calls without asking whether they are there.\<close>

definition loaded :: "('db, 'hw, 'a) server_scheme \<Rightarrow> bool" where
  "loaded s \<longleftrightarrow> list_all (w_ptr s) [P_info_new, P_info_free, P_info_read, P_tx_resp_new, P_tx_resp_free,
      P_tx_start, P_tx_finish, P_tx_resp_tx_num, P_tx_resp_sig_counter, P_tx_resp_log_time]
   \<and> (if w_legacy s then w_ptr s P_init \<and> w_ptr s P_cleanup \<and> w_ptr s P_tx_sig_legacy
      else w_ptr s P_store_new \<and> w_ptr s P_store_free \<and> w_ptr s P_tx_resp_signature)"

lemmas symbol_lists = store_api_symbols_def legacy_api_symbols_def store_api_optional_def
  legacy_api_optional_def optional_symbols_def

lemma load_symbols_loads:
  assumes "\<not> w_legacy s"
  shows "wp (load_symbols syms) (\<lambda>ok t. (ok \<longrightarrow> loaded t) \<and> w_active t = w_active s \<and> w_store t = w_store s
    \<and> w_mu t = w_mu s \<and> w_stuck t = w_stuck s \<and> w_trace t = w_trace s) s"
proof -
  let ?api = "resolve syms ''worm_store_new'' (Some ''WormStore_new'')"
  obtain ok ptr where req: "require_all syms (if ?api then store_api_symbols else legacy_api_symbols)
      ((w_ptr s)(P_store_new := ?api)) = (ok, ptr)" by fastforce
  have "loaded (s\<lparr>w_ptr := resolve_all syms optional_symbols (resolve_all syms
      (if ?api then store_api_optional else legacy_api_optional) ptr), w_legacy := \<not> ?api\<rparr>)" if ok
  proof -
    note got = require_all_pointers [OF req [unfolded that [THEN eqTrueI]]]
    show ?thesis
      by (cases ?api) (simp_all add: loaded_def resolve_all_other symbol_lists got)
  qed
  then show ?thesis
    using assms by (simp add: load_symbols_def wps req Let_def)
qed


section \<open>A client that is active is ready\<close>

definition client_ok :: "('db, 'hw, 'a) server_scheme \<Rightarrow> bool" where
  "client_ok s \<longleftrightarrow> \<not> w_mu s \<and> \<not> w_stuck s \<and> (if w_active s then w_store s \<noteq> 0 \<and> loaded s else w_store s = 0)"

lemma loaded_serves: "serves C s t \<Longrightarrow> loaded t = loaded s"
  by (simp add: serves_def loaded_def)

lemma client_ok_serves: "serves C s t \<Longrightarrow> client_ok t = client_ok s"
  by (simp add: client_ok_def loaded_serves) (simp add: serves_def)

lemma unload_keeps:
  "wp (unload b) (\<lambda>ok t. \<not> ok \<and> \<not> g_lib t \<and> serves (\<lambda>_. False) s t) s"
  by (auto simp: unload_def wps serves_def tse_block_close_def close_device_def)

lemma activate_ok:
  "w_store s \<noteq> 0 \<Longrightarrow> loaded s \<Longrightarrow> \<not> w_mu s \<Longrightarrow> \<not> w_stuck s \<Longrightarrow>
   wp activate (\<lambda>_ t. w_active t \<and> client_ok t) s"
  by (simp add: activate_def wps client_ok_def loaded_def split: prod.split)

text \<open>The process before the start: the globals are zero.\<close>

definition client_cold :: "('db, 'hw, 'a) server_scheme \<Rightarrow> bool" where
  "client_cold s \<longleftrightarrow> \<not> w_mu s \<and> \<not> w_stuck s \<and> \<not> w_legacy s \<and> \<not> w_active s \<and> w_store s = 0"

lemma opened_then_ready:
  assumes m: "opens m" and s: "loaded s" "\<not> w_mu s" "\<not> w_stuck s" "\<not> w_active s" "w_store s = 0"
  shows "wp (do { opened \<leftarrow> m; if \<not> opened then unload True else do {
              _ \<leftarrow> prepare_device A E mem; _ \<leftarrow> activate; ret True } })
     (\<lambda>ok t. client_ok t \<and> w_active t = ok \<and> (ok \<or> \<not> g_lib t)) s"
proof (rule wp_seq [OF m [unfolded opens_def, rule_format]])
  fix opened t
  assume t: "serves is_opening s (t\<lparr>w_store := w_store s\<rparr>)
    \<and> (if opened then w_store t \<noteq> 0 else w_store t \<in> {0, w_store s})"
  then have keep: "loaded t" "\<not> w_mu t" "\<not> w_stuck t" "\<not> w_active t"
    using s loaded_serves [of is_opening s "t\<lparr>w_store := w_store s\<rparr>"] by (simp_all add: serves_def loaded_def)
  show "wp (if \<not> opened then unload True else do { _ \<leftarrow> prepare_device A E mem; _ \<leftarrow> activate; ret True })
    (\<lambda>ok t. client_ok t \<and> w_active t = ok \<and> (ok \<or> \<not> g_lib t)) t"
  proof (cases opened)
    case False
    then have "w_store t = 0" using t s by simp
    then have "client_ok t" using keep by (simp add: client_ok_def)
    moreover have "wp (unload True) (\<lambda>ok u. \<not> ok \<and> \<not> g_lib u \<and> serves (\<lambda>_. False) t u) t" by (rule unload_keeps)
    ultimately have "wp (unload True) (\<lambda>ok u. client_ok u \<and> w_active u = ok \<and> (ok \<or> \<not> g_lib u)) t"
      using keep by (elim wp_mono) (auto simp: client_ok_serves, auto simp: serves_def)
    then show ?thesis using False by simp
  next
    case True
    have "wp (do { _ \<leftarrow> prepare_device A E mem; _ \<leftarrow> activate; ret True })
      (\<lambda>ok t. client_ok t \<and> w_active t = ok \<and> (ok \<or> \<not> g_lib t)) t"
    proof (rule wp_seq [OF wp_rel [OF serves_prepare]])
      fix x u assume u: "serves (\<lambda>_. True) t u"
      then have "w_store u \<noteq> 0" "loaded u" "\<not> w_mu u" "\<not> w_stuck u"
        using t True keep by (simp_all add: loaded_serves) (simp_all add: serves_def)
      from activate_ok [OF this] show "wp (do { _ \<leftarrow> activate; ret True })
        (\<lambda>ok t. client_ok t \<and> w_active t = ok \<and> (ok \<or> \<not> g_lib t)) u"
        unfolding wps by (rule wp_mono) simp
    qed
    then show ?thesis using True by simp
  qed
qed


lemma unload_cold:
  assumes "\<not> w_mu s" "\<not> w_stuck s" "\<not> w_active s" "w_store s = 0"
  shows "wp (unload b) (\<lambda>ok t. client_ok t \<and> w_active t = ok \<and> (ok \<or> \<not> g_lib t)) s"
proof -
  have "client_ok s" using assms by (simp add: client_ok_def)
  then show ?thesis
    using assms(3) by (intro wp_mono [OF unload_keeps]) (auto simp: client_ok_serves, auto simp: serves_def)
qed

lemma init_ready:
  fixes s :: "('db, 'hw, 'a) station_scheme"
  assumes "client_cold s"
  shows "wp (tse_worm_init A E mem) (\<lambda>ok t. client_ok t \<and> w_active t = ok \<and> (ok \<or> \<not> g_lib t)) s"
proof -
  let ?Q = "\<lambda>ok t. client_ok t \<and> w_active t = ok \<and> (ok \<or> \<not> g_lib t)"
  let ?s = "s\<lparr>g_block := blank_block, g_lib := True\<rparr>"
  show ?thesis
  proof (cases "lb_symbols s (cfg_worm_lib (g_config s))")
    case None
    then show ?thesis using assms by (simp add: tse_worm_init_def wps client_cold_def client_ok_def)
  next
    case (Some syms)
    have "\<not> w_legacy ?s" using assms by (simp add: client_cold_def)
    have "wp (do {
          loaded \<leftarrow> load_symbols syms;
          if \<not> loaded then unload True
          else do {
            s1 \<leftarrow> State_Monad.get;
            found \<leftarrow> (if w_legacy s1 then ret True else ensure_block_open);
            if \<not> found then unload False
            else do {
              opened \<leftarrow> (if w_legacy s1 then open_legacy A else open_device_store A);
              if \<not> opened then unload True
              else do { _ \<leftarrow> prepare_device A E mem; _ \<leftarrow> activate; ret True } } } }) ?Q ?s"
    proof (rule wp_seq [OF load_symbols_loads [OF \<open>\<not> w_legacy ?s\<close>]])
      fix ok and t :: "('db, 'hw, 'a) station_scheme"
      assume "(ok \<longrightarrow> loaded t) \<and> w_active t = w_active ?s \<and> w_store t = w_store ?s
        \<and> w_mu t = w_mu ?s \<and> w_stuck t = w_stuck ?s \<and> w_trace t = w_trace ?s"
      then have t: "\<not> w_mu t" "\<not> w_stuck t" "\<not> w_active t" "w_store t = 0" "ok \<Longrightarrow> loaded t"
        using assms by (simp_all add: client_cold_def)
      have find: "state_io_rel (serves is_opening) (if w_legacy t then ret True else ensure_block_open)"
        by (intro serves_intros)
      have "wp (do { found \<leftarrow> (if w_legacy t then ret True else ensure_block_open);
            if \<not> found then unload False
            else do {
              opened \<leftarrow> (if w_legacy t then open_legacy A else open_device_store A);
              if \<not> opened then unload True
              else do { _ \<leftarrow> prepare_device A E mem; _ \<leftarrow> activate; ret True } } }) ?Q t" if ok
      proof (rule wp_seq [OF wp_rel [OF find]], goal_cases)
        case (1 found u)
        then have u: "loaded u" "\<not> w_mu u" "\<not> w_stuck u" "\<not> w_active u" "w_store u = 0"
          using t that loaded_serves [of is_opening t u] by (simp_all add: serves_def)
        have "opens (if w_legacy t then open_legacy A else open_device_store A)"
          by (intro opens_if opens_open_legacy opens_device_store)
        from opened_then_ready [OF this u] unload_cold [OF u(2-5)] show ?case by (cases found) simp_all
      qed
      with unload_cold [OF t(1-4)] show "wp (if \<not> ok then unload True
          else do {
            s1 \<leftarrow> State_Monad.get;
            found \<leftarrow> (if w_legacy s1 then ret True else ensure_block_open);
            if \<not> found then unload False
            else do {
              opened \<leftarrow> (if w_legacy s1 then open_legacy A else open_device_store A);
              if \<not> opened then unload True
              else do { _ \<leftarrow> prepare_device A E mem; _ \<leftarrow> activate; ret True } } }) ?Q t"
        by (cases ok) (simp_all add: wp_bind [of State_Monad.get] wp_get)
    qed
    then show ?thesis
      by (simp add: tse_worm_init_def Some wp_bind [of "modify _"] wp_bind [of State_Monad.get] wp_get wp_modify)
  qed
qed

lemma shutdown_ok:
  assumes "client_ok s"
  shows "wp (tse_worm_shutdown A) (\<lambda>_ t. client_ok t \<and> \<not> w_active t \<and> \<not> g_lib t) s"
proof -
  have "\<not> w_mu s" using assms by (simp add: client_ok_def)
  from wp_lock [OF this] assms show ?thesis
    by (auto simp: tse_worm_shutdown_def wps wp_unlock client_ok_def unload_def hw_void_def tse_block_close_def close_device_def)
qed

section \<open>The background thread\<close>

lemma stays_check_clock [stays_intros]:
  "(\<And>c. is_query c \<Longrightarrow> C c) \<Longrightarrow> state_io_rel (stays C) (check_clock A)"
  unfolding check_clock_def by (intro stays_intros) auto

text \<open>One round under the lock: from the reading on, with the schedule it used.\<close>

definition round_work ::
  "'hw worm_api \<Rightarrow> 'db engine \<Rightarrow> config \<Rightarrow> (int \<Rightarrow> tm) \<Rightarrow> int \<Rightarrow> ('db, 'hw, 'a, int) prog" where
  "round_work A E cfg loc last_day = do {
     ck \<leftarrow> check_clock A;
     now \<leftarrow> time_now;
     let scheduled = scheduled_now cfg (loc now) last_day;
     _ \<leftarrow> (if self_test_due ck scheduled then do {
             _ \<leftarrow> ensure_self_test_passed A E True;
             (if scheduled then do { _ \<leftarrow> perform_time_sync A E; ret () } else ret ()) }
           else ret ());
     s1 \<leftarrow> State_Monad.get;
     _ \<leftarrow> (if sync_due ck (w_last_time_sync s1) now \<and> \<not> scheduled
           then do { _ \<leftarrow> perform_time_sync A E; ret () } else ret ());
     ret (if scheduled then day_stamp (loc now) else last_day) }"

lemma stays_round [stays_intros]: "state_io_rel (stays clockwork) (round_work A E cfg loc last_day)"
  unfolding round_work_def Let_def by (intro stays_intros) auto

lemma sync_tick_eq:
  "sync_tick A E last_day = do {
     _ \<leftarrow> mu_lock;
     s \<leftarrow> State_Monad.get;
     if \<not> w_active s then do { _ \<leftarrow> mu_unlock; ret None }
     else do {
       d \<leftarrow> round_work A E (g_config s) (localtime s) last_day;
       _ \<leftarrow> mu_unlock;
       s2 \<leftarrow> State_Monad.get;
       ret (if w_active s2 then Some d else None) } }"
  by (simp add: sync_tick_def round_work_def Let_def cong: if_cong)

text \<open>Reading the device does not read the clock.\<close>

definition same_os :: "('db, 'hw, 'a) server_scheme \<Rightarrow> ('db, 'hw, 'a) server_scheme \<Rightarrow> bool" where
  "same_os s t \<longleftrightarrow> os_time t = os_time s \<and> os_ticks t = os_ticks s \<and> w_last_time_sync t = w_last_time_sync s"

lemma same_os_rel: "reflp same_os" "transp same_os"
  by (rule reflpI, simp add: same_os_def) (rule transpI, simp add: same_os_def)

lemma same_os_check: "state_io_rel same_os (check_clock A)"
proof -
  have calls: "state_io_rel (same_os :: ('a, 'b, 'c) server_scheme \<Rightarrow> _) (hw_rc A c)"
    "state_io_rel (same_os :: ('a, 'b, 'c) server_scheme \<Rightarrow> _) (hw_handle A c)"
    "state_io_rel (same_os :: ('a, 'b, 'c) server_scheme \<Rightarrow> _) (hw_u64 A c)"
    "state_io_rel (same_os :: ('a, 'b, 'c) server_scheme \<Rightarrow> _) (hw_void A c)" for c
    by (simp_all add: state_io_rel_def same_os_def hw_rc_def hw_handle_def hw_u64_def hw_void_def)
  show ?thesis
    unfolding check_clock_def with_info_def info_get_def by (intro frame calls same_os_rel)
qed

text \<open>Calls that were made.\<close>

definition made :: "(wcall \<Rightarrow> bool) \<Rightarrow> ('db, 'hw, 'a) server_scheme \<Rightarrow> ('db, 'hw, 'a) server_scheme \<Rightarrow> bool" where
  "made C s t \<longleftrightarrow> (\<exists>ext. w_trace t = w_trace s @ ext \<and> list_ex (\<lambda>e. C (fst e)) ext)"

lemma stays_trace: "stays C s t \<Longrightarrow> \<exists>ext. w_trace t = w_trace s @ ext"
  unfolding stays_def by blast

lemma made_later: "made C s t \<Longrightarrow> stays D t u \<Longrightarrow> made C s u"
  by (auto simp: made_def dest!: stays_trace)

lemma made_before: "stays D s t \<Longrightarrow> made C t u \<Longrightarrow> made C s u"
  by (auto simp: made_def dest!: stays_trace)

lemma made_call: "C c \<Longrightarrow> wp (hw_rc A c) (\<lambda>_ t. made C s t) s"
  by (auto simp: hw_rc_def wps made_def)

lemma wp_made_first:
  assumes "wp m (\<lambda>_ t. made C s t) s" and "\<And>x. state_io_rel (stays D) (f x)"
  shows "wp (State_Monad.bind m f) (\<lambda>_ t. made C s t) s"
  by (rule wp_seq [OF assms(1)], rule wp_mono [OF wp_stays [OF assms(2)]]) (rule made_later)

lemma wp_made_rest:
  assumes "state_io_rel (stays D) m" and "\<And>x t. stays D s t \<Longrightarrow> wp (f x) (\<lambda>_ u. made C t u) t"
  shows "wp (State_Monad.bind m f) (\<lambda>_ t. made C s t) s"
  by (rule wp_seq [OF wp_stays [OF assms(1)]], rule wp_mono [OF assms(2)], assumption) (rule made_before)

fun is_self_test :: "wcall \<Rightarrow> bool" where
  "is_self_test (Run_self_test _ _) = True"
| "is_self_test _ = False"

fun is_time_login :: "wcall \<Rightarrow> bool" where
  "is_time_login (User_login _ u _) = (u = WORM_USER_TIME_ADMIN)"
| "is_time_login _ = False"

lemma made_get: "wp (f s) (\<lambda>_ t. made C s t) s \<Longrightarrow> wp (State_Monad.bind State_Monad.get f) (\<lambda>_ t. made C s t) s"
  by (simp add: wps)

lemma stays_self_test_rest:
  "state_io_rel (stays clockwork) (if rc = WORM_ERROR_NOERROR then do {
       _ \<leftarrow> db_set_setting E ''worm_known_client'' candidate;
       ret () }
     else if b then do {
       reg_rc \<leftarrow> register_as_admin A ''cloudtse-startup'';
       if reg_rc = WORM_ERROR_NOERROR then do {
         rc2 \<leftarrow> hw_rc A (Run_self_test st ''cloudtse-startup'');
         if rc2 = WORM_ERROR_NOERROR then do {
           _ \<leftarrow> db_set_setting E ''worm_known_client'' ''cloudtse-startup'';
           worm_client_mark_registered ''cloudtse-startup'' }
         else ret () }
       else ret () }
     else ret ())"
  by (intro stays_intros) auto

lemma forced_self_test:
  assumes "w_ptr s P_run_self_test"
  shows "wp (ensure_self_test_passed A E True) (\<lambda>_ t. made is_self_test s t) s"
proof -
  have "wp (run_self_test_with A E c) (\<lambda>_ u. made is_self_test t u) t" for c t
    unfolding run_self_test_with_def
    by (rule made_get, rule wp_made_first [where D = clockwork], rule made_call, simp,
        rule stays_self_test_rest)
  then show ?thesis
    unfolding ensure_self_test_passed_def Let_def using assms
    by (intro made_get, simp, intro wp_made_rest [where D = clockwork] stays_intros)
qed


text \<open>A synchronisation can be tried: a PIN is configured and the library has the calls.\<close>

definition can_sync :: "('db, 'hw, 'a) server_scheme \<Rightarrow> bool" where
  "can_sync s \<longleftrightarrow> cfg_worm_time_admin_pin (g_config s) \<noteq> [] \<and> w_ptr s P_user_login \<and> w_ptr s P_update_time
     \<and> w_ptr s P_user_logout"

lemma can_sync_stays: "stays C s t \<Longrightarrow> can_sync t = can_sync s"
  by (simp add: stays_def can_sync_def)

lemma sync_logs_in:
  assumes "can_sync s"
  shows "wp (perform_time_sync A E) (\<lambda>_ t. made is_time_login s t) s"
proof -
  have login: "wp (worm_user_login_call A WORM_USER_TIME_ADMIN pin) (\<lambda>_ u. made is_time_login t u) t" for pin t
    unfolding worm_user_login_call_def by (rule made_get, rule made_call) simp
  show ?thesis
    unfolding perform_time_sync_def Let_def
    by (rule made_get, use assms in \<open>simp add: can_sync_def\<close>, rule wp_made_rest [where D = clockwork],
        intro stays_intros, simp, rule wp_made_first [where D = clockwork], rule login, intro stays_intros) auto
qed

definition same_last :: "('db, 'hw, 'a) server_scheme \<Rightarrow> ('db, 'hw, 'a) server_scheme \<Rightarrow> bool" where
  "same_last s t \<longleftrightarrow> w_last_time_sync t = w_last_time_sync s"

lemma same_last_rel: "reflp same_last" "transp same_last"
  by (rule reflpI, simp add: same_last_def) (rule transpI, simp add: same_last_def)

lemma same_last_self_test: "state_io_rel same_last (ensure_self_test_passed A E force)"
proof -
  have calls: "state_io_rel (same_last :: ('a, 'b, 'c) server_scheme \<Rightarrow> _) (hw_rc A c)"
    "state_io_rel (same_last :: ('a, 'b, 'c) server_scheme \<Rightarrow> _) (hw_handle A c)"
    "state_io_rel (same_last :: ('a, 'b, 'c) server_scheme \<Rightarrow> _) (hw_u64 A c)"
    "state_io_rel (same_last :: ('a, 'b, 'c) server_scheme \<Rightarrow> _) (hw_void A c)"
    "state_io_rel (same_last :: ('a, 'b, 'c) server_scheme \<Rightarrow> _) (worm_client_mark_registered cl)"
    "state_io_rel (same_last :: ('a, 'b, 'c) server_scheme \<Rightarrow> _) (sql_run E q)" for c cl q
    by (simp_all add: state_io_rel_def same_last_def hw_rc_def hw_handle_def hw_u64_def hw_void_def
        worm_client_mark_registered_def)
  show ?thesis
    unfolding ensure_self_test_passed_def worm_has_passed_self_test_def run_self_test_with_def with_info_def
      register_as_admin_def worm_user_login_call_def worm_user_logout_call_def db_get_setting_def db_set_setting_def Let_def
    by (intro frame calls same_last_rel)
qed

lemma renew_in_round:
  "wp (if due then do {
         _ \<leftarrow> ensure_self_test_passed A E True;
         (if scheduled then do { _ \<leftarrow> perform_time_sync A E; ret () } else ret ()) }
       else ret ())
     (\<lambda>_ t. stays clockwork s t \<and> (due \<and> w_ptr s P_run_self_test \<longrightarrow> made is_self_test s t)
       \<and> (\<not> scheduled \<longrightarrow> w_last_time_sync t = w_last_time_sync s)
       \<and> (due \<and> scheduled \<and> can_sync s \<longrightarrow> made is_time_login s t)) s"
proof (cases due)
  case False
  then show ?thesis by (simp add: wps reflpD [OF stays_refl])
next
  case due: True
  have test: "wp (ensure_self_test_passed A E True) (\<lambda>_ t. stays clockwork s t \<and> same_last s t
      \<and> (w_ptr s P_run_self_test \<longrightarrow> made is_self_test s t)) s"
    using io_poststateD [OF same_last_self_test] forced_self_test [of s A E]
      io_poststateD [OF stays_ensure_self_test [of clockwork A E True], of s]
    by (simp add: wp_run)
  have "wp (do { _ \<leftarrow> ensure_self_test_passed A E True;
         (if scheduled then do { _ \<leftarrow> perform_time_sync A E; ret () } else ret ()) })
     (\<lambda>_ t. stays clockwork s t \<and> (w_ptr s P_run_self_test \<longrightarrow> made is_self_test s t)
       \<and> (\<not> scheduled \<longrightarrow> w_last_time_sync t = w_last_time_sync s)
       \<and> (scheduled \<and> can_sync s \<longrightarrow> made is_time_login s t)) s"
  proof (rule wp_seq [OF test])
    fix x t assume t: "stays clockwork s t \<and> same_last s t \<and> (w_ptr s P_run_self_test \<longrightarrow> made is_self_test s t)"
    have sync: "wp (perform_time_sync A E) (\<lambda>_ u. stays clockwork t u \<and> (can_sync t \<longrightarrow> made is_time_login t u)) t"
      using sync_logs_in [of t A E] io_poststateD [OF stays_sync [of clockwork A E], of t] by (simp add: wp_run)
    show "wp (if scheduled then do { _ \<leftarrow> perform_time_sync A E; ret () } else ret ())
     (\<lambda>_ t. stays clockwork s t \<and> (w_ptr s P_run_self_test \<longrightarrow> made is_self_test s t)
       \<and> (\<not> scheduled \<longrightarrow> w_last_time_sync t = w_last_time_sync s)
       \<and> (scheduled \<and> can_sync s \<longrightarrow> made is_time_login s t)) t"
    proof (cases scheduled)
      case False
      then show ?thesis using t by (simp add: wps same_last_def)
    next
      case True
      have "wp (perform_time_sync A E)
        (\<lambda>_ u. stays clockwork s u \<and> (w_ptr s P_run_self_test \<longrightarrow> made is_self_test s u)
          \<and> (can_sync s \<longrightarrow> made is_time_login s u)) t"
        using t by (intro wp_mono [OF sync])
          (auto simp: can_sync_stays intro: made_later made_before transpD [OF stays_trans])
      then show ?thesis using True by (simp add: wps)
    qed
  qed
  then show ?thesis using due by simp
qed

lemma wp_value: "run_state m s = (x, t) \<Longrightarrow> wp m Q s = Q x t"
  by (simp add: wp_def)

lemma round_done:
  fixes A :: "'hw worm_api" and s :: "('db, 'hw, 'a) server_scheme"
  defines "ck \<equiv> value_of (check_clock A) s" and "now \<equiv> os_time s (os_ticks s)"
  shows "wp (round_work A E cfg loc last_day)
     (\<lambda>d t. stays clockwork s t
       \<and> d = (if scheduled_now cfg (loc now) last_day then day_stamp (loc now) else last_day)
       \<and> (self_test_due ck (scheduled_now cfg (loc now) last_day) \<and> w_ptr s P_run_self_test
           \<longrightarrow> made is_self_test s t)
       \<and> ((scheduled_now cfg (loc now) last_day \<or> sync_due ck (w_last_time_sync s) now) \<and> can_sync s
           \<longrightarrow> made is_time_login s t)) s"
proof -
  define sched where "sched = scheduled_now cfg (loc now) last_day"
  obtain s1 where run1: "run_state (check_clock A) s = (ck, s1)" by (metis ck_def prod.collapse)
  have s1: "stays clockwork s s1" "same_os s s1"
    using io_poststateD [OF stays_check_clock [of clockwork A], of s] io_poststateD [OF same_os_check [of A], of s] run1
    by simp_all
  let ?s2 = "s1\<lparr>os_ticks := Suc (os_ticks s1)\<rparr>"
  have run2: "run_state time_now s1 = (now, ?s2)" using s1(2) by (simp add: same_os_def now_def)
  have s2: "stays clockwork s ?s2" "w_last_time_sync ?s2 = w_last_time_sync s"
    using s1 by (simp_all add: stays_def same_os_def)
  have due: "sched \<Longrightarrow> self_test_due ck sched" by (simp add: self_test_due_def)
  have "wp (do {
     _ \<leftarrow> (if self_test_due ck sched then do {
             _ \<leftarrow> ensure_self_test_passed A E True;
             (if sched then do { _ \<leftarrow> perform_time_sync A E; ret () } else ret ()) }
           else ret ());
     s1 \<leftarrow> State_Monad.get;
     _ \<leftarrow> (if sync_due ck (w_last_time_sync s1) now \<and> \<not> sched
           then do { _ \<leftarrow> perform_time_sync A E; ret () } else ret ());
     ret (if sched then day_stamp (loc now) else last_day) })
     (\<lambda>d t. stays clockwork s t \<and> d = (if sched then day_stamp (loc now) else last_day)
       \<and> (self_test_due ck sched \<and> w_ptr s P_run_self_test \<longrightarrow> made is_self_test s t)
       \<and> ((sched \<or> sync_due ck (w_last_time_sync s) now) \<and> can_sync s \<longrightarrow> made is_time_login s t)) ?s2"
  proof (rule wp_seq [OF renew_in_round], goal_cases)
    case (1 x t)
    have ptr: "w_ptr ?s2 = w_ptr s" "can_sync ?s2 = can_sync s" by (simp_all add: can_sync_stays [OF s2(1)]) (use s2(1) in \<open>simp add: stays_def\<close>)
    have t: "stays clockwork s t" "self_test_due ck sched \<and> w_ptr s P_run_self_test \<longrightarrow> made is_self_test s t"
      "sched \<and> can_sync s \<longrightarrow> made is_time_login s t" "\<not> sched \<longrightarrow> w_last_time_sync t = w_last_time_sync s"
      using 1 s2 ptr due by (auto intro: transpD [OF stays_trans] made_before)
    have sync: "wp (perform_time_sync A E) (\<lambda>_ u. stays clockwork t u \<and> (can_sync t \<longrightarrow> made is_time_login t u)) t"
      using sync_logs_in [of t A E] io_poststateD [OF stays_sync [of clockwork A E], of t] by (simp add: wp_run)
    have "wp (if sync_due ck (w_last_time_sync t) now \<and> \<not> sched
           then do { _ \<leftarrow> perform_time_sync A E; ret () } else ret ())
      (\<lambda>_ u. stays clockwork s u \<and> (self_test_due ck sched \<and> w_ptr s P_run_self_test \<longrightarrow> made is_self_test s u)
        \<and> ((sched \<or> sync_due ck (w_last_time_sync s) now) \<and> can_sync s \<longrightarrow> made is_time_login s u)) t"
    proof (cases "sync_due ck (w_last_time_sync t) now \<and> \<not> sched")
      case False
      then show ?thesis using t by (auto simp: wps)
    next
      case True
      have "wp (perform_time_sync A E)
        (\<lambda>_ u. stays clockwork s u \<and> (self_test_due ck sched \<and> w_ptr s P_run_self_test \<longrightarrow> made is_self_test s u)
          \<and> (can_sync s \<longrightarrow> made is_time_login s u)) t"
        using t by (intro wp_mono [OF sync])
          (auto simp: can_sync_stays intro: made_later made_before transpD [OF stays_trans])
      then have "wp (do { _ \<leftarrow> perform_time_sync A E; ret () })
        (\<lambda>_ u. stays clockwork s u \<and> (self_test_due ck sched \<and> w_ptr s P_run_self_test \<longrightarrow> made is_self_test s u)
          \<and> ((sched \<or> sync_due ck (w_last_time_sync s) now) \<and> can_sync s \<longrightarrow> made is_time_login s u)) t"
        unfolding wps by (rule wp_mono) blast
      then show ?thesis unfolding if_P [OF True] .
    qed
    then show ?case by (simp add: wps)
  qed
  then show ?thesis
    unfolding round_work_def Let_def sched_def wp_bind [of "check_clock A"] wp_bind [of time_now]
    by (simp only: wp_value [OF run1] wp_value [OF run2])
qed


lemma tick_done:
  fixes A :: "'hw worm_api" and s :: "('db, 'hw, 'a) server_scheme"
  assumes "\<not> w_mu s" "w_active s"
  defines "ck \<equiv> value_of (check_clock A) (s\<lparr>w_mu := True\<rparr>)" and "now \<equiv> os_time s (os_ticks s)"
  shows "wp (sync_tick A E last_day)
     (\<lambda>r t. stays clockwork s t
       \<and> r = Some (if scheduled_now (g_config s) (localtime s now) last_day then day_stamp (localtime s now) else last_day)
       \<and> (self_test_due ck (scheduled_now (g_config s) (localtime s now) last_day) \<and> w_ptr s P_run_self_test
           \<longrightarrow> made is_self_test s t)
       \<and> ((scheduled_now (g_config s) (localtime s now) last_day \<or> sync_due ck (w_last_time_sync s) now) \<and> can_sync s
           \<longrightarrow> made is_time_login s t)) s"
proof -
  let ?s = "s\<lparr>w_mu := True\<rparr>"
  have frames: "made C s (t\<lparr>w_mu := False\<rparr>) = made C ?s t" "can_sync ?s = can_sync s" for C and t :: "('db, 'hw, 'a) server_scheme"
    by (simp_all add: made_def can_sync_def)
  have loc: "localtime ?s = localtime s" by (simp add: localtime_def fun_eq_iff)
  have active: "stays clockwork ?s t \<Longrightarrow> w_active t" for t using assms(2) by (simp add: stays_def)
  let ?Q = "\<lambda>r t. stays clockwork s t
       \<and> r = Some (if scheduled_now (g_config s) (localtime s now) last_day then day_stamp (localtime s now) else last_day)
       \<and> (self_test_due ck (scheduled_now (g_config s) (localtime s now) last_day) \<and> w_ptr s P_run_self_test
           \<longrightarrow> made is_self_test s t)
       \<and> ((scheduled_now (g_config s) (localtime s now) last_day \<or> sync_due ck (w_last_time_sync s) now) \<and> can_sync s
           \<longrightarrow> made is_time_login s t)"
  have "wp (do {
       d \<leftarrow> round_work A E (g_config s) (localtime s) last_day;
       _ \<leftarrow> mu_unlock;
       s2 \<leftarrow> State_Monad.get;
       ret (if w_active s2 then Some d else None) }) ?Q ?s"
    by (rule wp_seq [OF round_done])
      (use active in \<open>auto simp: wps wp_unlock frames stays_locked [OF assms(1)] ck_def now_def\<close>)
  then show ?thesis
    unfolding sync_tick_eq wp_bind [of mu_lock] wp_lock [OF assms(1)] wp_bind [of State_Monad.get "\<lambda>s. if _ s then _ s else _ s"] wp_get
    using assms(2) by (simp add: loc)
qed

lemma tick_idle:
  "\<not> w_mu s \<Longrightarrow> \<not> w_active s \<Longrightarrow> run_state (sync_tick A E last_day) s = (None, s)"
  by (simp add: sync_tick_def mu_lock_def mu_unlock_def)



section \<open>Everything the client does\<close>

text \<open>
  The operations of a running client, in any order and with any arguments.  The context of an export's
  callback is what it was given so far: any other is a function of that.
\<close>

inductive client_step ::
  "'hw worm_api \<Rightarrow> 'db engine \<Rightarrow> ('db, 'hw, 'a) station_scheme \<Rightarrow> ('db, 'hw, 'a) station_scheme \<Rightarrow> bool"
  for A :: "'hw worm_api" and E :: "'db engine" where
  register: "client_step A E s (poststate (tse_worm_register_client A E client) s)"
| start: "client_step A E s (poststate (tse_worm_start_transaction A E client n) s)"
| finish: "client_step A E s (poststate (tse_worm_finish_transaction A E client num pdata k n) s)"
| info: "client_step A E s (poststate (tse_worm_fill_info A info0) s)"
| prepare: "client_step A E s (poststate (tse_worm_export_prepare A E) s)"
| export: "client_step A E s (poststate (tse_worm_export_tar A E cb (ctx :: u8 list list)) s)"
| tick: "client_step A E s (poststate (sync_tick A E last_day) s)"
| shutdown: "client_step A E s (poststate (tse_worm_shutdown A) s)"

inductive client_reaches ::
  "'hw worm_api \<Rightarrow> 'db engine \<Rightarrow> bool \<Rightarrow> ('db, 'hw, 'a) station_scheme \<Rightarrow> ('db, 'hw, 'a) station_scheme \<Rightarrow> bool"
  for A :: "'hw worm_api" and E :: "'db engine" and mem :: bool and s :: "('db, 'hw, 'a) station_scheme" where
  boot: "client_reaches A E mem s (poststate (tse_worm_init A E mem) s)"
| more: "client_reaches A E mem s t \<Longrightarrow> client_step A E t u \<Longrightarrow> client_reaches A E mem s u"

lemma client_ok_stays: "stays C s t \<Longrightarrow> client_ok s \<Longrightarrow> client_ok t"
  using client_ok_serves stays_serves by blast

lemma client_step_ok:
  assumes "client_step A E s t" "client_ok s"
  shows "client_ok t"
  using assms
proof (induction rule: client_step.induct)
  case (register s client)
  then have "\<not> w_mu s" by (simp add: client_ok_def)
  from register_client_stays [OF this, of A E client] register show ?case by (auto simp: wp_run intro: client_ok_stays)
next
  case (start s client n)
  then have "\<not> w_mu s" by (simp add: client_ok_def)
  from start_transaction_resp [OF this, of A E client n] start show ?case by (auto simp: wp_run resp_def intro: client_ok_stays)
next
  case (finish s client num pdata k n)
  then have "\<not> w_mu s" by (simp add: client_ok_def)
  from finish_transaction_resp [OF this, of A E client num pdata k n] finish show ?case by (auto simp: wp_run resp_def intro: client_ok_stays)
next
  case (info s info0)
  have "state_io_rel (stays (\<lambda>_. True)) (tse_worm_fill_info A info0)"
    unfolding tse_worm_fill_info_def Let_def by (intro stays_intros) auto
  from io_poststateD [OF this] info show ?case by (rule client_ok_stays)
next
  case (prepare s)
  then have "\<not> w_mu s" by (simp add: client_ok_def)
  from export_prepare_stays [OF this, of A E] prepare show ?case by (auto simp: wp_run intro: client_ok_stays)
next
  case (export s cb ctx)
  then have "\<not> w_mu s" by (simp add: client_ok_def)
  from export_tar_stays [OF this, of A E cb ctx] export show ?case by (auto simp: wp_run intro: client_ok_stays)
next
  case (tick s last_day)
  then have "\<not> w_mu s" by (simp add: client_ok_def)
  from tick_done [OF this, where A = A and E = E and last_day = last_day] tick_idle [OF this, of A E last_day] tick show ?case
    by (cases "w_active s") (auto simp: wp_run intro: client_ok_stays)
next
  case (shutdown s)
  from shutdown_ok [OF shutdown] show ?case by (simp add: wp_run)
qed

lemma client_reaches_ok: "client_reaches A E mem s t \<Longrightarrow> client_cold s \<Longrightarrow> client_ok t"
  by (induction rule: client_reaches.induct) (auto simp: wp_run dest: init_ready client_step_ok)

section \<open>Provisioning\<close>

text \<open>
  A set-up only after the device said that it is not initialised, and after each reading only one.
  The first argument: the last reading was 0, and no set-up followed.
\<close>

fun setup_guarded :: "bool \<Rightarrow> (wcall \<times> int) list \<Rightarrow> bool" where
  "setup_guarded blank [] = True"
| "setup_guarded blank ((c, r) # es) =
     (case c of
        Tse_setup _ _ _ _ _ _ \<Rightarrow> blank \<and> setup_guarded False es
      | Info_u64 p _ \<Rightarrow> setup_guarded (if p = P_init_state then r = 0 else blank) es
      | _ \<Rightarrow> setup_guarded blank es)"

definition setups :: "(wcall \<times> int) list \<Rightarrow> (wcall \<times> int) list" where
  "setups es = filter (\<lambda>e. is_setup (fst e)) es"

lemma no_setups: "list_all (\<lambda>e. \<not> is_setup (fst e)) es \<Longrightarrow> setup_guarded blank es \<and> setups es = []"
  by (induction blank es rule: setup_guarded.induct) (auto simp: setups_def split: wcall.splits)

lemma setup_guarded_append:
  "list_all (\<lambda>e. \<not> is_setup (fst e)) es \<Longrightarrow> (\<And>b. setup_guarded b fs) \<Longrightarrow> setup_guarded blank (es @ fs)"
  by (induction blank es rule: setup_guarded.induct) (auto split: wcall.splits)

lemma setup_guarded_before:
  "setup_guarded blank es \<Longrightarrow> list_all (\<lambda>e. \<not> is_setup (fst e)) fs \<Longrightarrow> setup_guarded blank (es @ fs)"
  by (induction blank es rule: setup_guarded.induct) (auto simp: no_setups split: wcall.splits)


definition without_setup :: "('db, 'hw, 'a) server_scheme \<Rightarrow> ('db, 'hw, 'a) server_scheme \<Rightarrow> bool" where
  "without_setup s t \<longleftrightarrow> (\<exists>ext. w_trace t = w_trace s @ ext \<and> list_all (\<lambda>e. \<not> is_setup (fst e)) ext)"

definition guarded :: "('db, 'hw, 'a) server_scheme \<Rightarrow> ('db, 'hw, 'a) server_scheme \<Rightarrow> bool" where
  "guarded s t \<longleftrightarrow> (\<exists>ext. w_trace t = w_trace s @ ext \<and> (\<forall>b. setup_guarded b ext) \<and> length (setups ext) \<le> 1)"

lemma without_setup_guarded: "without_setup s t \<Longrightarrow> guarded s t"
  unfolding without_setup_def guarded_def using no_setups by fastforce

lemma guarded_trans:
  assumes "without_setup s t" "guarded t u" "without_setup u v"
  shows "guarded s v"
proof -
  obtain e1 where e1: "w_trace t = w_trace s @ e1" "list_all (\<lambda>e. \<not> is_setup (fst e)) e1"
    using assms(1) by (auto simp: without_setup_def)
  obtain e2 where e2: "w_trace u = w_trace t @ e2" "\<And>b. setup_guarded b e2" "length (setups e2) \<le> 1"
    using assms(2) by (auto simp: guarded_def)
  obtain e3 where e3: "w_trace v = w_trace u @ e3" "list_all (\<lambda>e. \<not> is_setup (fst e)) e3"
    using assms(3) by (auto simp: without_setup_def)
  have "setup_guarded b (e1 @ e2 @ e3)" for b
    using setup_guarded_append [OF e1(2) setup_guarded_before [OF e2(2) e3(2)]] .
  moreover have "setups (e1 @ e2 @ e3) = setups e2"
    using no_setups [OF e1(2)] no_setups [OF e3(2)] by (simp add: setups_def)
  ultimately show ?thesis
    unfolding guarded_def using e1(1) e2(1,3) e3(1) by (intro exI [of _ "e1 @ e2 @ e3"]) simp
qed

lemma without_setup_refl: "without_setup s s"
  by (simp add: without_setup_def)

lemma serves_without_setup: "serves C s t \<Longrightarrow> (\<And>c. C c \<Longrightarrow> \<not> is_setup c) \<Longrightarrow> without_setup s t"
  unfolding serves_def without_setup_def by (fastforce simp: list_all_iff)

lemma wp_guarded_first:
  assumes "\<And>s. wp m (\<lambda>_ t. without_setup s t) s" and "\<And>x t. wp (f x) (\<lambda>_ u. guarded t u) t"
  shows "wp (State_Monad.bind m f) (\<lambda>_ t. guarded s t) s"
  by (rule wp_seq [OF assms(1)], rule wp_mono [OF assms(2)]) (rule guarded_trans [OF _ _ without_setup_refl])

lemma wp_guarded_after:
  assumes "wp m (\<lambda>_ t. guarded s t) s" and "\<And>x t. wp (f x) (\<lambda>_ u. without_setup t u) t"
  shows "wp (State_Monad.bind m f) (\<lambda>_ t. guarded s t) s"
  by (rule wp_seq [OF assms(1)], rule wp_mono [OF assms(2)]) (rule guarded_trans [OF without_setup_refl])

lemma wp_without_setup:
  assumes "state_io_rel (serves C) m" and "\<And>c. C c \<Longrightarrow> \<not> is_setup c"
  shows "wp m (\<lambda>_ t. without_setup s t) s"
  by (rule wp_io [OF assms(1)]) (rule serves_without_setup [OF _ assms(2)])

lemma init_state_read:
  "wp (tse_init_state A) (\<lambda>r t. \<exists>ext. w_trace t = w_trace s @ ext \<and> list_all (\<lambda>e. \<not> is_setup (fst e)) ext
     \<and> (r = Some 0 \<longrightarrow> (\<forall>b fs. setup_guarded b (ext @ fs) = setup_guarded True fs))) s"
  by (auto simp: tse_init_state_def with_info_def wps hw_handle_def hw_rc_def hw_u64_def hw_void_def)

lemma run_setup_guarded:
  "wp (run_setup A seed puk pin time_pin) (\<lambda>_ t. \<exists>ext. w_trace t = w_trace s @ ext
     \<and> setup_guarded True ext \<and> length (setups ext) \<le> 1) s"
  by (auto simp: run_setup_def wps Let_def hw_rc_def worm_client_mark_registered_def setups_def)

lemma serves_none: "serves (\<lambda>_. False) s t \<Longrightarrow> w_trace t = w_trace s"
  unfolding serves_def by (metis append_Nil2 list.pred_inject(2) neq_Nil_conv)

lemma provisioned_guarded: "wp (ensure_tse_provisioned A E) (\<lambda>_ t. guarded s t) s"
proof -
  have quiet: "wp (load_or_generate_credential E key configured n k) (\<lambda>_ t. w_trace t = w_trace s) s"
    for key configured n k and s :: "('a, 'b, 'c) station_scheme"
    by (rule wp_io [OF serves_credential]) (rule serves_none)
  show ?thesis
    unfolding ensure_tse_provisioned_def
  proof (rule wp_seq [OF init_state_read], goal_cases)
    case (1 r t)
    then obtain ext where ext: "w_trace t = w_trace s @ ext" "list_all (\<lambda>e. \<not> is_setup (fst e)) ext"
      "r = Some 0 \<Longrightarrow> setup_guarded b (ext @ fs) = setup_guarded True fs" for b fs by blast
    show ?case
    proof (cases "r = Some 0")
      case False
      then show ?thesis using ext(1,2) by (auto simp: wps intro!: without_setup_guarded simp: without_setup_def)
    next
      case True
      have goal: "guarded s u" if "\<exists>e. w_trace u = w_trace t @ e \<and> setup_guarded True e \<and> length (setups e) \<le> 1" for u
        using that ext(1) ext(3) [OF True] no_setups [OF ext(2)]
        by (auto simp: guarded_def setups_def)
      have "wp (do { pin \<leftarrow> load_or_generate_credential E ''worm_admin_pin'' c1 16 5;
         puk \<leftarrow> load_or_generate_credential E ''worm_admin_puk'' c2 16 6;
         time_pin \<leftarrow> load_or_generate_credential E ''worm_time_admin_pin'' c3 16 5;
         run_setup A seed puk pin time_pin }) (\<lambda>_ u. guarded s u) t" for c1 c2 c3 seed
        by (rule wp_seq [OF quiet], rule wp_seq [OF quiet], rule wp_seq [OF quiet], rule wp_mono [OF run_setup_guarded],
            rule goal) simp
      then show ?thesis
        using True by (simp add: wp_bind [of State_Monad.get] wp_get Let_def)
    qed
  qed
qed

lemma prepared_guarded: "wp (prepare_device A E mem) (\<lambda>_ t. guarded s t) s"
  unfolding prepare_device_def
proof (rule wp_guarded_first, rule wp_without_setup, intro serves_intros, assumption, assumption,
    rule wp_guarded_first, rule wp_without_setup, intro serves_intros, assumption, assumption,
    rule wp_guarded_after, rule provisioned_guarded)
  fix x and t :: "('a, 'b, 'c) station_scheme"
  show "wp (do { _ \<leftarrow> ensure_self_test_passed A E False;
     valid \<leftarrow> worm_has_valid_time A;
     _ \<leftarrow> (if \<not> valid then do { _ \<leftarrow> perform_time_sync A E; ret () } else ret ());
     log_worm_diagnostics A }) (\<lambda>_ u. without_setup t u) t"
    by (rule wp_without_setup [where C = clockwork], intro serves_intros) simp_all
qed

lemma opens_without_setup:
  assumes "opens m"
  shows "wp m (\<lambda>_ t. without_setup s t) s"
proof (rule wp_mono [OF assms [unfolded opens_def, rule_format]])
  fix ok t
  assume "serves is_opening s (t\<lparr>w_store := w_store s\<rparr>) \<and> (if ok then w_store t \<noteq> 0 else w_store t \<in> {0, w_store s})"
  then have "without_setup s (t\<lparr>w_store := w_store s\<rparr>)" using serves_without_setup not_setup(2) by blast
  then show "without_setup s t" by (simp add: without_setup_def)
qed

lemma unload_without_setup: "wp (unload b) (\<lambda>_ t. without_setup s t) s"
  by (rule wp_mono [OF unload_keeps]) (auto intro: serves_without_setup)

lemma activate_without_setup: "wp (do { _ \<leftarrow> activate; ret x }) (\<lambda>_ t. without_setup s t) s"
  by (simp add: activate_def wps without_setup_def split: prod.split)

lemma load_without_setup: "wp (load_symbols syms) (\<lambda>_ t. without_setup s t) s"
  by (simp add: load_symbols_def wps without_setup_def Let_def split: prod.split)

lemma wp_guarded_if:
  "(b \<Longrightarrow> wp m (\<lambda>_ t. guarded s t) s) \<Longrightarrow> (\<not> b \<Longrightarrow> wp n (\<lambda>_ t. guarded s t) s) \<Longrightarrow>
   wp (if b then m else n) (\<lambda>_ t. guarded s t) s"
  by simp

lemma wp_guarded_unset: "wp m (\<lambda>_ t. without_setup s t) s \<Longrightarrow> wp m (\<lambda>_ t. guarded s t) s"
  by (erule wp_mono) (rule without_setup_guarded)

lemma wp_guarded_option:
  "wp m (\<lambda>_ t. guarded s t) s \<Longrightarrow> (\<And>y. wp (f y) (\<lambda>_ t. guarded s t) s) \<Longrightarrow>
   wp (case x of None \<Rightarrow> m | Some y \<Rightarrow> f y) (\<lambda>_ t. guarded s t) s"
  by (cases x) simp_all

lemma return_without_setup: "wp (ret x) (\<lambda>_ t. without_setup s t) s"
  by (simp add: wps without_setup_refl)

lemma init_guarded: "wp (tse_worm_init A E mem) (\<lambda>_ t. guarded s t) s"
proof -
  have step: "wp (modify (\<lambda>s. s\<lparr>g_block := b\<rparr>)) (\<lambda>_ t. without_setup s t) s"
    "wp (modify (\<lambda>s. s\<lparr>g_lib := l\<rparr>)) (\<lambda>_ t. without_setup s t) s"
    "wp State_Monad.get (\<lambda>_ t. without_setup s t) s" for b l and s :: "('a, 'b, 'c) station_scheme"
    by (simp_all add: wps without_setup_def)
  have find: "wp (if legacy then ret True else ensure_block_open) (\<lambda>_ t. without_setup s t) s"
    for legacy and s :: "('a, 'b, 'c) station_scheme"
    by (rule wp_without_setup [where C = "\<lambda>_. False"], intro serves_intros) simp
  have open_it: "wp (if legacy then open_legacy A else open_device_store A) (\<lambda>_ t. without_setup s t) s"
    for legacy and s :: "('a, 'b, 'c) station_scheme"
    by (rule opens_without_setup, intro opens_if opens_open_legacy opens_device_store)
  have ready: "wp (do { _ \<leftarrow> prepare_device A E mem; _ \<leftarrow> activate; ret True }) (\<lambda>_ t. guarded s t) s"
    for s :: "('a, 'b, 'c) station_scheme"
    by (rule wp_guarded_after, rule prepared_guarded, rule activate_without_setup)
  have rest: "wp (do { loaded \<leftarrow> load_symbols syms;
          if \<not> loaded then unload True
          else do {
            s1 \<leftarrow> State_Monad.get;
            found \<leftarrow> (if w_legacy s1 then ret True else ensure_block_open);
            if \<not> found then unload False
            else do {
              opened \<leftarrow> (if w_legacy s1 then open_legacy A else open_device_store A);
              if \<not> opened then unload True
              else do { _ \<leftarrow> prepare_device A E mem; _ \<leftarrow> activate; ret True } } } }) (\<lambda>_ t. guarded s t) s"
    for syms and s :: "('a, 'b, 'c) station_scheme"
    by (intro wp_guarded_first load_without_setup wp_guarded_if wp_guarded_unset [OF unload_without_setup] step find
        open_it ready)
  show ?thesis
    unfolding tse_worm_init_def
    by (rule wp_guarded_first, rule step, rule wp_guarded_first, rule step)
      (intro wp_guarded_option wp_guarded_first step rest wp_guarded_unset [OF return_without_setup])
qed


section \<open>Credentials\<close>

lemma length_lcg [simp]: "length (lcg_bytes n seed) = n"
  by (induction n arbitrary: seed) (simp_all add: Let_def)

definition digit_count :: "nat \<Rightarrow> nat \<Rightarrow> nat" where
  "digit_count outlen digits = min (if outlen \<le> digits then outlen - 1 else digits) 16"

lemma generated_digits:
  "wp (generate_random_digits outlen digits) (\<lambda>v t. db_conn t = db_conn s
     \<and> length v = digit_count outlen digits \<and> list_all is_digit v) s"
  by (simp add: generate_random_digits_def util_random_bytes_def wps wp_option wp_def Let_def digit_count_def
      list_all_iff split: option.split)

lemma credential_once:
  assumes E: "sqlite_reliable E view" and schema: "t_schema (view (db_conn s))"
  shows "wp (load_or_generate_credential E key configured outlen digits) (\<lambda>v t.
     if configured \<noteq> [] then v = fit outlen configured \<and> view (db_conn t) = view (db_conn s)
     else case map_of (t_settings (view (db_conn s))) key of
            Some (c # cs) \<Rightarrow> (if fit 32 (c # cs) = [] then False
              else v = fit outlen (fit 32 (c # cs)) \<and> view (db_conn t) = view (db_conn s))
          | _ \<Rightarrow> length v = digit_count outlen digits \<and> list_all is_digit v
              \<and> map_of (t_settings (view (db_conn t))) key = Some v) s"
proof (cases "configured = []")
  case False
  then show ?thesis by (simp add: load_or_generate_credential_def wps)
next
  case configured: True
  obtain got t where get: "run_state (db_get_setting E key 32) s = (got, t)" by fastforce
  note rel = sqlite_reliable.value_db_get_setting [OF E, of s key 32] sqlite_reliable.tbl_db_get_setting [OF E, of key 32 s]
  from get rel schema have got: "got = map_option (fit 32) (map_of (t_settings (view (db_conn s))) key)"
    and t: "view (db_conn t) = view (db_conn s)" by simp_all
  have fresh: "wp (do { out \<leftarrow> generate_random_digits outlen digits; _ \<leftarrow> db_set_setting E key out; ret out })
     (\<lambda>v u. length v = digit_count outlen digits \<and> list_all is_digit v
        \<and> map_of (t_settings (view (db_conn u))) key = Some v) t"
  proof (rule wp_seq [OF generated_digits])
    fix v u assume v: "db_conn u = db_conn t \<and> length v = digit_count outlen digits \<and> list_all is_digit v"
    then have "t_schema (view (db_conn u))" using t schema by simp
    from sqlite_reliable.tbl_db_set_setting [OF E this, of key v] v
    show "wp (do { _ \<leftarrow> db_set_setting E key v; ret v })
     (\<lambda>v u. length v = digit_count outlen digits \<and> list_all is_digit v
        \<and> map_of (t_settings (view (db_conn u))) key = Some v) u"
      by (simp add: wps wp_run update_conv')
  qed
  show ?thesis
  proof (cases "map_of (t_settings (view (db_conn s))) key")
    case None
    then show ?thesis
      using configured got fresh by (simp add: load_or_generate_credential_def wp_bind wp_value [OF get])
  next
    case (Some st)
    then show ?thesis
      using configured got fresh t
      by (cases st) (simp_all add: load_or_generate_credential_def wp_bind wp_value [OF get] wp_return fit_def)
  qed
qed


section \<open>Properties\<close>

definition sample_station :: "(tables, unit) station" where
  "sample_station = host.extend (sample_host\<lparr>w_active := False, w_store := 0, w_ptr := (\<lambda>_. False)\<rparr>)
     (station.fields (\<lambda>_. Some (\<lambda>_. True)) 0 True False False)"

lemma sample_cold: "client_cold sample_station"
  by (simp add: client_cold_def sample_station_def station.defs sample_host_def server.defs host.defs sample_server_def)

text \<open>
  C12. Whatever the library, the device and the database do, and whatever operations follow the start
  in whatever order, the lock is free between operations and was never locked twice, an active client
  has an open store and the pointers its calls use, and an inactive one has no store, so no call of
  the library is made through a missing pointer or on a closed store.
\<close>

theorem client_always_ready:
  assumes "client_cold s" and "client_reaches A E mem s t"
  shows "\<not> w_mu t \<and> \<not> w_stuck t \<and> (if w_active t then w_store t \<noteq> 0 \<and> loaded t else w_store t = 0)"
  using client_reaches_ok [OF assms(2,1)] by (simp add: client_ok_def)

theorem client_always_ready_witness:
  "\<not> w_stuck (poststate (tse_worm_shutdown sample_api) (poststate (tse_worm_init sample_api sql_exec True) sample_station))"
  using client_always_ready [OF sample_cold client_reaches.more [OF client_reaches.boot client_step.shutdown],
      of sample_api sql_exec True] by simp

text \<open>
  C28. A start that fails, at whatever step, leaves the library unloaded, no store and no active client:
  the server goes on as a simulator.  A start that succeeds leaves the client active.
\<close>

theorem failed_start_unloads:
  assumes "client_cold s"
  shows "let (ok, t) = run_state (tse_worm_init A E mem) s in
    w_active t = ok \<and> (ok \<longrightarrow> w_store t \<noteq> 0 \<and> loaded t) \<and> (\<not> ok \<longrightarrow> w_store t = 0 \<and> \<not> g_lib t)"
  using init_ready [OF assms, of A E mem] by (auto simp: wp_def client_ok_def)

theorem failed_start_unloads_witness:
  "let (ok, t) = run_state (tse_worm_init sample_api sql_exec True) (sample_station\<lparr>lb_symbols := (\<lambda>_. None)\<rparr>) in
     \<not> ok \<and> \<not> g_lib t"
proof -
  have "client_cold (sample_station\<lparr>lb_symbols := (\<lambda>_. None)\<rparr>)" using sample_cold by (simp add: client_cold_def)
  from failed_start_unloads [OF this, of sample_api sql_exec True] show ?thesis
    by (simp add: tse_worm_init_def)
qed

text \<open>
  C20. A start sets a device up at most once, and only when the last thing the device said of its
  initialisation was that it is not: the changes of \<^verbatim>\<open>worm_tse_setup\<close> are permanent, and three
  failed attempts lock the device.
\<close>

theorem provisioned_once:
  "\<exists>ext. w_trace (poststate (tse_worm_init A E mem) s) = w_trace s @ ext
     \<and> setup_guarded False ext \<and> length (setups ext) \<le> 1"
  using init_guarded [of A E mem s] by (auto simp: wp_run guarded_def)

text \<open>
  The credentials of a set-up that is tried again, because the device still says that it is not
  initialised, are those of the first time: on a reliable database the same setting gives the same
  credential, whatever the random numbers and the clock, and one that is generated consists of digits.
\<close>

theorem credential_stable:
  assumes "sqlite_reliable E view" and "t_schema (view (db_conn s))" and "0 < outlen" "outlen \<le> 32"
    and "run_state (load_or_generate_credential E key configured outlen digits) s = (v, t)"
    and "t_schema (view (db_conn u))"
    and "map_of (t_settings (view (db_conn u))) key = map_of (t_settings (view (db_conn t))) key"
  shows "value_of (load_or_generate_credential E key configured outlen digits) u = v
    \<and> (configured = [] \<and> map_of (t_settings (view (db_conn s))) key = None \<longrightarrow>
        length v = digit_count outlen digits \<and> list_all is_digit v)"
proof -
  note one = credential_once [OF assms(1,2), of key configured outlen digits, unfolded wp_value [OF assms(5)]]
  note two = credential_once [OF assms(1,6), of key configured outlen digits, unfolded wp_run]
  have len: "v' \<noteq> [] \<Longrightarrow> length v' = digit_count outlen digits \<Longrightarrow> fit 32 v' = v' \<and> fit outlen v' = v' \<and> fit 32 v' \<noteq> []" for v'
    using assms(3,4) by (auto simp: digit_count_def fit_def split: if_splits)
  show ?thesis
  proof (cases "configured = []")
    case False
    then show ?thesis using one two by simp
  next
    case configured: True
    show ?thesis
    proof (cases "\<exists>c cs. map_of (t_settings (view (db_conn s))) key = Some (c # cs)")
      case True
      then show ?thesis using configured one two assms(7) by (auto split: if_splits)
    next
      case False
      then have v: "length v = digit_count outlen digits" "list_all is_digit v"
        "map_of (t_settings (view (db_conn u))) key = Some v"
        using configured one assms(7) by (auto split: option.splits list.splits)
      show ?thesis using configured two v len [of v] by (cases v) auto
    qed
  qed
qed

theorem credential_stable_witness:
  "let pin = value_of (load_or_generate_credential sql_exec ''worm_admin_pin'' [] 16 5) sample_station in
     value_of (load_or_generate_credential sql_exec ''worm_admin_pin'' [] 16 5)
       (sample_station\<lparr>db_conn := fresh_tables\<lparr>t_settings := [(''worm_admin_pin'', pin)]\<rparr>\<rparr>) = pin
     \<and> length pin = 5"
proof -
  obtain v t where run: "run_state (load_or_generate_credential sql_exec ''worm_admin_pin'' [] 16 5) sample_station = (v, t)"
    by fastforce
  have fresh: "db_conn sample_station = fresh_tables"
    by (simp add: sample_station_def station.defs sample_host_def server.defs host.defs sample_server_def)
  have schema: "t_schema (db_conn sample_station)" by (simp add: fresh fresh_tables_def)
  from credential_once [OF mem.sqlite_reliable_axioms schema, of "''worm_admin_pin''" "[]" 16 5] run
  have "map_of (t_settings (db_conn t)) ''worm_admin_pin'' = Some v" by (simp add: wp_def fresh fresh_tables_def)
  with credential_stable [OF mem.sqlite_reliable_axioms schema _ _ run,
      of "sample_station\<lparr>db_conn := fresh_tables\<lparr>t_settings := [(''worm_admin_pin'', v)]\<rparr>\<rparr>"] run
  show ?thesis by (simp add: fresh fresh_tables_def digit_count_def)
qed

text \<open>
  The self-test of the day runs once: a round of the thread at which the time of day has come and
  the day is not done runs it, and after a round at or past that time no later round of the same day
  does, while the first such round of any other day does.
\<close>

theorem self_test_once_a_day:
  assumes "\<not> w_mu s" and "w_active s" and "0 \<le> cfg_self_test_at_hour (g_config s)"
    and "past_slot (g_config s) (localtime s (os_time s (os_ticks s)))"
  shows "let today = day_stamp (localtime s (os_time s (os_ticks s)));
      t = poststate (sync_tick A E last_day) s in
    value_of (sync_tick A E last_day) s = Some today
    \<and> (last_day \<noteq> today \<and> w_ptr s P_run_self_test \<longrightarrow> made is_self_test s t)
    \<and> (\<forall>tm. past_slot (g_config s) tm \<longrightarrow> scheduled_now (g_config s) tm today = (day_stamp tm \<noteq> today))"
  using tick_done [OF assms(1,2), where A = A and E = E and last_day = last_day] assms(3,4)
  by (auto simp: wp_run Let_def scheduled_now_def self_test_due_def)

theorem self_test_once_a_day_witness:
  "value_of (sync_tick sample_api sql_exec 0) (sample_server\<lparr>g_config := (config_load empty_env)\<lparr>cfg_self_test_at_hour := 0,
      cfg_self_test_at_minute := 0\<rparr>\<rparr>) = Some 20231114"
proof -
  let ?s = "sample_server\<lparr>g_config := (config_load empty_env)\<lparr>cfg_self_test_at_hour := 0, cfg_self_test_at_minute := 0\<rparr>\<rparr>"
  have tm: "localtime ?s (os_time ?s (os_ticks ?s)) = gmtime 1700000000"
    by (simp add: sample_server_def localtime_def)
  have "day_stamp (gmtime 1700000000) = 20231114" "past_slot (g_config ?s) (gmtime 1700000000)"
    by (code_simp, simp add: past_slot_def, code_simp)
  with self_test_once_a_day [of ?s sample_api sql_exec 0] tm show ?thesis
    by (simp add: sample_server_def)
qed



end
