(* ===== verification/Tse_Serving.thy ===== *)
theory Tse_Serving
  imports Tse_Conn Tse_Frames Tse_Worm_Start
begin

text \<open>
  What serving requests keeps, for any relation between states, in three interfaces.  \<open>reading\<close> asks
  that the statements that only read keep it; \<open>requests\<close> adds the three operations that write, a
  start, a finish and a login, and gives it for every handler, connection and the accept loop;
  \<open>serving\<close> asks it of every statement and of the operations of the TSE client, and gives the three
  writers.  They are interpreted here, for a client that was in order and stays so and for what
  serving never sets, and in \<open>Tse_Whole\<close> for the journal and the tokens.
\<close>

section \<open>The interfaces\<close>

definition read_statements :: "sql set" where
  "read_statements = setting_reads \<union> token_reads \<union> {SelectOpenTransactions, CountClients}"

locale reading =
  fixes A :: "'hw worm_api" and E :: "'db engine"
    and R :: "('db, 'hw, 'x) server_scheme \<Rightarrow> ('db, 'hw, 'x) server_scheme \<Rightarrow> bool"
  assumes R_refl [frame]: "reflp R" and R_trans [frame]: "transp R"
    and R_read [frame]: "q \<in> read_statements \<Longrightarrow> state_io_rel R (sql_run E q)"
    and R_time [frame]: "state_io_rel R time_now"
    and R_info [frame]: "state_io_rel R (tse_worm_fill_info A i)"
    and R_prepare [frame]: "state_io_rel R (tse_worm_export_prepare A E)"
    and R_export [frame]: "state_io_rel R (tse_worm_export_tar A E cb (ctx :: writer \<times> bool))"
    and R_format [frame]: "state_io_rel R (tse_worm_log_time_format A)"

locale requests = reading +
  assumes R_store_start [frame]: "state_io_rel R (store_start_transaction A E client pt pd ext out0)"
    and R_store_finish [frame]: "state_io_rel R (store_finish_transaction A E client num pt pd out0 cl ml)"
    and R_oauth [frame]: "state_io_rel R (handle_oauth A E req)"

locale serving = reading +
  assumes R_sql [frame]: "state_io_rel R (sql_run E q)"
    and R_random [frame]: "state_io_rel R (util_random_bytes n)"
    and R_register [frame]: "state_io_rel R (tse_worm_register_client A E client)"
    and R_start [frame]: "state_io_rel R (tse_worm_start_transaction A E client n)"
    and R_finish [frame]: "state_io_rel R (tse_worm_finish_transaction A E client num pdata k n)"

context reading begin

abbreviation ok :: "(('db, 'hw, 'x) server_scheme, 'r) state \<Rightarrow> bool" where
  "ok m \<equiv> state_io_rel R m"

lemma ok_get [frame]: "ok (db_get_setting E k n)"
  unfolding db_get_setting_def by (intro frame) (simp add: read_statements_def setting_reads_def)

lemma ok_time [frame]: "ok util_now_iso" "ok (util_fcc_log_time txt n)"
  unfolding util_now_iso_def util_fcc_log_time_def by (intro frame)+

lemma ok_load_token [frame]: "ok (db_load_oauth_token E t n)"
  unfolding db_load_oauth_token_def Let_def
  by (intro frame; auto simp: read_statements_def token_reads_def split: sql_result.split list.split option.split intro!: frame)

lemma ok_job [frame]: "ok m \<Longrightarrow> ok (run_job m r)"
  unfolding run_job_def by (intro frame)

lemma ok_load_row [frame]: "ok (load_transaction_row E row)"
  unfolding load_transaction_row_def Let_def by (intro frame)

lemma ok_list [frame]: "ok (store_list_open_transactions E k)"
  unfolding store_list_open_transactions_def by (intro frame) (simp add: read_statements_def)

lemma ok_store_info [frame]: "ok (store_info A E)"
  unfolding store_info_def created_at_text_def Let_def by (intro frame) (simp add: read_statements_def)

lemma ok_bearer [frame]: "ok (get_bearer_client E req n)"
  unfolding get_bearer_client_def by (intro frame)

lemma ok_reply [frame]:
  "ok (reply st json)" "ok (reply_error st e d n)" "ok (reply_not_found meth path)"
  unfolding reply_def reply_error_def reply_not_found_def by (intro frame)+

lemma ok_with_bearer [frame]: "ok m \<Longrightarrow> ok (with_bearer E req m)"
  unfolding with_bearer_def validate_bearer_def by (intro frame)

lemma ok_json [frame]:
  "ok (response_start_transaction_json tx n)" "ok (response_finish_transaction_json tx n)"
  "ok (open_transaction_json tx)" "ok (response_tss_details_json A serial n)"
  unfolding response_start_transaction_json_def response_finish_transaction_json_def open_transaction_json_def
    response_tss_details_json_def Let_def
  by (intro frame)+

lemma ok_append [frame]: "ok (append_transactions n b txs out)"
  by (induction txs arbitrary: b out) (simp_all only: append_transactions.simps, (intro frame; assumption?)+)

lemma ok_list_json [frame]: "ok (response_open_transactions_json txs n)"
  unfolding response_open_transactions_json_def by (intro frame)

lemma ok_resolve [frame]: "ok (resolve_client_id E req n)"
  unfolding resolve_client_id_def by (intro frame)

lemma ok_answers [frame]: "ok (start_answer r)" "ok (finish_answer r')"
  unfolding start_answer_def finish_answer_def Let_def by (intro frame)+

lemma ok_reading_handlers [frame]:
  "ok (handle_tss_details A E req)" "ok (handle_info A E req)"
  "ok (handle_list_transactions E req)" "ok (handle_health A E)" "ok (handle_export_transactions A E mem req)"
  unfolding handle_tss_details_def handle_info_def handle_list_transactions_def handle_health_def
    handle_export_transactions_def
  by (intro frame)+

lemma ok_send [frame]: "ok (http_send_response A E mem wr res keep_alive)"
  unfolding http_send_response_def export_stream_writer_def Let_def by (intro frame)

end

context requests begin

lemma ok_writing_handlers [frame]:
  "ok (handle_start_transaction A E req)" "ok (handle_finish_transaction A E req tx_id)"
  unfolding handle_start_transaction_def handle_finish_transaction_def Let_def by (intro frame)+

lemma ok_route [frame]: "ok (handlers_route A E mem req)"
  unfolding handlers_route_def Let_def by (intro frame)

lemma ok_serve_request [frame]: "ok (serve_request A E mem raw wr)"
  unfolding serve_request_def Let_def by (intro frame, auto split: parsed.split intro!: frame)

lemma ok_client: "ok (handle_client A E mem fuel buf received rd wr)"
proof (induction fuel arbitrary: buf received rd wr)
  case (Suc fuel)
  show ?case
    unfolding handle_client.simps Let_def
    by (intro frame Suc; auto split: step.split option.split prod.split intro!: frame Suc)
qed (simp add: io_return R_refl)

lemma ok_serve: "ok (http_serve A E mem fuel evs)"
proof (induction evs)
  case (Cons e evs)
  then show ?case
    by (cases e) (simp_all, (intro frame ok_client; auto split: ending.split intro!: frame Cons)+)
qed (simp add: io_return R_refl)

end

context serving begin

lemma ok_set [frame]: "ok (db_set_setting E k v)"
  unfolding db_set_setting_def by (intro frame)

lemma ok_random [frame]: "ok (util_random_hex n k)" "ok (util_random_base64 n k)"
  unfolding util_random_hex_def util_random_base64_def Let_def by (intro frame)+

lemma ok_db_ops [frame]: "ok (db_increment_counter E k)" "ok (db_save_oauth_token E t c secs)"
  unfolding db_increment_counter_def db_save_oauth_token_def Let_def by (intro frame)+

lemma ok_records [frame]:
  "ok (store_register_client A E c)" "ok (record_transaction_open E tx ext)" "ok (record_transaction_finished E num)"
  unfolding store_register_client_def record_transaction_open_def record_transaction_finished_def
  by (intro frame)+

lemma ok_read_back [frame]: "ok (read_back E n out0)"
  unfolding read_back_def by (intro frame)

lemma ok_sim [frame]:
  "ok (sim_start_transaction E c pt pd ext out0)" "ok (sim_close_transaction E tx num pt pd out0)"
  "ok (sim_finish_transaction E num pt pd out0 cl ml)"
  unfolding sim_start_transaction_def sim_close_transaction_def sim_finish_transaction_def by (intro frame)+

end

sublocale serving \<subseteq> requests A E R
proof
  show "ok (store_start_transaction A E c pt pd ext out0)" "ok (store_finish_transaction A E c num pt pd out0 cl ml)"
    for c pt pd ext out0 num cl ml
    unfolding store_start_transaction_def store_finish_transaction_def Let_def by (intro frame)+
  show "ok (handle_oauth A E req)" for req
    unfolding handle_oauth_def issue_token_def Let_def by (intro frame)
qed

section \<open>A client in order stays in order\<close>

definition keeps_client :: "('db, 'hw, 'x) server_scheme \<Rightarrow> ('db, 'hw, 'x) server_scheme \<Rightarrow> bool" where
  "keeps_client s t \<longleftrightarrow> (client_ok s \<longrightarrow> client_ok t)"

lemma keeps_clientI:
  assumes "\<And>s. \<not> w_mu s \<Longrightarrow> wp m (\<lambda>_ t. \<exists>C. stays C s t) s"
  shows "state_io_rel keeps_client m"
proof (rule io_wp)
  fix s show "wp m (\<lambda>_ t. keeps_client s t) s"
  proof (cases "client_ok s")
    case True
    then have "\<not> w_mu s" by (simp add: client_ok_def)
    then show ?thesis
      using assms [of s] True by (auto simp: keeps_client_def elim!: wp_mono dest: client_ok_stays)
  qed (simp add: wp_run keeps_client_def)
qed

lemma keeps_client_stays: "state_io_rel (stays C) m \<Longrightarrow> state_io_rel keeps_client m"
  by (rule keeps_clientI, rule wp_io) auto

interpretation client: serving A E keeps_client
proof
  show "reflp keeps_client" "transp keeps_client"
    by (auto simp: keeps_client_def intro!: reflpI transpI)
  have sql: "state_io_rel keeps_client (sql_run E q)" for q
    by (rule keeps_client_stays [where C = "\<lambda>_. True"], intro stays_intros; simp)
  then show "state_io_rel keeps_client (sql_run E q)" if "q \<in> read_statements" for q by blast
  show "state_io_rel keeps_client (sql_run E q)" for q by (rule sql)
  show "state_io_rel keeps_client time_now"
    "state_io_rel keeps_client (tse_worm_fill_info A i)" "state_io_rel keeps_client (tse_worm_log_time_format A)" for i
    unfolding tse_worm_fill_info_def tse_worm_log_time_format_def Let_def
    by (rule keeps_client_stays [where C = "\<lambda>_. True"], intro stays_intros; simp)+
  show "state_io_rel keeps_client (util_random_bytes n)" for n
    by (auto simp: state_io_rel_def keeps_client_def client_ok_def loaded_def)
  show "state_io_rel keeps_client (tse_worm_register_client A E c)" for c
    by (rule keeps_clientI, rule wp_mono [OF register_client_stays]) auto
  show "state_io_rel keeps_client (tse_worm_start_transaction A E c n)" for c n
    by (rule keeps_clientI, rule wp_mono [OF start_transaction_resp]) (auto simp: resp_def)
  show "state_io_rel keeps_client (tse_worm_finish_transaction A E c num pdata k n)" for c num pdata k n
    by (rule keeps_clientI, rule wp_mono [OF finish_transaction_resp]) (auto simp: resp_def)
  show "state_io_rel keeps_client (tse_worm_export_prepare A E)"
    by (rule keeps_clientI, rule wp_mono [OF export_prepare_stays]) auto
  show "state_io_rel keeps_client (tse_worm_export_tar A E cb ctx)" for cb and ctx :: "writer \<times> bool"
    by (rule keeps_clientI, rule wp_mono [OF export_tar_stays]) auto
qed

section \<open>From the calls to the operations\<close>

text \<open>A relation that every call of the library, the lock and the caches of the client keep.\<close>

locale client_frame =
  fixes A :: "'hw worm_api" and E :: "'db engine"
    and R :: "('db, 'hw, 'x) server_scheme \<Rightarrow> ('db, 'hw, 'x) server_scheme \<Rightarrow> bool"
  assumes refl [frame]: "reflp R" and trans [frame]: "transp R"
    and sql [frame]: "state_io_rel R (sql_run E q)"
    and time [frame]: "state_io_rel R time_now"
    and random [frame]: "state_io_rel R (util_random_bytes n)"
    and calls [frame]: "state_io_rel R (hw_rc A c)" "state_io_rel R (hw_handle A c)" "state_io_rel R (hw_u64 A c)"
      "state_io_rel R (hw_bytes A c)" "state_io_rel R (hw_text A c)" "state_io_rel R (hw_void A c)"
    and lock [frame]: "state_io_rel R mu_lock" "state_io_rel R mu_unlock"
    and mark [frame]: "state_io_rel R (worm_client_mark_registered client)"
    and synced [frame]: "state_io_rel R (modify (\<lambda>s. s\<lparr>w_last_time_sync := t\<rparr>))"
    and export [frame]: "state_io_rel R (run_export A cb (ctx :: writer \<times> bool))"

context client_frame begin

lemma same_db [frame]: "state_io_rel R (db_get_setting E k n)" "state_io_rel R (db_set_setting E k v)"
  unfolding db_get_setting_def db_set_setting_def by (intro frame)+

lemma same_with_info [frame]: "(\<And>i. state_io_rel R (body i)) \<Longrightarrow> state_io_rel R (with_info A d body)"
  unfolding with_info_def by (intro frame)

lemma same_queries [frame]:
  "state_io_rel R (info_get A p i)" "state_io_rel R (resp_int A p i)" "state_io_rel R (worm_has_passed_self_test A)"
  "state_io_rel R (worm_has_valid_time A)" "state_io_rel R (worm_user_login_call A u pin)"
  "state_io_rel R (worm_user_logout_call A u)"
  unfolding info_get_def resp_int_def worm_has_passed_self_test_def worm_has_valid_time_def
    worm_user_login_call_def worm_user_logout_call_def
  by (intro frame)+

lemma same_device [frame]:
  "state_io_rel R (register_as_admin A c)" "state_io_rel R (log_worm_diagnostics A)"
  "state_io_rel R (fill_tx_from_response A r)" "state_io_rel R (update_tse_time A)" "state_io_rel R (finish_time_sync A rc)"
  unfolding register_as_admin_def log_worm_diagnostics_def fill_tx_from_response_def update_tse_time_def
    finish_time_sync_def Let_def
  by (intro frame)+

lemma same_self_test [frame]: "state_io_rel R (ensure_self_test_passed A E force)"
  unfolding ensure_self_test_passed_def run_self_test_with_def Let_def by (intro frame)

lemma same_sync [frame]: "state_io_rel R (perform_time_sync A E)"
  unfolding perform_time_sync_def Let_def by (intro frame)

lemma same_register [frame]: "state_io_rel R (tse_worm_register_client A E c)"
  unfolding tse_worm_register_client_def Let_def by (intro frame)

lemma same_prepare [frame]:
  "state_io_rel R (ensure_client_registered A E c)" "state_io_rel R (prepare_tse A E)"
  "state_io_rel R (call_with_retry A E call)"
  unfolding ensure_client_registered_def prepare_tse_def call_with_retry_def recover_after_worm_error_def by (intro frame)+

end

sublocale client_frame \<subseteq> serving A E R
proof
  show "reflp R" "transp R" by (rule refl trans)+
  show "state_io_rel R (sql_run E q)" if "q \<in> read_statements" for q by (rule sql)
  show "state_io_rel R (sql_run E q)" "state_io_rel R time_now" "state_io_rel R (util_random_bytes n)"
    "state_io_rel R (tse_worm_register_client A E c)" for q n c by (intro frame)+
  show "state_io_rel R (tse_worm_start_transaction A E c n)" for c n
    unfolding tse_worm_start_transaction_def Let_def by (intro frame)
  show "state_io_rel R (tse_worm_finish_transaction A E c num pdata k n)" for c num pdata k n
    unfolding tse_worm_finish_transaction_def Let_def by (intro frame)
  show "state_io_rel R (tse_worm_fill_info A i)" for i
    unfolding tse_worm_fill_info_def Let_def by (intro frame)
  show "state_io_rel R (tse_worm_export_prepare A E)"
    unfolding tse_worm_export_prepare_def renew_for_export_def export_ready_def by (intro frame)
  show "state_io_rel R (tse_worm_export_tar A E cb ctx)" for cb and ctx :: "writer \<times> bool"
    unfolding tse_worm_export_tar_def renew_for_export_def by (intro frame)
  show "state_io_rel R (tse_worm_log_time_format A)"
    unfolding tse_worm_log_time_format_def by (intro frame)
qed

end
