(* ===== verification/Tse_Network.thy ===== *)
theory Tse_Network
  imports Tse_Config
begin

text \<open>
  \<^verbatim>\<open>c/src/network.c\<close>: the addresses the server prints at its start, the local ones and the public
  one, which it asks two hosts for over plain HTTP.

  What the sockets do is a parameter, one \<open>peer\<close> for each host: the outcomes of the calls in their
  order.
\<close>

section \<open>Local addresses\<close>

text \<open>An entry of \<^verbatim>\<open>getifaddrs\<close>: whether it has an IPv4 address, is a loopback, and its text.\<close>

record interface =
  if_inet :: bool
  if_loopback :: bool
  if_text :: "string option"

fun collect_ips :: "nat \<Rightarrow> interface list \<Rightarrow> string list" where
  "collect_ips 0 ifs = []"
| "collect_ips n [] = []"
| "collect_ips (Suc n) (ifa # ifs) =
     (if \<not> if_inet ifa \<or> if_loopback ifa then collect_ips (Suc n) ifs
      else case if_text ifa of
        None \<Rightarrow> collect_ips (Suc n) ifs
      | Some ip \<Rightarrow> util_strlcpy (Some ip) 64 # collect_ips n ifs)"

definition network_local_ips :: "interface list option \<Rightarrow> nat \<Rightarrow> string list" where
  "network_local_ips ifaddr max_ips =
     (case ifaddr of
        None \<Rightarrow> [util_strlcpy (Some ''127.0.0.1'') 64]
      | Some ifs \<Rightarrow> let ips = collect_ips max_ips ifs in
          if ips = [] then [util_strlcpy (Some ''127.0.0.1'') 64] else ips)"

section \<open>Asking a host\<close>

text \<open>
  \<open>pr_sends\<close>: each a wait for room that fails, or what the write returns.  \<open>pr_answer\<close>: what one
  read gives, at most \<open>511\<close> bytes, if anything comes in time.
\<close>

record peer =
  pr_resolves :: bool
  pr_socket :: bool
  pr_connects :: bool
  pr_writable :: bool
  pr_so_ok :: bool
  pr_sends :: "int option list"
  pr_answer :: "string option"

definition CRLFCRLF :: string where "CRLFCRLF = [CR, LF, CR, LF]"

definition ip_request :: "string \<Rightarrow> string \<Rightarrow> string" where
  "ip_request host path = fit 256 (''GET '' @ path @ '' HTTP/1.1'' @ CRLF @ ''Host: '' @ host @ CRLF @
     ''Connection: close'' @ CRLFCRLF)"

text \<open>The bytes still to be written; when the outcomes are used up, a wait for room times out.\<close>

fun send_all :: "nat \<Rightarrow> int option list \<Rightarrow> bool" where
  "send_all 0 evs = True"
| "send_all (Suc left) [] = False"
| "send_all (Suc left) (None # evs) = False"
| "send_all (Suc left) (Some n # evs) = (if n < 0 then False else send_all (Suc left - nat n) evs)"

definition read_fd :: "nat \<Rightarrow> string option \<Rightarrow> string option" where
  "read_fd buflen answer = (case answer of
     None \<Rightarrow> None
   | Some bs \<Rightarrow> let got = take (buflen - 1) bs in if got = [] then None else Some (c_str got))"

definition address_of :: "string \<Rightarrow> nat \<Rightarrow> string option" where
  "address_of buf outlen = (case str_str buf CRLFCRLF of
     None \<Rightarrow> None
   | Some found \<Rightarrow>
       let body = dropWhile (\<lambda>c. c = CR \<or> c = LF) (drop 4 found);
           ip = takeWhile (\<lambda>c. c \<noteq> CR \<and> c \<noteq> LF \<and> c \<noteq> CHR '' '') body
       in if outlen \<le> length ip then None else Some ip)"

definition fetch_ip_from_host :: "(string \<Rightarrow> peer) \<Rightarrow> string \<Rightarrow> string \<Rightarrow> nat \<Rightarrow> string option" where
  "fetch_ip_from_host net host path outlen = (let p = net host in
     if \<not> pr_resolves p then None
     else if \<not> pr_socket p then None
     else if \<not> pr_connects p then None
     else if \<not> pr_writable p then None
     else if \<not> pr_so_ok p then None
     else if \<not> send_all (length (ip_request host path)) (pr_sends p) then None
     else case read_fd 512 (pr_answer p) of None \<Rightarrow> None | Some buf \<Rightarrow> address_of buf outlen)"

definition network_resolve_public_ip :: "(string \<Rightarrow> peer) \<Rightarrow> config \<Rightarrow> nat \<Rightarrow> string option" where
  "network_resolve_public_ip net cfg outlen =
     (if cfg_public_ip cfg \<noteq> [] then Some (util_strlcpy (Some (cfg_public_ip cfg)) outlen)
      else case fetch_ip_from_host net ''checkip.amazonaws.com'' ''/'' outlen of
        Some ip \<Rightarrow> Some ip
      | None \<Rightarrow> fetch_ip_from_host net ''api.ipify.org'' ''/'' outlen)"

section \<open>Facts\<close>

lemma collected: "ip \<in> set (collect_ips n ifs) \<Longrightarrow> length ip < 64 \<and> (\<exists>i\<in>set ifs. if_inet i \<and> \<not> if_loopback i
    \<and> (\<exists>t. if_text i = Some t \<and> ip = util_strlcpy (Some t) 64))"
  by (induction n ifs rule: collect_ips.induct) (auto simp: util_strlcpy_def fit_def split: if_splits option.splits)

lemma length_collected: "length (collect_ips n ifs) \<le> n"
  by (induction n ifs rule: collect_ips.induct) (auto split: option.splits)


abbreviation no_break :: "char \<Rightarrow> bool" where
  "no_break c \<equiv> c \<noteq> CR \<and> c \<noteq> LF \<and> c \<noteq> CHR '' ''"

lemma address_found:
  assumes "\<not> sublist CRLFCRLF (head @ butlast CRLFCRLF)" and "list_all no_break ip" "ip \<noteq> []" "length ip < outlen"
    and "list_all (\<lambda>c. c = CR \<or> c = LF) blank" "tail = [] \<or> \<not> no_break (hd tail)"
  shows "address_of (head @ CRLFCRLF @ blank @ ip @ tail) outlen = Some ip"
proof -
  have skip: "dropWhile (\<lambda>c. c = CR \<or> c = LF) (blank @ ip @ tail) = ip @ tail"
    using assms(2,3,5) by (cases ip) (auto simp: dropWhile_append list_all_iff dropWhile_eq_Nil_conv)
  have "takeWhile no_break (ip @ tail) = ip"
    using assms(2,6) by (cases tail) (auto simp: takeWhile_append list_all_iff takeWhile_eq_all_conv)
  then show ?thesis
    using str_str_first [OF assms(1), of "blank @ ip @ tail"] skip assms(4)
    by (simp add: address_of_def CRLFCRLF_def)
qed

text \<open>The answer whose body has not arrived yet: the empty text is taken for the address.\<close>

lemma empty_address_accepted:
  assumes "\<not> sublist CRLFCRLF (head @ butlast CRLFCRLF)" and "0 < outlen"
  shows "address_of (head @ CRLFCRLF) outlen = Some []"
  using str_str_first [OF assms(1), of "[]"] assms(2) by (simp add: address_of_def CRLFCRLF_def)

lemma address_clean: "address_of buf outlen = Some ip \<Longrightarrow> list_all no_break ip \<and> length ip < outlen"
  by (auto simp: address_of_def Let_def list_all_iff split: option.splits if_splits dest: set_takeWhileD)

lemma fetched_clean: "fetch_ip_from_host net host path outlen = Some ip \<Longrightarrow> list_all no_break ip \<and> length ip < outlen"
  by (auto simp: fetch_ip_from_host_def Let_def split: if_splits option.splits dest: address_clean)

section \<open>Properties\<close>

text \<open>
  The public address the server prints is the configured one when there is one; otherwise it is a
  single word that fits the buffer, and an answer that arrives whole, a header, a blank line and an
  address, gives that address.
\<close>

theorem public_ip:
  assumes "0 < outlen"
  shows "(cfg_public_ip cfg \<noteq> [] \<longrightarrow> network_resolve_public_ip net cfg outlen = Some (fit outlen (cfg_public_ip cfg)))
    \<and> (\<forall>ip. cfg_public_ip cfg = [] \<and> network_resolve_public_ip net cfg outlen = Some ip \<longrightarrow>
          list_all no_break ip \<and> length ip < outlen)
    \<and> (\<forall>p head ip. cfg_public_ip cfg = [] \<and> net ''checkip.amazonaws.com'' = p
          \<and> pr_resolves p \<and> pr_socket p \<and> pr_connects p \<and> pr_writable p \<and> pr_so_ok p
          \<and> send_all (length (ip_request ''checkip.amazonaws.com'' ''/'')) (pr_sends p)
          \<and> pr_answer p = Some (head @ CRLFCRLF @ ip @ [LF]) \<and> length head + length ip + 5 < 512
          \<and> is_cstr (head @ ip) \<and> \<not> sublist CRLFCRLF (head @ butlast CRLFCRLF)
          \<and> list_all no_break ip \<and> ip \<noteq> [] \<and> length ip < outlen \<longrightarrow>
          network_resolve_public_ip net cfg outlen = Some ip)"
proof (intro conjI allI impI)
  show "network_resolve_public_ip net cfg outlen = Some (fit outlen (cfg_public_ip cfg))" if "cfg_public_ip cfg \<noteq> []"
    using that assms by (simp add: network_resolve_public_ip_def util_strlcpy_def fit_def)
next
  fix ip assume "cfg_public_ip cfg = [] \<and> network_resolve_public_ip net cfg outlen = Some ip"
  then show "list_all no_break ip" "length ip < outlen"
    by (auto simp: network_resolve_public_ip_def split: option.splits dest: fetched_clean)
next
  fix p head ip
  assume a: "cfg_public_ip cfg = [] \<and> net ''checkip.amazonaws.com'' = p
          \<and> pr_resolves p \<and> pr_socket p \<and> pr_connects p \<and> pr_writable p \<and> pr_so_ok p
          \<and> send_all (length (ip_request ''checkip.amazonaws.com'' ''/'')) (pr_sends p)
          \<and> pr_answer p = Some (head @ CRLFCRLF @ ip @ [LF]) \<and> length head + length ip + 5 < 512
          \<and> is_cstr (head @ ip) \<and> \<not> sublist CRLFCRLF (head @ butlast CRLFCRLF)
          \<and> list_all no_break ip \<and> ip \<noteq> [] \<and> length ip < outlen"
  then have "read_fd 512 (pr_answer p) = Some (head @ CRLFCRLF @ ip @ [LF])"
    using take_all [of "head @ CRLFCRLF @ ip @ [LF]" 511] by (simp add: read_fd_def Let_def CRLFCRLF_def)
  moreover have "address_of (head @ CRLFCRLF @ ip @ [LF]) outlen = Some ip"
    using a address_found [of head ip outlen "[]" "[LF]"] by simp
  ultimately show "network_resolve_public_ip net cfg outlen = Some ip"
    using a by (simp add: network_resolve_public_ip_def fetch_ip_from_host_def Let_def)
qed

definition sample_peer :: peer where
  "sample_peer = \<lparr>pr_resolves = True, pr_socket = True, pr_connects = True, pr_writable = True, pr_so_ok = True,
     pr_sends = [Some 40, Some 26], pr_answer = Some (''HTTP/1.1 200 OK'' @ CRLFCRLF @ ''192.0.2.7'' @ [LF])\<rparr>"

theorem public_ip_witness:
  "network_resolve_public_ip (\<lambda>_. sample_peer) ((config_load empty_env)\<lparr>cfg_public_ip := []\<rparr>) 64 = Some ''192.0.2.7''"
proof -
  have "length (ip_request ''checkip.amazonaws.com'' ''/'') = 66"
    by (simp add: ip_request_def CRLFCRLF_def fit_def)
  then have sends: "send_all (length (ip_request ''checkip.amazonaws.com'' ''/'')) (pr_sends sample_peer)"
    by (simp add: sample_peer_def numeral_eq_Suc)
  have head: "\<not> sublist CRLFCRLF (''HTTP/1.1 200 OK'' @ butlast CRLFCRLF)"
    unfolding str_str_None_iff [symmetric] by (simp add: CRLFCRLF_def)
  from sends head show ?thesis
    using public_ip [of 64 "(config_load empty_env)\<lparr>cfg_public_ip := []\<rparr>" "\<lambda>_. sample_peer", THEN conjunct2, THEN conjunct2, rule_format,
        of sample_peer "''HTTP/1.1 200 OK''" "''192.0.2.7''"]
    by (simp add: sample_peer_def CRLFCRLF_def)
qed

end
