(* ===== verification/Tse_Main.thy ===== *)
theory Tse_Main
  imports Tse_Serving Tse_Network
begin

text \<open>
  \<^verbatim>\<open>c/src/main.c\<close>, and the opening of the database in \<^verbatim>\<open>c/src/db.c\<close>: the order in which the
  components are started, serve and are shut down.

  The file system is a parameter: which paths are there, which directories may be made and which
  files SQLite opens.  So are the stop signal, the thread of the worker and the listening socket.
  The lines of the banner are kept in \<open>printed\<close>; how a line is printed is in \<open>Tse_Log\<close>.
\<close>

section \<open>The database file\<close>

text \<open>\<open>fs_entries\<close>: for a path that is there, whether it is a directory.\<close>

record ('db, 'hw) process = "('db, 'hw) station" +
  fs_entries :: "string \<Rightarrow> bool option"
  fs_may_make :: "string \<Rightarrow> bool"
  fs_opens :: "string \<Rightarrow> bool"
  db_is_open :: bool
  printed :: "string list"

type_synonym ('db, 'hw, 'a, 'r) pprog = "(('db, 'hw, 'a) process_scheme, 'r) state"

text \<open>What precedes the last slash of \<open>strrchr\<close>.\<close>

definition before_last_slash :: "string \<Rightarrow> string option" where
  "before_last_slash path = (if CHR ''/'' \<notin> set path then None
     else Some (rev (tl (dropWhile (\<lambda>c. c \<noteq> CHR ''/'') (rev path)))))"

definition mkdir :: "string \<Rightarrow> ('db, 'hw, 'a, bool) pprog" where
  "mkdir path = do {
     s \<leftarrow> State_Monad.get;
     if fs_entries s path \<noteq> None \<or> \<not> fs_may_make s path then ret False
     else do {
       _ \<leftarrow> State_Monad.set (s\<lparr>fs_entries := (fs_entries s)(path \<mapsto> True)\<rparr>);
       ret True } }"

lemma before_last_slash_shorter: "before_last_slash path = Some dir \<Longrightarrow> length dir < length path \<and> strict_prefix dir path"
proof -
  assume a: "before_last_slash path = Some dir"
  then have slash: "CHR ''/'' \<in> set path" and dir: "dir = rev (tl (dropWhile (\<lambda>c. c \<noteq> CHR ''/'') (rev path)))"
    by (auto simp: before_last_slash_def split: if_splits)
  from slash have ne: "dropWhile (\<lambda>c. c \<noteq> CHR ''/'') (rev path) \<noteq> []" by (auto simp: dropWhile_eq_Nil_conv)
  have "rev path = takeWhile (\<lambda>c. c \<noteq> CHR ''/'') (rev path) @ dropWhile (\<lambda>c. c \<noteq> CHR ''/'') (rev path)" by simp
  then have "path = rev (dropWhile (\<lambda>c. c \<noteq> CHR ''/'') (rev path)) @ rev (takeWhile (\<lambda>c. c \<noteq> CHR ''/'') (rev path))"
    by (metis rev_append rev_rev_ident)
  moreover obtain c rest where "dropWhile (\<lambda>c. c \<noteq> CHR ''/'') (rev path) = c # rest" using ne by (cases "dropWhile (\<lambda>c. c \<noteq> CHR ''/'') (rev path)") auto
  ultimately have "path = dir @ c # rev (takeWhile (\<lambda>c. c \<noteq> CHR ''/'') (rev path))" using dir by simp
  then show ?thesis by (metis length_append less_add_same_cancel1 length_greater_0_conv list.distinct(1) prefixI strict_prefixI' strict_prefix_def append_self_conv)
qed

text \<open>True is the 0.\<close>

function ensure_parent_dir :: "string \<Rightarrow> ('db, 'hw, 'a, bool) pprog" where
  "ensure_parent_dir path =
     (case before_last_slash (fit 512 path) of
        None \<Rightarrow> ret True
      | Some dir \<Rightarrow> if dir = [] then ret True else do {
          s \<leftarrow> State_Monad.get;
          (case fs_entries s dir of
             Some is_dir \<Rightarrow> ret is_dir
           | None \<Rightarrow> do {
               ok \<leftarrow> ensure_parent_dir dir;
               if ok then mkdir dir else ret False }) })"
  by pat_completeness auto

termination
  by (relation "measure length") (auto dest!: before_last_slash_shorter simp: fit_def)

declare ensure_parent_dir.simps [simp del]

text \<open>
  \<open>db_is_open\<close>: \<^verbatim>\<open>g_db\<close> is set.  \<^verbatim>\<open>sqlite3_open\<close> gives a handle also when it fails, and \<^verbatim>\<open>db_open\<close>
  leaves it there.
\<close>

definition db_open :: "string \<Rightarrow> ('db, 'hw, 'a, bool) pprog" where
  "db_open path = do {
     ok \<leftarrow> ensure_parent_dir path;
     if \<not> ok then ret False
     else do {
       s \<leftarrow> State_Monad.get;
       _ \<leftarrow> State_Monad.set (s\<lparr>db_is_open := True\<rparr>);
       ret (fs_opens s path) } }"

definition db_close :: "('db, 'hw, 'a, unit) pprog" where
  "db_close = modify (\<lambda>s. s\<lparr>db_is_open := False\<rparr>)"

section \<open>The banner\<close>

text \<open>The lines \<^verbatim>\<open>main\<close> logs before it serves; the two dashes are UTF-8.\<close>

definition em_dash :: string where "em_dash = [CHR 0xE2, CHR 0x80, CHR 0x94]"
definition rule_line :: string where "rule_line = concat (replicate 53 [CHR 0xE2, CHR 0x94, CHR 0x80])"

definition address_lines :: "string option \<Rightarrow> string list \<Rightarrow> string list" where
  "address_lines public ips = (case public of
     Some ip \<Rightarrow> [''Client IP:  '' @ ip]
   | None \<Rightarrow> map (\<lambda>ip. ''Client IP:  '' @ ip @ ''  (private '' @ em_dash
       @ '' set CLOUDTSE_PUBLIC_IP or allow outbound HTTPS)'') ips)"

definition self_test_line :: "config \<Rightarrow> string" where
  "self_test_line cfg = (if 0 \<le> cfg_self_test_at_hour cfg
     then ''Self-test:  daily at '' @ show_pad 2 (nat (cfg_self_test_at_hour cfg)) @ '':''
       @ show_pad 2 (nat (cfg_self_test_at_minute cfg)) @ '' (local) '' @ em_dash @ '' schedule active''
     else ''Self-test:  schedule off (set CLOUDTSE_SELF_TEST_AT=HH:MM)'')"

definition mode_lines :: "config \<Rightarrow> bool \<Rightarrow> string list" where
  "mode_lines cfg active =
     (if active then [''TSE mode:   hardware (auto-detected removable device)'', ''WormAPI:    '' @ cfg_worm_lib cfg]
      else if cfg_tse_mode cfg = TSE_MODE_HARDWARE
      then [''TSE mode:   simulator (fallback from hardware)'', ''WormAPI:    not loaded'']
      else [''TSE mode:   simulator''])"

definition banner :: "config \<Rightarrow> string option \<Rightarrow> string list \<Rightarrow> bool \<Rightarrow> string list" where
  "banner cfg public ips active =
     [''BSI TR-03153 cloud TSE '' @ em_dash @ '' development only [C]'', rule_line,
      ''Listening:  http://'' @ cfg_host cfg @ '':'' @ show_nat (cfg_port cfg)]
     @ address_lines public ips
     @ [''Port:       '' @ show_nat (cfg_port cfg), ''EAS-Code:   '' @ cfg_eas_code cfg,
        ''TSE serial: '' @ cfg_tse_serial cfg, ''Database:   '' @ cfg_db_path cfg, self_test_line cfg]
     @ mode_lines cfg active
     @ [''IP           = one of the addresses above'', ''Port         = '' @ show_nat (cfg_port cfg),
        ''Seriennummer = your Kassen-ID / EAS serial'', ''EAS-Code     = '' @ cfg_eas_code cfg]"

section \<open>The process\<close>

definition finished :: "ending \<Rightarrow> bool" where
  "finished e = (case e of Closed _ \<Rightarrow> True | _ \<Rightarrow> False)"

text \<open>
  \<open>ce\<close> is the environment, \<open>rc_thread\<close> what \<^verbatim>\<open>pthread_create\<close> gives the worker, \<open>stopped\<close> whether
  the signal came before serving, \<open>bound\<close> whether the socket could be set up, \<open>evs\<close> what the accept
  loop meets.  \<open>None\<close>: the process crashed or serves for ever.
\<close>

definition serve_and_leave :: "'hw worm_api \<Rightarrow> 'db engine \<Rightarrow> bool \<Rightarrow> nat \<Rightarrow> bool \<Rightarrow> accepting list \<Rightarrow>
  ('db, 'hw, 'a, int option) pprog" where
  "serve_and_leave A E mem fuel bound evs = do {
     endings \<leftarrow> (if bound then http_serve A E mem fuel evs else ret []);
     if \<not> list_all finished endings then ret None
     else do {
       _ \<leftarrow> modify (\<lambda>s. s\<lparr>s_running := False\<rparr>);
       _ \<leftarrow> store_shutdown A;
       _ \<leftarrow> db_close;
       ret (Some (if bound then 0 else 1)) } }"

definition run_server :: "'hw worm_api \<Rightarrow> 'db engine \<Rightarrow> bool \<Rightarrow> nat \<Rightarrow> int \<Rightarrow>
  (string \<Rightarrow> peer) \<Rightarrow> interface list option \<Rightarrow> bool \<Rightarrow> bool \<Rightarrow> accepting list \<Rightarrow> ('db, 'hw, 'a, int option) pprog" where
  "run_server A E mem fuel rc_thread net ifaddr stopped bound evs = do {
     _ \<leftarrow> store_init A E mem;
     _ \<leftarrow> modify (\<lambda>s. s\<lparr>s_running := rc_thread = 0\<rparr>);
     _ \<leftarrow> modify (\<lambda>s. s\<lparr>printed := printed s @ banner (g_config s)
            (network_resolve_public_ip net (g_config s) 64) (network_local_ips ifaddr 8) (w_active s)\<rparr>);
     if stopped then do { _ \<leftarrow> store_shutdown A; _ \<leftarrow> db_close; ret (Some 0) }
     else serve_and_leave A E mem fuel bound evs }"

definition main :: "'hw worm_api \<Rightarrow> 'db engine \<Rightarrow> bool \<Rightarrow> nat \<Rightarrow> config_env \<Rightarrow> int \<Rightarrow>
  (string \<Rightarrow> peer) \<Rightarrow> interface list option \<Rightarrow> bool \<Rightarrow> bool \<Rightarrow> accepting list \<Rightarrow> ('db, 'hw, 'a, int option) pprog" where
  "main A E mem fuel ce rc_thread net ifaddr stopped bound evs = do {
     _ \<leftarrow> modify (\<lambda>s. s\<lparr>g_config := config_load ce\<rparr>);
     s \<leftarrow> State_Monad.get;
     opened \<leftarrow> db_open (cfg_db_path (g_config s));
     if \<not> opened then ret (Some 1)
     else do {
       rc \<leftarrow> db_init_schema E (g_config s);
       if rc \<noteq> 0 then do { _ \<leftarrow> db_close; ret (Some 1) }
       else run_server A E mem fuel rc_thread net ifaddr stopped bound evs } }"

section \<open>The directory of the database\<close>

text \<open>Only directories on the way to the file are made, and nothing else of the process changes.\<close>

definition grows :: "string \<Rightarrow> ('db, 'hw, 'a) process_scheme \<Rightarrow> ('db, 'hw, 'a) process_scheme \<Rightarrow> bool" where
  "grows path s t \<longleftrightarrow> (\<exists>f. t = s\<lparr>fs_entries := f\<rparr> \<and> (\<forall>q. f q = fs_entries s q
     \<or> fs_entries s q = None \<and> f q = Some True \<and> strict_prefix q path \<and> fs_may_make s q))"

definition parent_there :: "string \<Rightarrow> ('db, 'hw, 'a) process_scheme \<Rightarrow> bool" where
  "parent_there path t \<longleftrightarrow> (case before_last_slash (fit 512 path) of
     None \<Rightarrow> True | Some dir \<Rightarrow> dir = [] \<or> fs_entries t dir = Some True)"

lemma grows_refl [simp]: "grows path s s"
  unfolding grows_def by (rule exI [of _ "fs_entries s"]) simp

lemma strict_prefix_fit: "strict_prefix dir (fit 512 path) \<Longrightarrow> strict_prefix dir path"
  unfolding fit_def by (metis prefix_order.less_le_trans take_is_prefix)

lemma ensure_parent_made:
  fixes s :: "('db, 'hw, 'a) process_scheme"
  shows "wp (ensure_parent_dir path) (\<lambda>ok t. grows path s t \<and> (ok \<longrightarrow> parent_there path t)) s"
proof (induction path arbitrary: s rule: measure_induct_rule [where f = length])
  case (less path)
  show ?case
  proof (cases "before_last_slash (fit 512 path)")
    case None
    then show ?thesis by (subst ensure_parent_dir.simps) (simp add: wps parent_there_def)
  next
    case (Some dir)
    then have dir: "length dir < length path" "strict_prefix dir path"
      using before_last_slash_shorter [OF Some] strict_prefix_fit by (auto simp: fit_def)
    show ?thesis
    proof (cases "dir = []")
      case True
      then show ?thesis using Some by (subst ensure_parent_dir.simps) (simp add: wps parent_there_def)
    next
      case ne: False
      show ?thesis
      proof (cases "fs_entries s dir")
        case there: (Some is_dir)
        then show ?thesis
          using Some ne by (subst ensure_parent_dir.simps) (simp add: wps parent_there_def wp_bind [of State_Monad.get])
      next
        case None
        have "wp (do { ok \<leftarrow> ensure_parent_dir dir; if ok then mkdir dir else ret False })
          (\<lambda>ok t. grows path s t \<and> (ok \<longrightarrow> parent_there path t)) s"
        proof (rule wp_seq [OF less [OF dir(1)]])
          fix ok t assume t: "grows dir s t \<and> (ok \<longrightarrow> parent_there dir t)"
          then obtain f where f: "t = s\<lparr>fs_entries := f\<rparr>" "\<forall>q. f q = fs_entries s q
              \<or> fs_entries s q = None \<and> f q = Some True \<and> strict_prefix q dir \<and> fs_may_make s q"
            by (auto simp: grows_def)
          have longer: "strict_prefix q dir \<Longrightarrow> strict_prefix q path" for q using dir(2) by simp
          have free: "f dir = None" using f(2) None by (metis prefix_order.less_irrefl)
          have "grows path s t" unfolding grows_def using f longer by blast
          moreover have "grows path s (s\<lparr>fs_entries := f(dir \<mapsto> True)\<rparr>)" if "fs_may_make s dir"
            unfolding grows_def using f(2) longer None dir(2) that by (intro exI [of _ "f(dir \<mapsto> True)"]) auto
          ultimately show "wp (if ok then mkdir dir else ret False) (\<lambda>ok t. grows path s t \<and> (ok \<longrightarrow> parent_there path t)) t"
            using free Some by (simp add: f(1) wps mkdir_def parent_there_def)
        qed
        then show ?thesis
          using Some ne None by (subst ensure_parent_dir.simps) (simp add: wp_bind [of State_Monad.get] wp_get)
      qed
    qed
  qed
qed


section \<open>What the process keeps\<close>

text \<open>Serving neither starts nor stops the client, and does not load or unload the library.\<close>

definition same_globals :: "('db, 'hw, 'a) station_scheme \<Rightarrow> ('db, 'hw, 'a) station_scheme \<Rightarrow> bool" where
  "same_globals s t \<longleftrightarrow> w_active t = w_active s \<and> g_lib t = g_lib s"

interpretation globals: client_frame A E "same_globals :: ('db, 'hw, 'a) station_scheme \<Rightarrow> _"
proof
  show "reflp (same_globals :: ('db, 'hw, 'a) station_scheme \<Rightarrow> _)"
    "transp (same_globals :: ('db, 'hw, 'a) station_scheme \<Rightarrow> _)"
    by (auto simp: same_globals_def intro!: reflpI transpI)
qed (simp_all add: state_io_rel_def same_globals_def hw_rc_def hw_handle_def hw_u64_def hw_bytes_def hw_text_def hw_void_def
    mu_lock_def mu_unlock_def worm_client_mark_registered_def run_export_def split_beta Let_def)

text \<open>The database layer.\<close>

definition only_db :: "('db, 'a) dbs_scheme \<Rightarrow> ('db, 'a) dbs_scheme \<Rightarrow> bool" where
  "only_db s t \<longleftrightarrow> (\<exists>i d. t = s\<lparr>os_ticks := i, db_conn := d\<rparr>)"

lemma only_db_rel [frame]: "reflp only_db" "transp only_db"
proof -
  show "reflp only_db" unfolding reflp_def only_db_def by (metis dbs.surjective dbs.update_convs(1) os.update_convs(2))
  show "transp only_db" unfolding only_db_def by (rule transpI, elim exE, simp) blast
qed

lemma only_db_ops [frame]:
  "state_io_rel only_db time_now" "state_io_rel only_db (sql_run E q)"
  by (auto simp: state_io_rel_def only_db_def)
    (metis dbs.surjective dbs.update_convs(1) os.update_convs(2))+

lemma only_db_layer [frame]:
  "state_io_rel only_db util_now_iso" "state_io_rel only_db (db_get_setting E k n)"
  "state_io_rel only_db (db_set_setting E k v)" "state_io_rel only_db (db_init_schema E cfg)"
  unfolding util_now_iso_def db_get_setting_def db_set_setting_def db_init_schema_def repair_serial_def Let_def
  by (intro io_bind io_gets io_if io_option io_return io_create_items only_db_rel only_db_ops)+

text \<open>In order, and the library is loaded only for an active client.\<close>

definition in_order :: "('db, 'hw, 'a) station_scheme \<Rightarrow> bool" where
  "in_order s \<longleftrightarrow> client_ok s \<and> (w_active s \<or> \<not> g_lib s)"

definition process_cold :: "('db, 'hw, 'a) station_scheme \<Rightarrow> bool" where
  "process_cold s \<longleftrightarrow> client_cold s \<and> \<not> g_lib s"

lemma process_cold_in_order: "process_cold s \<Longrightarrow> in_order s"
  by (simp add: process_cold_def in_order_def client_cold_def client_ok_def)

lemma only_db_keeps: "only_db s t \<Longrightarrow> in_order t = in_order s" "only_db s t \<Longrightarrow> process_cold t = process_cold s"
  by (auto simp: only_db_def in_order_def process_cold_def client_ok_def client_cold_def loaded_def)

lemma in_order_updates [simp]:
  "in_order (s\<lparr>g_created_at := c\<rparr>) = in_order s" "in_order (s\<lparr>s_running := r\<rparr>) = in_order s"
  "in_order (p\<lparr>printed := ls\<rparr>) = in_order p"
  by (simp_all add: in_order_def client_ok_def loaded_def)

lemma store_init_in_order:
  assumes "process_cold s"
  shows "wp (store_init A E mem) (\<lambda>_ t. in_order t) s"
proof -
  have start: "wp (if b then do { _ \<leftarrow> tse_worm_init A E mem; ret () } else ret ()) (\<lambda>_ t. in_order t) s" for b
  proof (cases b)
    case True
    have "wp (tse_worm_init A E mem) (\<lambda>_ t. in_order t) s"
      using assms by (intro wp_mono [OF init_ready]) (auto simp: process_cold_def in_order_def)
    then show ?thesis using True by (simp add: wps)
  qed (simp add: wps process_cold_in_order assms)
  have db: "wp m (\<lambda>_ u. in_order u) t" if "state_io_rel only_db m" "in_order t"
    for m :: "(('a, 'b, 'c) station_scheme, 'r) state" and t
    using that(2) by (intro wp_io [OF that(1)]) (simp add: only_db_keeps)
  have rest: "wp (case created of Some t \<Rightarrow> modify (\<lambda>s. s\<lparr>g_created_at := t\<rparr>)
      | None \<Rightarrow> do { now \<leftarrow> util_now_iso; modify (\<lambda>s. s\<lparr>g_created_at := now\<rparr>) }) (\<lambda>_ u. in_order u) t"
    if "in_order t" for created and t :: "('a, 'b, 'c) station_scheme"
  proof (cases created)
    case None
    have "wp (do { now \<leftarrow> util_now_iso; modify (\<lambda>s. s\<lparr>g_created_at := now\<rparr>) }) (\<lambda>_ u. in_order u) t"
      by (rule wp_seq [OF db [OF only_db_layer(1) that]]) (simp add: wps)
    then show ?thesis using None by simp
  qed (simp add: wps that)
  show ?thesis
    unfolding store_init_def wp_bind [of State_Monad.get] wp_get
    by (rule wp_seq [OF start], unfold wp_bind [of State_Monad.get] wp_get,
        rule wp_seq [OF db [OF only_db_layer(3)]], assumption, rule wp_seq [OF db [OF only_db_layer(2)]], assumption, rule rest)
qed

lemma store_shutdown_in_order:
  assumes "in_order s"
  shows "wp (store_shutdown A) (\<lambda>_ t. client_ok t \<and> \<not> w_active t \<and> \<not> g_lib t) s"
  using assms shutdown_ok [of s A]
  by (auto simp: store_shutdown_def wps in_order_def)

lemma serve_in_order:
  assumes "in_order s"
  shows "wp (http_serve A E mem fuel evs) (\<lambda>_ t. in_order t) s"
  using io_poststateD [OF client.ok_serve, of s A E mem fuel evs] io_poststateD [OF globals.ok_serve, of s A E mem fuel evs] assms
  by (auto simp: wp_run in_order_def keeps_client_def same_globals_def)


lemma store_shutdown_worker: "wp (store_shutdown A) (\<lambda>_ t. s_running t = s_running s) s"
  by (simp add: store_shutdown_def tse_worm_shutdown_def unload_def hw_void_def tse_block_close_def close_device_def
      mu_lock_def mu_unlock_def wps)

text \<open>The end of every run that gets as far as the store.\<close>

lemma leave:
  assumes "in_order s"
  shows "wp (do { _ \<leftarrow> store_shutdown A; _ \<leftarrow> db_close; ret x }) (\<lambda>r t. r = x \<and> client_ok t \<and> \<not> w_active t
    \<and> \<not> g_lib t \<and> \<not> db_is_open t \<and> s_running t = s_running s) s"
  using store_shutdown_in_order [OF assms, of A] store_shutdown_worker [of A s]
  by (simp add: wps db_close_def wp_run client_ok_def loaded_def)

text \<open>The directory is there, but the database cannot be opened in it.\<close>

definition open_fails :: "string \<Rightarrow> ('db, 'hw, 'a) process_scheme \<Rightarrow> bool" where
  "open_fails path s \<longleftrightarrow> value_of (ensure_parent_dir path) s \<and> \<not> fs_opens s path"

lemma ensure_parent_entries:
  fixes s :: "('db, 'hw, 'a) process_scheme"
  obtains f where "poststate (ensure_parent_dir path) s = s\<lparr>fs_entries := f\<rparr>"
  using ensure_parent_made [of path s] by (auto simp: wp_run grows_def)

lemma open_in_order:
  fixes s :: "('db, 'hw, 'a) process_scheme"
  assumes "process_cold s" "\<not> db_is_open s"
  shows "wp (db_open path) (\<lambda>ok t. process_cold t \<and> s_running t = s_running s
    \<and> (ok \<longrightarrow> \<not> open_fails path s) \<and> (\<not> ok \<longrightarrow> db_is_open t = open_fails path s)) s"
proof -
  obtain f where "poststate (ensure_parent_dir path) s = s\<lparr>fs_entries := f\<rparr>" by (rule ensure_parent_entries)
  with assms show ?thesis
    by (cases "value_of (ensure_parent_dir path) s")
      (simp_all add: wp_run db_open_def split_beta open_fails_def process_cold_def client_cold_def)
qed

text \<open>\<open>failed\<close>: opening the database failed.\<close>

definition ended :: "int option \<Rightarrow> bool \<Rightarrow> bool \<Rightarrow> ('db, 'hw, 'a) process_scheme \<Rightarrow> bool" where
  "ended r stopped failed t \<longleftrightarrow> (case r of None \<Rightarrow> True | Some code \<Rightarrow> code \<in> {0, 1} \<and> client_ok t \<and> \<not> w_active t
     \<and> \<not> g_lib t \<and> db_is_open t = failed \<and> (failed \<longrightarrow> code = 1) \<and> (stopped \<or> \<not> s_running t))"

lemma serve_and_leave_ended:
  fixes s :: "('db, 'hw, 'a) process_scheme"
  assumes "in_order s"
  shows "wp (serve_and_leave A E mem fuel bound evs) (\<lambda>r t. ended r stopped False t) s"
  unfolding serve_and_leave_def
proof (rule wp_seq [where P = "\<lambda>_ u. in_order u"])
  show "wp (if bound then http_serve A E mem fuel evs else ret []) (\<lambda>_ u. in_order u) s"
    using serve_in_order [OF assms, of A E mem fuel evs] assms by (simp add: wps)
next
  fix endings and u :: "('db, 'hw, 'a) process_scheme" assume u: "in_order u"
  then have "in_order (u\<lparr>s_running := False\<rparr>)" by simp
  from leave [OF this, of A "Some (if bound then 0 else 1)"]
  have "wp (do { _ \<leftarrow> modify (\<lambda>s. s\<lparr>s_running := False\<rparr>); _ \<leftarrow> store_shutdown A; _ \<leftarrow> db_close;
           ret (Some (if bound then 0 else 1)) }) (\<lambda>r t. ended r stopped False t) u"
    unfolding wp_bind [of "modify _"] wp_modify by (rule wp_mono) (simp add: ended_def)
  then show "wp (if \<not> list_all finished endings then ret None
         else do { _ \<leftarrow> modify (\<lambda>s. s\<lparr>s_running := False\<rparr>); _ \<leftarrow> store_shutdown A; _ \<leftarrow> db_close;
           ret (Some (if bound then 0 else 1)) }) (\<lambda>r t. ended r stopped False t) u"
    by (simp add: wp_return ended_def)
qed

lemma run_server_ended:
  assumes "process_cold s"
  shows "wp (run_server A E mem fuel rc_thread net ifaddr stopped bound evs) (\<lambda>r t. ended r stopped False t) s"
  unfolding run_server_def
proof (rule wp_seq [OF store_init_in_order [OF assms]])
  fix x and t :: "('a, 'b, 'c) process_scheme" assume t: "in_order t"
  let ?t = "t\<lparr>s_running := rc_thread = 0\<rparr>"
  let ?u = "?t\<lparr>printed := printed ?t @ banner (g_config ?t)
    (network_resolve_public_ip net (g_config ?t) 64) (network_local_ips ifaddr 8) (w_active ?t)\<rparr>"
  have order: "in_order ?u" using t by simp
  have stop: "wp (do { _ \<leftarrow> store_shutdown A; _ \<leftarrow> db_close; ret (Some 0) }) (\<lambda>r t. ended r True False t) ?u"
    using leave [OF order, of A "Some 0"] by (rule wp_mono) (simp add: ended_def)
  show "wp (do { _ \<leftarrow> modify (\<lambda>s. s\<lparr>s_running := rc_thread = 0\<rparr>);
     _ \<leftarrow> modify (\<lambda>s. s\<lparr>printed := printed s @ banner (g_config s)
            (network_resolve_public_ip net (g_config s) 64) (network_local_ips ifaddr 8) (w_active s)\<rparr>);
     if stopped then do { _ \<leftarrow> store_shutdown A; _ \<leftarrow> db_close; ret (Some 0) }
     else serve_and_leave A E mem fuel bound evs }) (\<lambda>r t. ended r stopped False t) t"
    unfolding wp_bind [of "modify _"] wp_modify
    using stop serve_and_leave_ended [OF order, of A E mem fuel bound evs stopped] by (cases stopped) simp_all
qed

lemma cold_ended:
  assumes "process_cold t" "db_is_open t = failed" "\<not> s_running t"
  shows "ended (Some 1) stopped failed t"
  using assms process_cold_in_order [OF assms(1)] by (auto simp: ended_def in_order_def process_cold_def client_cold_def)

lemma main_ended:
  fixes s :: "('db, 'hw, 'a) process_scheme"
  assumes "process_cold s" "\<not> db_is_open s" "\<not> s_running s"
  shows "wp (main A E mem fuel ce rc_thread net ifaddr stopped bound evs)
    (\<lambda>r t. ended r stopped (open_fails (cfg_db_path (config_load ce)) (s\<lparr>g_config := config_load ce\<rparr>)) t) s"
  unfolding main_def wp_bind [of "modify _"] wp_modify wp_bind [of State_Monad.get] wp_get
proof (rule wp_seq [OF open_in_order])
  show "process_cold (s\<lparr>g_config := config_load ce\<rparr>)" "\<not> db_is_open (s\<lparr>g_config := config_load ce\<rparr>)"
    using assms by (simp_all add: process_cold_def client_cold_def)
next
  fix opened and t :: "('db, 'hw, 'a) process_scheme"
  let ?failed = "open_fails (cfg_db_path (config_load ce)) (s\<lparr>g_config := config_load ce\<rparr>)"
  assume "process_cold t \<and> s_running t = s_running (s\<lparr>g_config := config_load ce\<rparr>)
    \<and> (opened \<longrightarrow> \<not> open_fails (cfg_db_path (g_config (s\<lparr>g_config := config_load ce\<rparr>))) (s\<lparr>g_config := config_load ce\<rparr>))
    \<and> (\<not> opened \<longrightarrow> db_is_open t
        = open_fails (cfg_db_path (g_config (s\<lparr>g_config := config_load ce\<rparr>))) (s\<lparr>g_config := config_load ce\<rparr>))"
  then have t: "process_cold t" "\<not> s_running t" "opened \<Longrightarrow> \<not> ?failed" "\<not> opened \<Longrightarrow> db_is_open t = ?failed"
    using assms(3) by simp_all
  have "wp (do { rc \<leftarrow> db_init_schema E cfg;
       if rc \<noteq> 0 then do { _ \<leftarrow> db_close; ret (Some 1) }
       else run_server A E mem fuel rc_thread net ifaddr stopped bound evs }) (\<lambda>r t. ended r stopped False t) t" for cfg
  proof (rule wp_seq [OF wp_rel [OF only_db_layer(4)]])
    fix rc and u :: "('db, 'hw, 'a) process_scheme" assume u: "only_db t u"
    then have cold: "process_cold u" "\<not> s_running u" using t only_db_keeps(2) [OF u] by (auto simp: only_db_def)
    then have "ended (Some 1) stopped False (u\<lparr>db_is_open := False\<rparr>)"
      by (intro cold_ended) (simp_all add: process_cold_def client_cold_def)
    with run_server_ended [OF cold(1), of A E mem fuel rc_thread net ifaddr stopped bound evs]
    show "wp (if rc \<noteq> 0 then do { _ \<leftarrow> db_close; ret (Some 1) }
       else run_server A E mem fuel rc_thread net ifaddr stopped bound evs) (\<lambda>r t. ended r stopped False t) u"
      by (simp add: wps db_close_def)
  qed
  with cold_ended [OF t(1)] t show "wp (if \<not> opened then ret (Some 1)
     else do { rc \<leftarrow> db_init_schema E (g_config (s\<lparr>g_config := config_load ce\<rparr>));
       if rc \<noteq> 0 then do { _ \<leftarrow> db_close; ret (Some 1) }
       else run_server A E mem fuel rc_thread net ifaddr stopped bound evs }) (\<lambda>r t. ended r stopped ?failed t) t"
    by (cases opened) (simp_all add: wp_return)
qed

section \<open>Properties\<close>

text \<open>
  The database's directory: \<^verbatim>\<open>ensure_parent_dir\<close> makes only directories on the way to the file,
  and only where nothing was; when it succeeds the file's directory is there.
\<close>

theorem database_directory:
  "let (ok, t) = run_state (ensure_parent_dir path) s in
     (\<forall>q. fs_entries t q = fs_entries s q
       \<or> fs_entries s q = None \<and> fs_entries t q = Some True \<and> strict_prefix q path \<and> fs_may_make s q)
     \<and> (ok \<longrightarrow> (case before_last_slash (fit 512 path) of
          None \<Rightarrow> True | Some dir \<Rightarrow> dir = [] \<or> fs_entries t dir = Some True))"
proof -
  obtain ok t where run: "run_state (ensure_parent_dir path) s = (ok, t)" by fastforce
  with ensure_parent_made [of path s] have made: "grows path s t" "ok \<longrightarrow> parent_there path t" by (simp_all add: wp_def)
  from made(1) obtain f where "t = s\<lparr>fs_entries := f\<rparr>" "\<forall>q. f q = fs_entries s q
      \<or> fs_entries s q = None \<and> f q = Some True \<and> strict_prefix q path \<and> fs_may_make s q"
    unfolding grows_def by blast
  then show ?thesis using run made(2) by (simp add: parent_there_def)
qed

text \<open>
  C24. When the process ends, however it went, the exit code is 0 or 1, the client is inactive with its
  store closed and its lock free, the library is unloaded, and the worker has stopped unless the stop
  signal came before serving.  The database handle is released in every case but one: when the
  directory is there and the database cannot be opened, \<^verbatim>\<open>sqlite3_open\<close> gives a handle all the same,
  and the process exits with 1 and keeps it.
\<close>

theorem main_leaves_clean:
  assumes "process_cold s" and "\<not> db_is_open s" "\<not> s_running s"
    and "run_state (main A E mem fuel ce rc_thread net ifaddr stopped bound evs) s = (Some code, t)"
  shows "code \<in> {0, 1} \<and> \<not> w_active t \<and> w_store t = 0 \<and> \<not> w_mu t \<and> \<not> w_stuck t \<and> \<not> g_lib t
    \<and> (stopped \<or> \<not> s_running t)
    \<and> db_is_open t = open_fails (cfg_db_path (config_load ce)) (s\<lparr>g_config := config_load ce\<rparr>)
    \<and> (db_is_open t \<longrightarrow> code = 1)"
  using main_ended [OF assms(1-3), of A E mem fuel ce rc_thread net ifaddr stopped bound evs] assms(4)
  by (auto simp: wp_def ended_def client_ok_def)

definition sample_process :: "(tables, unit) process" where
  "sample_process = station.extend (sample_station\<lparr>s_running := False\<rparr>)
     (process.fields [''/'' \<mapsto> True] (\<lambda>_. True) (\<lambda>_. True) False [])"

lemma sample_process_facts: "process_cold sample_process" "\<not> db_is_open sample_process" "\<not> s_running sample_process"
  "fs_opens sample_process path" "fs_may_make sample_process path" "db_conn sample_process = fresh_tables"
  by (simp_all add: process_cold_def client_cold_def sample_process_def process.defs sample_station_def station.defs
      sample_host_def server.defs host.defs sample_server_def)

theorem main_leaves_clean_witness:
  "\<exists>code t. run_state (main sample_api sql_exec True 0 empty_env 0 (\<lambda>_. sample_peer) None True True []) sample_process = (Some code, t)
     \<and> \<not> db_is_open t"
proof -
  obtain r t where run: "run_state (main sample_api sql_exec True 0 empty_env 0 (\<lambda>_. sample_peer) None True True []) sample_process = (r, t)"
    by fastforce
  have "value_of (main sample_api sql_exec True 0 empty_env 0 (\<lambda>_. sample_peer) None True True []) sample_process \<noteq> None"
    by (simp add: main_def run_server_def split_beta)
  with run have "r \<noteq> None" by simp
  then obtain code where "r = Some code" by blast
  moreover have "\<not> open_fails path (sample_process\<lparr>g_config := config_load empty_env\<rparr>)" for path
    using sample_process_facts(4) by (simp add: open_fails_def)
  ultimately show ?thesis
    using main_leaves_clean [OF sample_process_facts(1-3), of sample_api sql_exec True 0 empty_env 0 "\<lambda>_. sample_peer" None
        True True "[]" code t] run by simp
qed

end
