(* ===== verification/Tse_Start_Frame.thy ===== *)
theory Tse_Start_Frame
  imports Tse_Serving
begin

text \<open>
  What starting and stopping the TSE client keeps, for any relation between states (locale
  \<open>start_frame\<close>): most steps of \<^verbatim>\<open>tse_worm_init\<close> leave the connection, the allowlist, the PINs and the
  rest of the process alone (\<open>same_core\<close>), the others store settings or set the device up.  It is
  interpreted for the PINs here, and for the receipts and the tokens in \<open>Tse_Whole\<close>.
\<close>

section \<open>Steps that leave the core alone\<close>

definition pins_of :: "config \<Rightarrow> string \<times> string \<times> string" where
  "pins_of cfg = (cfg_worm_admin_pin cfg, cfg_worm_admin_puk cfg, cfg_worm_time_admin_pin cfg)"

definition same_core :: "('db, 'hw, 'x) station_scheme \<Rightarrow> ('db, 'hw, 'x) station_scheme \<Rightarrow> bool" where
  "same_core s t \<longleftrightarrow> db_conn t = db_conn s \<and> station.more t = station.more s
     \<and> cfg_allowed_client_serial (g_config t) = cfg_allowed_client_serial (g_config s)
     \<and> pins_of (g_config t) = pins_of (g_config s) \<and> prefix (w_trace s) (w_trace t)"

lemma same_core_rel [frame]: "reflp same_core" "transp same_core"
  by (auto simp: same_core_def intro!: reflpI transpI intro: prefix_order.trans)

lemma core_modify: "(\<And>s. same_core s (f s)) \<Longrightarrow> state_io_rel same_core (modify f)"
  by (rule io_modify)

lemma core_calls [frame]:
  "state_io_rel same_core (hw_rc A c)" "state_io_rel same_core (hw_handle A c)" "state_io_rel same_core (hw_u64 A c)"
  "state_io_rel same_core (hw_bytes A c)" "state_io_rel same_core (hw_text A c)" "state_io_rel same_core (hw_void A c)"
  "state_io_rel same_core (hw_open A c)" "state_io_rel same_core mu_lock" "state_io_rel same_core mu_unlock"
  "state_io_rel same_core (worm_client_mark_registered client)" "state_io_rel same_core time_now"
  "state_io_rel same_core (util_random_bytes n)"
  by (simp_all add: state_io_rel_def same_core_def hw_rc_def hw_handle_def hw_u64_def hw_bytes_def hw_text_def
      hw_void_def hw_open_def mu_lock_def mu_unlock_def worm_client_mark_registered_def split_beta Let_def)

lemma core_with_info [frame]:
  "(\<And>i. state_io_rel same_core (body i)) \<Longrightarrow> state_io_rel same_core (with_info A d body)"
  unfolding with_info_def by (intro frame)

lemma core_queries [frame]:
  "state_io_rel same_core (info_get A p i)" "state_io_rel same_core (worm_has_valid_time A)"
  "state_io_rel same_core (log_worm_diagnostics A)" "state_io_rel same_core (read_info_bytes A c)"
  "state_io_rel same_core (tse_init_state A)"
  unfolding info_get_def worm_has_valid_time_def log_worm_diagnostics_def read_info_bytes_def tse_init_state_def Let_def
  by (intro frame)+

text \<open>The block device.\<close>

lemma core_block [frame]:
  "state_io_rel same_core (tse_block_read_lba blk lba n)" "state_io_rel same_core (open_device d)"
  "state_io_rel same_core (tse_block_close blk)"
  by (auto simp: state_io_rel_def same_core_def tse_block_read_lba_def read_exact_def open_device_def tse_block_close_def
      close_device_def Let_def split: option.split prod.split)

lemma core_probe [frame]:
  "state_io_rel same_core (tse_block_open d)" "state_io_rel same_core (tse_block_read_info blk)"
  unfolding tse_block_open_def tse_block_load_offsets_def tse_block_read_info_def Let_def by (intro frame)+

lemma core_probe_open [frame]: "state_io_rel same_core (probe_open d)"
  unfolding probe_open_def tse_block_probe_def Let_def
  by (intro frame core_modify) (simp_all add: same_core_def pins_of_def)

lemma core_candidates [frame]: "state_io_rel same_core (try_candidates ds)"
  by (induction ds) (simp_all only: try_candidates.simps, (intro frame; assumption?)+)

lemma core_ensure_block [frame]: "state_io_rel same_core ensure_block_open"
  unfolding ensure_block_open_def by (intro frame)

text \<open>Opening the store.\<close>

lemma core_use [frame]: "state_io_rel same_core (use_store ctx path)" "state_io_rel same_core tse_worm_director_set_block"
  unfolding use_store_def tse_worm_director_set_block_def by (intro frame core_modify; simp add: same_core_def)+

lemma core_open_legacy_store [frame]: "state_io_rel same_core (open_store_legacy A path)"
  unfolding open_store_legacy_def by (intro frame)

lemma core_paths [frame]: "state_io_rel same_core (try_paths A configured paths)"
  by (induction paths) (simp_all only: try_paths.simps, (intro frame; assumption?)+)

lemma core_open_store [frame]: "state_io_rel same_core (open_store A path)"
  unfolding open_store_def by (intro frame core_modify) (simp_all add: same_core_def)

lemma core_open_block [frame]:
  "state_io_rel same_core (open_store_legacy_block A)" "state_io_rel same_core (open_store_with_block A)"
  unfolding open_store_legacy_block_def open_store_with_block_def
  by (intro frame core_modify; simp add: same_core_def)+

lemma core_open [frame]: "state_io_rel same_core (open_legacy A)" "state_io_rel same_core (open_device_store A)"
  unfolding open_legacy_def open_device_store_def or_else_def try_legacy_mount_paths_def Let_def by (intro frame)+

text \<open>Symbols, fields, the set-up and the end.\<close>

lemma core_load [frame]: "state_io_rel same_core (load_symbols syms)"
  unfolding load_symbols_def Let_def by (intro frame core_modify) (simp add: same_core_def)

lemma core_refresh [frame]:
  "state_io_rel same_core (refresh_info_fields A)" "state_io_rel same_core (refresh_certificate A mem)"
  unfolding refresh_info_fields_def refresh_certificate_def Let_def
  by (intro frame core_modify; simp add: same_core_def)+

lemma core_digits [frame]: "state_io_rel same_core (generate_random_digits outlen digits)"
  unfolding generate_random_digits_def Let_def by (intro frame)

lemma core_activate [frame]: "state_io_rel same_core activate"
  unfolding activate_def by (rule core_modify) (auto simp: same_core_def adopt_serial_def pins_of_def split: prod.split)

lemma core_unload [frame]: "state_io_rel same_core (unload b)"
  unfolding unload_def by (intro frame core_modify) (simp_all add: same_core_def)

lemma core_shutdown [frame]: "state_io_rel same_core (store_shutdown A)"
  unfolding store_shutdown_def tse_worm_shutdown_def by (intro frame core_modify) (simp_all add: same_core_def)

section \<open>The start\<close>

locale start_frame =
  fixes A :: "'hw worm_api" and E :: "'db engine"
    and R :: "('db, 'hw, 'x) station_scheme \<Rightarrow> ('db, 'hw, 'x) station_scheme \<Rightarrow> bool"
  assumes refl [frame]: "reflp R" and trans [frame]: "transp R"
    and core: "same_core s t \<Longrightarrow> R s t"
    and run_setup [frame]: "state_io_rel R (run_setup A seed puk pin time_pin)"
    and settings [frame]: "state_io_rel R (db_get_setting E k n)" "state_io_rel R (db_set_setting E k v)"
    and self_test [frame]: "state_io_rel R (ensure_self_test_passed A E force)"
    and sync [frame]: "state_io_rel R (perform_time_sync A E)"

context start_frame begin

lemma start_core: "state_io_rel same_core m \<Longrightarrow> state_io_rel R m"
  by (auto simp: state_io_rel_def intro: core split: prod.splits)

lemma start_modify: "(\<And>s. same_core s (f s)) \<Longrightarrow> state_io_rel R (modify f)"
  by (intro start_core core_modify)

lemma start_credential [frame]: "state_io_rel R (load_or_generate_credential E key configured outlen digits)"
  unfolding load_or_generate_credential_def Let_def by (intro frame start_core)

lemma start_provision [frame]: "state_io_rel R (ensure_tse_provisioned A E)"
  unfolding ensure_tse_provisioned_def Let_def
  by (intro io_bind io_gets io_if io_return refl trans start_credential run_setup start_core core_queries)

lemma start_prepare [frame]: "state_io_rel R (prepare_device A E mem)"
  unfolding prepare_device_def
  by (intro io_bind io_if io_return refl trans start_provision self_test sync start_core core_refresh core_queries)

lemma start_init [frame]: "state_io_rel R (tse_worm_init A E mem)"
  unfolding tse_worm_init_def
  by (intro io_bind io_gets io_if io_option io_return refl trans start_prepare start_modify start_core core_load core_unload
      core_ensure_block core_open core_activate) (simp_all add: same_core_def)

lemma start_store [frame]: "state_io_rel R (store_init A E mem)"
  unfolding store_init_def
  by (intro io_bind io_gets io_if io_option io_return refl trans start_init settings start_modify start_core)
    (simp_all add: same_core_def util_now_iso_def time_now_def state_io_rel_def)

end

section \<open>The credentials of a start\<close>

definition setup_count :: "('db, 'hw, 'x) server_scheme \<Rightarrow> nat" where
  "setup_count s = length (setups (w_trace s))"

text \<open>The PINs and the PUK stay as they were, or \<^verbatim>\<open>worm_tse_setup\<close> was called.\<close>

definition pins_kept :: "('db, 'hw, 'x) station_scheme \<Rightarrow> ('db, 'hw, 'x) station_scheme \<Rightarrow> bool" where
  "pins_kept s t \<longleftrightarrow> prefix (w_trace s) (w_trace t)
     \<and> (pins_of (g_config t) = pins_of (g_config s) \<or> setup_count s < setup_count t)"

lemma setup_count_mono: "prefix (w_trace s) (w_trace t) \<Longrightarrow> setup_count s \<le> setup_count t"
  by (auto simp: setup_count_def setups_def prefix_def)

lemma pins_kept_rel: "reflp pins_kept" "transp pins_kept"
proof -
  show "reflp pins_kept" by (simp add: reflp_def pins_kept_def)
  show "transp pins_kept"
  proof (rule transpI)
    fix s t u :: "('db, 'hw, 'x) station_scheme" assume "pins_kept s t" "pins_kept t u"
    then show "pins_kept s u"
      using setup_count_mono [of s t] setup_count_mono [of t u]
      by (auto simp: pins_kept_def intro: prefix_order.trans)
  qed
qed

lemma pins_kept_stays:
  fixes s :: "('db, 'hw, 'x) station_scheme"
  shows "stays C s t \<Longrightarrow> pins_kept s t"
  by (auto simp: stays_def pins_kept_def)

interpretation credentials: start_frame A E pins_kept
proof
  show "reflp pins_kept" "transp pins_kept" by (rule pins_kept_rel)+
  show "same_core s t \<Longrightarrow> pins_kept s t" for s t by (simp add: same_core_def pins_kept_def)
  show "state_io_rel pins_kept (run_setup A seed puk pin time_pin)" for seed puk pin time_pin
    by (auto simp: state_io_rel_def pins_kept_def run_setup_def hw_rc_def worm_client_mark_registered_def Let_def
        setup_count_def setups_def split_beta split: if_splits)
  show "state_io_rel pins_kept (db_get_setting E k n)" "state_io_rel pins_kept (db_set_setting E k v)" for k n v
    by (auto simp: state_io_rel_def pins_kept_def db_get_setting_def db_set_setting_def)
  show "state_io_rel pins_kept (ensure_self_test_passed A E force)" for force
    using stays_ensure_self_test [of "\<lambda>_. True" A E force]
    by (auto simp: state_io_rel_def intro: pins_kept_stays split: prod.splits)
  show "state_io_rel pins_kept (perform_time_sync A E)"
    using stays_sync [of "\<lambda>_. True" A E]
    by (auto simp: state_io_rel_def intro: pins_kept_stays split: prod.splits)
qed

text \<open>
  C29. A start takes the PINs and the PUK from the configuration only: whatever the settings table
  holds, the PINs and the PUK the client works with after a start are those it was configured with,
  unless the start called \<^verbatim>\<open>worm_tse_setup\<close>.  The credentials that the first start generated and stored
  are not read by a later start on the device it has set up; when no TimeAdmin PIN is configured there
  is none, and its clock cannot be set (\<open>can_sync\<close>).
\<close>

theorem stored_credentials_unused:
  "let t = poststate (tse_worm_init A E mem) s in
    made is_setup s t
    \<or> (cfg_worm_admin_pin (g_config t) = cfg_worm_admin_pin (g_config s)
       \<and> cfg_worm_admin_puk (g_config t) = cfg_worm_admin_puk (g_config s)
       \<and> cfg_worm_time_admin_pin (g_config t) = cfg_worm_time_admin_pin (g_config s))"
proof -
  let ?t = "poststate (tse_worm_init A E mem) s"
  have kept: "pins_kept s ?t" by (rule io_poststateD) (rule credentials.start_init)
  then obtain ext where ext: "w_trace ?t = w_trace s @ ext" by (auto simp: pins_kept_def prefix_def)
  have "made is_setup s ?t" if "setup_count s < setup_count ?t"
  proof -
    have "setups ext \<noteq> []" using that ext by (auto simp: setup_count_def setups_def)
    then show ?thesis unfolding made_def using ext by (auto simp: setups_def list_ex_iff filter_empty_conv)
  qed
  with kept show ?thesis by (auto simp: pins_kept_def pins_of_def Let_def)
qed

end
