(* ===== verification/Tse_Whole.thy ===== *)
theory Tse_Whole
  imports Tse_Main Tse_Api Tse_Start_Frame
begin

text \<open>
  What a run of the whole server keeps: the interface \<open>requests\<close> for the receipts in the journal and
  for the clients the tokens belong to, on any engine whose statements may fail, the interface
  \<open>start_frame\<close> for both and for the banner, and the run of \<^verbatim>\<open>main\<close> around them.  The properties are
  in the root theory.
\<close>

section \<open>The globals that serving only reads\<close>

definition same_setup :: "('db, 'hw, 'x) server_scheme \<Rightarrow> ('db, 'hw, 'x) server_scheme \<Rightarrow> bool" where
  "same_setup s t \<longleftrightarrow> w_active t = w_active s \<and> g_config t = g_config s"

interpretation fixed: client_frame A E same_setup
proof
  show "reflp same_setup" "transp same_setup" by (auto simp: same_setup_def intro!: reflpI transpI)
qed (simp_all add: state_io_rel_def same_setup_def hw_rc_def hw_handle_def hw_u64_def hw_bytes_def hw_text_def hw_void_def
    mu_lock_def mu_unlock_def worm_client_mark_registered_def run_export_def split_beta Let_def)

lemma io_both:
  assumes "state_io_rel P m" "state_io_rel Q m" "\<And>s t. P s t \<Longrightarrow> Q s t \<Longrightarrow> R s t"
  shows "state_io_rel R m"
  using assms by (auto simp: state_io_rel_def)

text \<open>A login, from what it writes.\<close>

lemma io_issue:
  assumes "reflp R" "transp R" "state_io_rel R (store_register_client A E c)"
    "state_io_rel R (util_random_hex 64 24)" "\<And>t. state_io_rel R (db_save_oauth_token E t (Some c) 86400)"
  shows "state_io_rel R (issue_token A E c)"
  unfolding issue_token_def reply_error_def reply_def
  by (intro io_bind io_gets io_option io_if io_return assms)

lemma io_login:
  assumes "reflp R" "transp R" "\<And>c. state_io_rel R (issue_token A E c)"
  shows "state_io_rel R (handle_oauth A E req)"
  unfolding handle_oauth_def reply_error_def reply_def Let_def
  by (intro io_bind io_gets io_option io_prod io_if io_return assms)

section \<open>Receipts\<close>

text \<open>No receipt is lost, none changes hands or loses its start, and a closed one does not change.\<close>

definition receipts_kept :: "(int \<Rightarrow> tx_row option) \<Rightarrow> (int \<Rightarrow> tx_row option) \<Rightarrow> bool" where
  "receipts_kept m m' \<longleftrightarrow> (\<forall>n x. m n = Some x \<longrightarrow>
     (\<exists>y. m' n = Some y \<and> same_row x y \<and> (\<not> open_row x \<longrightarrow> y = x)))"

lemma receipts_kept_refl [simp]: "receipts_kept m m"
  by (simp add: receipts_kept_def same_row_def)

lemma same_row_trans: "same_row x y \<Longrightarrow> same_row y z \<Longrightarrow> same_row x z"
  by (simp add: same_row_def)

lemma receipts_kept_trans: "receipts_kept m m' \<Longrightarrow> receipts_kept m' m'' \<Longrightarrow> receipts_kept m m''"
  unfolding receipts_kept_def by (metis same_row_trans)

lemma receipts_kept_steps: "started n m m' \<Longrightarrow> receipts_kept m m'" "finished n m m' \<Longrightarrow> receipts_kept m m'"
  by (auto simp: receipts_kept_def started_def finished_def same_row_def)

text \<open>While the simulator signs; a device has its own journal.\<close>

definition keeps_receipts :: "('db \<Rightarrow> tables) \<Rightarrow> ('db, 'hw, 'x) server_scheme \<Rightarrow> ('db, 'hw, 'x) server_scheme \<Rightarrow> bool" where
  "keeps_receipts view s t \<longleftrightarrow> w_active t = w_active s
     \<and> (\<not> w_active s \<longrightarrow> receipts_kept (journal view s) (journal view t))"

lemma keeps_receipts_rel: "reflp (keeps_receipts view)" "transp (keeps_receipts view)"
  by (auto simp: keeps_receipts_def intro!: reflpI transpI intro: receipts_kept_trans)

lemma keeps_receipts_device:
  "state_io_rel same_setup m \<Longrightarrow> state_io_rel (on_view view same_rows) m \<Longrightarrow> state_io_rel (keeps_receipts view) m"
  by (erule (1) io_both) (simp add: same_setup_def keeps_receipts_def on_view_same_rows)

context sqlite_engine begin

lemma login_rows: "state_io_rel (on_view view same_rows) (handle_oauth A E req)"
proof -
  have sql: "state_io_rel (on_view view same_rows) (sql_run E (UpsertClient c now))"
    "state_io_rel (on_view view same_rows) (sql_run E (ReplaceToken t c i e))" for c now t i e
    by (rule device.kept_sql, simp add: no_journal_def)+
  note rel = reflp_on_view [OF device.rel_refl] transp_on_view [OF device.rel_trans]
  have "state_io_rel (on_view view same_rows) (db_save_oauth_token E t c secs)" for t c secs
    unfolding db_save_oauth_token_def Let_def
    by (intro io_bind io_return io_time_now io_util_now_iso device.rel_refl rel sql)
  moreover have "state_io_rel (on_view view same_rows) (store_register_client A E c)" for c
    unfolding store_register_client_def run_job_def
    by (intro io_bind io_gets io_if io_return io_util_now_iso device.rel_refl device.kept_register rel sql)
  ultimately show ?thesis
    by (intro io_login io_issue rel on_view_random device.rel_refl)
qed

lemma keeps_receipts_start: "state_io_rel (keeps_receipts view :: ('db, 'hw, 'x) server_scheme \<Rightarrow> _) (store_start_transaction A E c pt pd ext out0)"
proof (rule io_wp)
  fix s :: "('db, 'hw, 'x) server_scheme"
  let ?m = "store_start_transaction A E c pt pd ext out0"
  have "same_setup s (poststate ?m s)" by (rule io_poststateD) (rule fixed.R_store_start)
  moreover have "receipts_kept (journal view s) (journal view (poststate ?m s))" if "\<not> w_active s"
    using sim_start_law [of c pt pd ext out0 s] that
    by (auto simp: store_start_transaction_def wp_run intro: receipts_kept_steps)
  ultimately show "wp ?m (\<lambda>_. keeps_receipts view s) s" by (simp add: wp_run keeps_receipts_def same_setup_def)
qed

lemma keeps_receipts_finish: "state_io_rel (keeps_receipts view :: ('db, 'hw, 'x) server_scheme \<Rightarrow> _) (store_finish_transaction A E c n pt pd out0 cl ml)"
proof (rule io_wp)
  fix s :: "('db, 'hw, 'x) server_scheme"
  let ?m = "store_finish_transaction A E c n pt pd out0 cl ml"
  have "same_setup s (poststate ?m s)" by (rule io_poststateD) (rule fixed.R_store_finish)
  moreover have "receipts_kept (journal view s) (journal view (poststate ?m s))" if "\<not> w_active s"
    using sim_finish_law [of n pt pd out0 cl ml s] that
    by (auto simp: store_finish_transaction_def wp_run intro: receipts_kept_steps)
  ultimately show "wp ?m (\<lambda>_. keeps_receipts view s) s" by (simp add: wp_run keeps_receipts_def same_setup_def)
qed

lemma receipts_requests: "requests A E (keeps_receipts view)"
proof
  show "reflp (keeps_receipts view)" "transp (keeps_receipts view)" by (rule keeps_receipts_rel)+
  show "state_io_rel (keeps_receipts view) (sql_run E q)" if "q \<in> read_statements" for q
    using that by (intro keeps_receipts_device fixed.R_sql device.kept_sql)
      (auto simp: read_statements_def setting_reads_def token_reads_def no_journal_def)
  show "state_io_rel (keeps_receipts view) time_now"
    by (intro keeps_receipts_device fixed.R_time io_time_now device.rel_refl)
  show "state_io_rel (keeps_receipts view) (tse_worm_fill_info A i)" for i
    by (intro keeps_receipts_device fixed.R_info device.kept_fill_info)
  show "state_io_rel (keeps_receipts view) (tse_worm_export_prepare A E)"
    by (intro keeps_receipts_device fixed.R_prepare device.kept_export)
  show "state_io_rel (keeps_receipts view) (tse_worm_export_tar A E cb ctx)" for cb and ctx :: "writer \<times> bool"
    by (intro keeps_receipts_device fixed.R_export device.kept_export_tar)
  show "state_io_rel (keeps_receipts view) (tse_worm_log_time_format A)"
    by (intro keeps_receipts_device fixed.R_format device.kept_device)
  show "state_io_rel (keeps_receipts view) (store_start_transaction A E c pt pd ext out0)" for c pt pd ext out0
    by (rule keeps_receipts_start)
  show "state_io_rel (keeps_receipts view) (store_finish_transaction A E c n pt pd out0 cl ml)" for c n pt pd out0 cl ml
    by (rule keeps_receipts_finish)
  show "state_io_rel (keeps_receipts view) (handle_oauth A E req)" for req
    by (intro keeps_receipts_device fixed.R_oauth login_rows)
qed

end

section \<open>Tokens\<close>

text \<open>Every token that is stored afterwards was stored before or belongs to a client the configuration allows.\<close>

definition keeps_allowed :: "config \<Rightarrow> tables \<Rightarrow> tables \<Rightarrow> bool" where
  "keeps_allowed cfg t t' \<longleftrightarrow> (\<forall>tok row. map_of (t_tokens t') tok = Some row \<longrightarrow>
     map_of (t_tokens t) tok = Some row \<or> config_is_client_allowed cfg (Some (tok_client row)))"

lemma keeps_allowed_rel: "reflp (keeps_allowed cfg)" "transp (keeps_allowed cfg)"
  unfolding keeps_allowed_def by (auto intro!: reflpI) (rule transpI, blast)

definition allowed_statements :: "config \<Rightarrow> sql set" where
  "allowed_statements cfg = {q. \<forall>t. keeps_allowed cfg t (fst (sql_exec t q))}"

definition keeps_tokens :: "('db \<Rightarrow> tables) \<Rightarrow> ('db, 'hw, 'x) server_scheme \<Rightarrow> ('db, 'hw, 'x) server_scheme \<Rightarrow> bool" where
  "keeps_tokens view s t \<longleftrightarrow> g_config t = g_config s
     \<and> keeps_allowed (g_config s) (view (db_conn s)) (view (db_conn t))"

lemma keeps_tokens_rel: "reflp (keeps_tokens view)" "transp (keeps_tokens view)"
  using reflpD [OF keeps_allowed_rel(1)] transpD [OF keeps_allowed_rel(2)]
  by (auto simp: keeps_tokens_def intro!: reflpI transpI)

lemma keeps_tokensI:
  "state_io_rel same_setup m \<Longrightarrow> (\<And>cfg. state_io_rel (on_view view (keeps_allowed cfg)) m) \<Longrightarrow> state_io_rel (keeps_tokens view) m"
  by (auto simp: state_io_rel_def same_setup_def keeps_tokens_def on_view_def)

lemma no_token_write_allowed: "no_token_write \<subseteq> allowed_statements cfg"
  by (auto simp: no_token_write_def allowed_statements_def keeps_allowed_def)

lemma grant_allowed: "config_is_client_allowed cfg (Some c) \<Longrightarrow> ReplaceToken tok c i e \<in> allowed_statements cfg"
  by (auto simp: allowed_statements_def keeps_allowed_def update_conv' split: if_splits)

sublocale sqlite_engine \<subseteq> allowed: api_frame E view "allowed_statements cfg" "keeps_allowed cfg" for cfg
proof
  show "reflp (keeps_allowed cfg)" "transp (keeps_allowed cfg)" by (rule keeps_allowed_rel)+
  show "keeps (allowed_statements cfg) (keeps_allowed cfg)" by (simp add: keeps_def allowed_statements_def)
  show "store_statements \<subseteq> allowed_statements cfg" "token_reads \<subseteq> allowed_statements cfg"
    using no_token_write no_token_write_allowed by blast+
  then show "setting_writes \<subseteq> allowed_statements cfg" by (auto simp: store_statements_def)
qed

context sqlite_engine begin

lemma issue_allowed:
  assumes "config_is_client_allowed cfg (Some c)"
  shows "state_io_rel (on_view view (keeps_allowed cfg)) (issue_token A E c)"
proof -
  note rel = reflp_on_view [OF allowed.rel_refl] transp_on_view [OF allowed.rel_trans]
  have "state_io_rel (on_view view (keeps_allowed cfg)) (db_save_oauth_token E t (Some c) secs)" for t secs
    unfolding db_save_oauth_token_def Let_def option.case
    by (intro io_bind io_return io_time_now io_util_now_iso allowed.rel_refl rel allowed.kept_sql grant_allowed assms)
  then show ?thesis
    by (intro io_issue rel on_view_random allowed.rel_refl allowed.kept_register_client)
qed

lemma keeps_tokens_login: "state_io_rel (keeps_tokens view :: ('db, 'hw, 'x) server_scheme \<Rightarrow> _) (handle_oauth A E req)"
proof (rule io_wp)
  fix s :: "('db, 'hw, 'x) server_scheme"
  have "on_view view (keeps_allowed (g_config s)) s (poststate (handle_oauth A E req) s)"
  proof (cases "\<exists>i p. http_parse_basic_auth req 256 256 = Some (i, p) \<and> eas_ok (g_config s) p
      \<and> config_is_client_allowed (g_config s) (Some (if i \<noteq> [] then i else ''unknown''))")
    case True
    then obtain c where "config_is_client_allowed (g_config s) (Some c)"
      "poststate (handle_oauth A E req) s = poststate (issue_token A E c) s"
      by (auto simp: handle_oauth_def Let_def)
    then show ?thesis using io_poststateD [OF issue_allowed] by simp
  next
    case False
    then show ?thesis by (intro allowed.api_oauth) blast
  qed
  moreover have "same_setup s (poststate (handle_oauth A E req) s)" by (rule io_poststateD) (rule fixed.R_oauth)
  ultimately show "wp (handle_oauth A E req) (\<lambda>_. keeps_tokens view s) s"
    by (simp add: wp_run keeps_tokens_def same_setup_def on_view_def)
qed

lemma tokens_requests: "requests A E (keeps_tokens view)"
proof
  show "reflp (keeps_tokens view)" "transp (keeps_tokens view)" by (rule keeps_tokens_rel)+
  show "state_io_rel (keeps_tokens view) (sql_run E q)" if "q \<in> read_statements" for q
  proof -
    have "q \<in> no_token_write"
      using that by (auto simp: read_statements_def setting_reads_def token_reads_def no_token_write_def)
    then have "q \<in> allowed_statements cfg" for cfg using no_token_write_allowed by blast
    then show ?thesis by (intro keeps_tokensI fixed.R_sql allowed.kept_sql)
  qed
  show "state_io_rel (keeps_tokens view) time_now"
    by (intro keeps_tokensI fixed.R_time io_time_now allowed.rel_refl)
  show "state_io_rel (keeps_tokens view) (tse_worm_fill_info A i)" for i
    by (intro keeps_tokensI fixed.R_info allowed.kept_fill_info)
  show "state_io_rel (keeps_tokens view) (tse_worm_export_prepare A E)"
    by (intro keeps_tokensI fixed.R_prepare allowed.kept_export)
  show "state_io_rel (keeps_tokens view) (tse_worm_export_tar A E cb ctx)" for cb and ctx :: "writer \<times> bool"
    by (intro keeps_tokensI fixed.R_export allowed.kept_export_tar)
  show "state_io_rel (keeps_tokens view) (tse_worm_log_time_format A)"
    by (intro keeps_tokensI fixed.R_format allowed.kept_device)
  show "state_io_rel (keeps_tokens view) (store_start_transaction A E c pt pd ext out0)" for c pt pd ext out0
    by (intro keeps_tokensI fixed.R_store_start allowed.kept_store_start)
  show "state_io_rel (keeps_tokens view) (store_finish_transaction A E c n pt pd out0 cl ml)" for c n pt pd out0 cl ml
    by (intro keeps_tokensI fixed.R_store_finish allowed.kept_store_finish)
  show "state_io_rel (keeps_tokens view) (handle_oauth A E req)" for req
    by (rule keeps_tokens_login)
qed

end

interpretation faulty_receipts: requests A "faulty_exec plan" "keeps_receipts snd"
  by (rule sqlite_engine.receipts_requests) (rule faulty.sqlite_engine_axioms)

interpretation faulty_tokens: requests A "faulty_exec plan" "keeps_tokens snd"
  by (rule sqlite_engine.tokens_requests) (rule faulty.sqlite_engine_axioms)

section \<open>A run of the process\<close>

text \<open>What serving does not set: the banner and the allowlist.\<close>

definition same_outline :: "('db, 'hw, 'x) process_scheme \<Rightarrow> ('db, 'hw, 'x) process_scheme \<Rightarrow> bool" where
  "same_outline s t \<longleftrightarrow> printed t = printed s
     \<and> cfg_allowed_client_serial (g_config t) = cfg_allowed_client_serial (g_config s)"

interpretation outline: client_frame A E "same_outline :: ('db, 'hw, 'x) process_scheme \<Rightarrow> _"
proof
  show "reflp (same_outline :: ('db, 'hw, 'x) process_scheme \<Rightarrow> _)" "transp (same_outline :: ('db, 'hw, 'x) process_scheme \<Rightarrow> _)"
    by (auto simp: same_outline_def intro!: reflpI transpI)
qed (simp_all add: state_io_rel_def same_outline_def hw_rc_def hw_handle_def hw_u64_def hw_bytes_def hw_text_def hw_void_def
    mu_lock_def mu_unlock_def worm_client_mark_registered_def run_export_def split_beta Let_def)

lemma core_outline: "same_core s t \<Longrightarrow> same_outline s t"
  by (cases s, cases t) (simp add: same_core_def same_outline_def)

text \<open>What starting does not write: the transactions and the tokens.\<close>

definition same_books :: "tables \<Rightarrow> tables \<Rightarrow> bool" where
  "same_books t t' \<longleftrightarrow> t_transactions t' = t_transactions t \<and> t_tokens t' = t_tokens t"

definition keeps_books :: "('db \<Rightarrow> tables) \<Rightarrow> ('db, 'hw, 'x) process_scheme \<Rightarrow> ('db, 'hw, 'x) process_scheme \<Rightarrow> bool" where
  "keeps_books view s t \<longleftrightarrow> same_outline s t \<and> on_view view same_books s t"

lemma keeps_booksI:
  "state_io_rel same_outline m \<Longrightarrow> state_io_rel (on_view view same_books) m \<Longrightarrow> state_io_rel (keeps_books view) m"
  by (erule (1) io_both) (simp add: keeps_books_def)

lemma only_db_setup: "only_db s t \<Longrightarrow> same_setup s t"
  by (auto simp: only_db_def same_setup_def)

lemma opens_setup: "state_io_rel same_setup (db_open path)"
proof (rule io_wp)
  fix s :: "('db, 'hw, 'x) process_scheme"
  show "wp (db_open path) (\<lambda>_. same_setup s) s"
    unfolding db_open_def by (rule wp_seq [OF ensure_parent_made]) (auto simp: grows_def wps same_setup_def)
qed

lemma keeps_books_view: "state_io_rel (keeps_books view) m \<Longrightarrow> state_io_rel (on_view view same_books) m"
  by (auto simp: state_io_rel_def keeps_books_def split: prod.splits)

lemma keeps_books_journal: "keeps_books view s t \<Longrightarrow> journal view t = journal view s"
  by (simp add: keeps_books_def on_view_def same_books_def journal_def)

lemma schema_same_books: "keeps schema_writes same_books"
  by (auto simp: keeps_def same_books_def schema_writes_def setting_writes_def setting_reads_def)

sublocale sqlite_engine \<subseteq> books: table_frame E view schema_writes same_books
proof
  show "reflp same_books" "transp same_books" by (auto simp: same_books_def intro!: reflpI transpI)
  show "keeps schema_writes same_books" by (rule schema_same_books)
  show "setting_writes \<subseteq> schema_writes" by (auto simp: schema_writes_def)
qed

sublocale sqlite_engine \<subseteq> starting: start_frame A E "keeps_books view :: ('db, 'hw, 'x) process_scheme \<Rightarrow> _" for A
proof
  show "reflp (keeps_books view :: ('db, 'hw, 'x) process_scheme \<Rightarrow> _)" "transp (keeps_books view :: ('db, 'hw, 'x) process_scheme \<Rightarrow> _)"
    by (auto simp: keeps_books_def same_outline_def on_view_def same_books_def intro!: reflpI transpI)
  show "keeps_books view s t" if "same_core s t" for s t :: "('db, 'hw, 'x) process_scheme"
    using that core_outline [OF that] by (simp add: keeps_books_def on_view_def same_books_def same_core_def)
  show "state_io_rel (keeps_books view :: ('db, 'hw, 'x) process_scheme \<Rightarrow> _) (run_setup A seed puk pin time_pin)"
    for seed puk pin time_pin
    by (auto simp: state_io_rel_def keeps_books_def same_outline_def on_view_def same_books_def run_setup_def hw_rc_def
        worm_client_mark_registered_def Let_def split_beta split: if_splits)
  show "state_io_rel (keeps_books view :: ('db, 'hw, 'x) process_scheme \<Rightarrow> _) (db_get_setting E k n)"
    "state_io_rel (keeps_books view :: ('db, 'hw, 'x) process_scheme \<Rightarrow> _) (db_set_setting E k v)" for k n v
    by (intro keeps_booksI outline.same_db books.kept_settings)+
  show "state_io_rel (keeps_books view :: ('db, 'hw, 'x) process_scheme \<Rightarrow> _) (ensure_self_test_passed A E force)" for force
    by (intro keeps_booksI outline.same_self_test books.kept_self_test)
  show "state_io_rel (keeps_books view :: ('db, 'hw, 'x) process_scheme \<Rightarrow> _) (perform_time_sync A E)"
    by (intro keeps_booksI outline.same_sync books.kept_sync)
qed

context sqlite_engine begin

lemma books_open: "state_io_rel (keeps_books view) (db_open path)"
proof (rule io_wp)
  fix s :: "('db, 'hw, 'x) process_scheme"
  show "wp (db_open path) (\<lambda>_. keeps_books view s) s"
    unfolding db_open_def
    by (rule wp_seq [OF ensure_parent_made])
      (auto simp: grows_def wps keeps_books_def same_outline_def on_view_def same_books_def)
qed

lemma books_schema: "state_io_rel (keeps_books view :: ('db, 'hw, 'x) process_scheme \<Rightarrow> _) (db_init_schema E cfg)"
proof (rule keeps_booksI)
  show "state_io_rel (same_outline :: ('db, 'hw, 'x) process_scheme \<Rightarrow> _) (db_init_schema E cfg)"
    unfolding db_init_schema_def repair_serial_def Let_def
    by (intro io_bind io_if io_return io_option io_create_items outline.refl outline.trans outline.sql outline.same_db
        outline.ok_time)
  show "state_io_rel (on_view view same_books) (db_init_schema E cfg :: (('db, 'hw, 'x) process_scheme, _) state)"
    by (intro io_db_init_schema books.rel_refl books.rel_trans schema_same_books)
qed

end

section \<open>The receipts in a run\<close>

text \<open>\<^verbatim>\<open>main\<close> says so when the device signs.\<close>

definition hardware_line :: string where
  "hardware_line = ''TSE mode:   hardware (auto-detected removable device)''"

lemma banner_hardware: "active \<Longrightarrow> hardware_line \<in> set (banner cfg public ips active)"
  by (simp add: banner_def mode_lines_def hardware_line_def)

text \<open>After the banner: no more is printed, and an inactive client stays so and keeps the receipts.\<close>

definition signs :: "('db \<Rightarrow> tables) \<Rightarrow> ('db, 'hw, 'x) process_scheme \<Rightarrow> ('db, 'hw, 'x) process_scheme \<Rightarrow> bool" where
  "signs view s t \<longleftrightarrow> printed t = printed s
     \<and> (\<not> w_active s \<longrightarrow> \<not> w_active t \<and> receipts_kept (journal view s) (journal view t))"

lemma signs_rel: "reflp (signs view)" "transp (signs view)"
  by (auto simp: signs_def intro!: reflpI transpI intro: receipts_kept_trans)

lemma signs_modify:
  "(\<And>s. printed (f s) = printed s \<and> w_active (f s) = w_active s \<and> db_conn (f s) = db_conn s) \<Longrightarrow>
   state_io_rel (signs view) (modify f)"
  by (rule io_modify) (simp add: signs_def journal_def)

lemma signs_stop: "state_io_rel (signs view :: ('db, 'hw, 'x) process_scheme \<Rightarrow> _) (store_shutdown A)"
proof (rule io_wp)
  fix s :: "('db, 'hw, 'x) process_scheme"
  let ?t = "poststate (store_shutdown A) s"
  have "same_outline s ?t" by (rule core_outline, rule io_poststateD) (rule core_shutdown)
  moreover have "?t = s" if "\<not> w_active s" using that by (simp add: store_shutdown_def)
  ultimately show "wp (store_shutdown A) (\<lambda>_. signs view s) s"
    by (auto simp: wp_run signs_def same_outline_def)
qed

lemma signs_close: "state_io_rel (signs view) db_close"
  unfolding db_close_def by (rule signs_modify) simp

text \<open>With the simulator the start does not touch the client.\<close>

lemma start_inactive:
  fixes s :: "('db, 'hw, 'x) process_scheme"
  assumes "\<not> w_active s" "cfg_tse_mode (g_config s) = TSE_MODE_SIM"
  shows "\<not> w_active (poststate (store_init A E mem) s)"
proof -
  let ?rest = "do { t \<leftarrow> State_Monad.get;
     _ \<leftarrow> db_set_setting E ''tse_serial'' (store_normalize_serial (Some (cfg_tse_serial (g_config t))) 128);
     created \<leftarrow> db_get_setting E ''created_at'' 64;
     (case created of
        Some c \<Rightarrow> modify (\<lambda>s. s\<lparr>g_created_at := c\<rparr>)
      | None \<Rightarrow> do { now \<leftarrow> util_now_iso; modify (\<lambda>s. s\<lparr>g_created_at := now\<rparr>) }) }"
  have "state_io_rel same_setup (modify (\<lambda>s. s\<lparr>g_created_at := c\<rparr>) :: (('db, 'hw, 'x) process_scheme, unit) state)" for c
    by (rule io_modify) (simp add: same_setup_def)
  then have "state_io_rel same_setup (?rest :: (('db, 'hw, 'x) process_scheme, unit) state)"
    by (intro io_bind io_gets io_option fixed.refl fixed.trans fixed.same_db fixed.ok_time)
  then have "same_setup s (poststate ?rest s)" by (rule io_poststateD)
  then show ?thesis using assms by (simp add: store_init_def same_setup_def)
qed

context sqlite_engine begin

lemma signs_serve: "state_io_rel (signs view :: ('db, 'hw, 'x) process_scheme \<Rightarrow> _) (http_serve A E mem fuel evs)"
  by (rule io_both [OF outline.ok_serve requests.ok_serve [OF receipts_requests]])
    (auto simp: signs_def same_outline_def keeps_receipts_def)

lemma signs_leave:
  "state_io_rel (signs view) (serve_and_leave A E mem fuel bound evs)"
  unfolding serve_and_leave_def
  by (intro io_bind io_if io_return signs_rel signs_serve signs_stop signs_close signs_modify) simp

lemma run_receipts:
  fixes s :: "('db, 'hw, 'x) process_scheme"
  assumes "\<not> w_active s" and t: "t = poststate (run_server A E mem fuel rc net ifaddr stopped bound evs) s"
    and sim: "cfg_tse_mode (g_config s) = TSE_MODE_SIM \<or> hardware_line \<notin> set (printed t)"
  shows "receipts_kept (journal view s) (journal view t)"
proof -
  define u where "u = poststate (store_init A E mem) s"
  define b where "b = u\<lparr>s_running := rc = 0, printed := printed u @ banner (g_config u)
    (network_resolve_public_ip net (g_config u) 64) (network_local_ips ifaddr 8) (w_active u)\<rparr>"
  let ?rest = "if stopped then do { _ \<leftarrow> store_shutdown A; _ \<leftarrow> db_close; ret (Some 0) }
     else serve_and_leave A E mem fuel bound evs"
  have "keeps_books view s u" unfolding u_def by (rule io_poststateD) (rule starting.start_store)
  then have same: "journal view b = journal view s"
    by (simp add: b_def journal_def keeps_books_def on_view_def same_books_def)
  have rest: "t = poststate ?rest b"
    by (simp add: t run_server_def b_def u_def split_beta)
  have "state_io_rel (signs view :: ('db, 'hw, 'x) process_scheme \<Rightarrow> _) ?rest"
    by (intro io_bind io_if io_return signs_rel signs_stop signs_close signs_leave)
  then have signs: "signs view b t" unfolding rest by (rule io_poststateD)
  have "\<not> w_active b"
  proof
    assume "w_active b"
    then have active: "w_active u" by (simp add: b_def)
    then have "hardware_line \<in> set (printed b)" by (simp add: b_def banner_hardware)
    then have "hardware_line \<in> set (printed t)" using signs by (simp add: signs_def)
    with sim start_inactive [OF assms(1), of A E mem] active show False by (simp add: u_def)
  qed
  then show ?thesis using signs same by (simp add: signs_def)
qed

lemma early_books:
  fixes s :: "('db, 'hw, 'x) process_scheme"
  assumes "u = poststate (db_open path) s" "v = poststate (db_init_schema E cfg) u"
  shows "journal view u = journal view s" "journal view v = journal view s" "same_setup s v"
proof -
  have books: "keeps_books view s u" unfolding assms(1) by (rule io_poststateD) (rule books_open)
  then show u: "journal view u = journal view s" by (rule keeps_books_journal)
  have "keeps_books view u v" unfolding assms(2) by (rule io_poststateD) (rule books_schema)
  then show "journal view v = journal view s" using u keeps_books_journal by metis
  have "same_setup u v" unfolding assms(2) by (rule only_db_setup, rule io_poststateD) (rule only_db_layer)
  moreover have "same_setup s u" unfolding assms(1) by (rule io_poststateD) (rule opens_setup)
  ultimately show "same_setup s v" by (simp add: same_setup_def)
qed

lemma main_receipts:
  fixes s :: "('db, 'hw, 'x) process_scheme"
  assumes "\<not> w_active s" and t: "t = poststate (main A E mem fuel ce rc net ifaddr stopped bound evs) s"
    and "cfg_tse_mode (config_load ce) = TSE_MODE_SIM \<or> hardware_line \<notin> set (printed t)"
  shows "receipts_kept (journal view s) (journal view t)"
proof -
  let ?s = "s\<lparr>g_config := config_load ce\<rparr>"
  define u where "u = poststate (db_open (cfg_db_path (config_load ce))) ?s"
  define v where "v = poststate (db_init_schema E (config_load ce)) u"
  note early = early_books [OF u_def v_def]
  have s: "journal view ?s = journal view s" by (simp add: journal_def)
  have v: "\<not> w_active v" "g_config v = config_load ce" using early(3) assms(1) by (simp_all add: same_setup_def)
  consider "t = u" | "t = v\<lparr>db_is_open := False\<rparr>" | "t = poststate (run_server A E mem fuel rc net ifaddr stopped bound evs) v"
    using t unfolding main_def u_def v_def by (simp add: db_close_def split_beta split: if_splits)
  then show ?thesis
  proof cases
    case 1
    then show ?thesis using early(1) s by simp
  next
    case 2
    then have "journal view t = journal view v" by (simp add: journal_def)
    then show ?thesis using early(2) s by simp
  next
    case 3
    show ?thesis using run_receipts [OF v(1) 3] assms(3) early(2) s v(2) by simp
  qed
qed

end

section \<open>The tokens in a run\<close>

definition grants :: "('db \<Rightarrow> tables) \<Rightarrow> ('db, 'hw, 'x) process_scheme \<Rightarrow> ('db, 'hw, 'x) process_scheme \<Rightarrow> bool" where
  "grants view s t \<longleftrightarrow> cfg_allowed_client_serial (g_config t) = cfg_allowed_client_serial (g_config s)
     \<and> keeps_allowed (g_config s) (view (db_conn s)) (view (db_conn t))"

lemma keeps_allowed_cong:
  "cfg_allowed_client_serial cfg = cfg_allowed_client_serial cfg' \<Longrightarrow> keeps_allowed cfg = keeps_allowed cfg'"
  by (simp add: keeps_allowed_def config_is_client_allowed_def fun_eq_iff)

lemma grants_rel: "reflp (grants view)" "transp (grants view)"
proof -
  show "reflp (grants view)" using reflpD [OF keeps_allowed_rel(1)] by (auto simp: grants_def intro!: reflpI)
  show "transp (grants view)" unfolding grants_def
    by (rule transpI) (metis keeps_allowed_cong transpD [OF keeps_allowed_rel(2)])
qed

lemma books_grants: "keeps_books view s t \<Longrightarrow> grants view s t"
  by (simp add: keeps_books_def same_outline_def on_view_def same_books_def grants_def keeps_allowed_def)

lemma books_grants_io: "state_io_rel (keeps_books view) m \<Longrightarrow> state_io_rel (grants view) m"
  by (auto simp: state_io_rel_def intro: books_grants split: prod.splits)

lemma grants_modify:
  "(\<And>s. g_config (f s) = g_config s \<and> db_conn (f s) = db_conn s) \<Longrightarrow> state_io_rel (grants view) (modify f)"
  by (rule io_modify) (simp add: grants_def keeps_allowed_def)

context sqlite_engine begin

lemma grants_serve: "state_io_rel (grants view :: ('db, 'hw, 'x) process_scheme \<Rightarrow> _) (http_serve A E mem fuel evs)"
  using requests.ok_serve [OF tokens_requests, of A mem fuel evs]
  by (auto simp: state_io_rel_def keeps_tokens_def grants_def split: prod.splits)

lemma grants_stop: "state_io_rel (grants view :: ('db, 'hw, 'x) process_scheme \<Rightarrow> _) (store_shutdown A)"
  by (intro books_grants_io starting.start_core core_shutdown)

lemma grants_close: "state_io_rel (grants view) db_close"
  unfolding db_close_def by (rule grants_modify) simp

lemma grants_run: "state_io_rel (grants view) (run_server A E mem fuel rc net ifaddr stopped bound evs)"
  unfolding run_server_def serve_and_leave_def
  by (intro io_bind io_if io_return grants_rel books_grants_io [OF starting.start_store] grants_serve grants_stop
      grants_close grants_modify) simp_all

lemma main_tokens:
  fixes s :: "('db, 'hw, 'x) process_scheme"
  shows "keeps_allowed (config_load ce) (view (db_conn s))
    (view (db_conn (poststate (main A E mem fuel ce rc net ifaddr stopped bound evs) s)))"
proof -
  let ?s = "s\<lparr>g_config := config_load ce\<rparr>"
  let ?m = "do {
     s \<leftarrow> State_Monad.get;
     opened \<leftarrow> db_open (cfg_db_path (g_config s));
     if \<not> opened then ret (Some 1)
     else do {
       rc' \<leftarrow> db_init_schema E (g_config s);
       if rc' \<noteq> 0 then do { _ \<leftarrow> db_close; ret (Some 1) }
       else run_server A E mem fuel rc net ifaddr stopped bound evs } }"
  have "state_io_rel (grants view) ?m"
    by (intro io_bind io_gets io_if io_return grants_rel books_grants_io [OF books_open] books_grants_io [OF books_schema]
        grants_close grants_run)
  then have "grants view ?s (poststate ?m ?s)" by (rule io_poststateD)
  then show ?thesis by (simp add: grants_def main_def)
qed

text \<open>A run that is stopped before serving writes no transaction and no token.\<close>

lemma stopped_books:
  fixes s :: "('db, 'hw, 'x) process_scheme"
  shows "same_books (view (db_conn s)) (view (db_conn (poststate (main A E mem fuel ce rc net ifaddr True bound evs) s)))"
proof -
  note books = keeps_books_view [OF books_open] keeps_books_view [OF books_schema] keeps_books_view [OF starting.start_store]
    keeps_books_view [OF starting.start_core [OF core_shutdown]]
  have set: "state_io_rel (on_view view same_books) (modify f)" if "\<And>s. db_conn (f s) = db_conn s"
    for f :: "('db, 'hw, 'x) process_scheme \<Rightarrow> ('db, 'hw, 'x) process_scheme"
    by (rule io_modify) (simp add: on_view_def same_books_def that)
  have "state_io_rel (on_view view same_books) (main A E mem fuel ce rc net ifaddr True bound evs :: (('db, 'hw, 'x) process_scheme, _) state)"
    unfolding main_def run_server_def if_True db_close_def
    by (intro io_bind io_gets io_if io_return reflp_on_view transp_on_view books.rel_refl books.rel_trans books set) simp_all
  then show ?thesis using io_poststateD [of "on_view view same_books"] by (fastforce simp: on_view_def)
qed

end

end
