(* ===== verification/Tse_Log.thy ===== *)
theory Tse_Log
  imports Tse_Http Tse_Json Tse_Time Tse_Config
begin

text \<open>
  \<^verbatim>\<open>c/src/log.c\<close>, and what the handlers log of a request (\<^verbatim>\<open>log_request\<close> and
  \<^verbatim>\<open>log_response\<close> of \<^verbatim>\<open>c/src/handlers.c\<close>).

  A message is the text \<^verbatim>\<open>vfprintf\<close> makes of the format and its arguments.  What leaves the logger,
  the lines it prints and the functions it calls, is kept in order in \<open>lg_out\<close>.
\<close>

section \<open>Levels\<close>

datatype log_level = LOG_TRACE | LOG_DEBUG | LOG_INFO | LOG_WARN | LOG_ERROR | LOG_FATAL

fun level_number :: "log_level \<Rightarrow> nat" where
  "level_number LOG_TRACE = 0" | "level_number LOG_DEBUG = 1" | "level_number LOG_INFO = 2"
| "level_number LOG_WARN = 3" | "level_number LOG_ERROR = 4" | "level_number LOG_FATAL = 5"

lemma level_number_inject [simp]: "level_number a = level_number b \<longleftrightarrow> a = b"
  by (cases a; cases b; simp)

instantiation log_level :: linorder
begin

definition less_eq_log_level :: "log_level \<Rightarrow> log_level \<Rightarrow> bool" where
  "less_eq_log_level a b \<longleftrightarrow> level_number a \<le> level_number b"

definition less_log_level :: "log_level \<Rightarrow> log_level \<Rightarrow> bool" where
  "less_log_level a b \<longleftrightarrow> level_number a < level_number b"

instance
  by standard (auto simp: less_eq_log_level_def less_log_level_def)

end

definition log_level_string :: "log_level \<Rightarrow> string" where
  "log_level_string l = [''TRACE'', ''DEBUG'', ''INFO'', ''WARN'', ''ERROR'', ''FATAL''] ! level_number l"

section \<open>The logger\<close>

datatype sink = Stdout | File nat

text \<open>A callback is \<^verbatim>\<open>file_callback\<close> or another function of the caller, known by a number.\<close>

datatype log_fn = File_callback | Other_callback nat

record callback =
  cb_fn :: log_fn
  cb_udata :: sink
  cb_level :: log_level

datatype log_io = Lock_fn bool | Prints sink string | Calls nat sink log_level tm string

text \<open>A slot of \<^verbatim>\<open>callbacks\<close> whose function is \<^verbatim>\<open>NULL\<close> is \<open>None\<close>; \<open>lg_lock\<close>: a lock function is set.\<close>

record logger = os +
  lg_lock :: bool
  lg_level :: log_level
  lg_indent :: nat
  lg_quiet :: bool
  lg_callbacks :: "callback option list"
  lg_out :: "log_io list"

definition MAX_CALLBACKS :: nat where "MAX_CALLBACKS = 32"

type_synonym ('a, 'r) lprog = "('a logger_scheme, 'r) state"

definition emit :: "log_io \<Rightarrow> ('a, unit) lprog" where
  "emit e = modify (\<lambda>s. s\<lparr>lg_out := lg_out s @ [e]\<rparr>)"

definition log_set_lock :: "bool \<Rightarrow> ('a, unit) lprog" where
  "log_set_lock b = modify (\<lambda>s. s\<lparr>lg_lock := b\<rparr>)"

definition log_set_level :: "log_level \<Rightarrow> ('a, unit) lprog" where
  "log_set_level l = modify (\<lambda>s. s\<lparr>lg_level := l\<rparr>)"

definition log_set_quiet :: "bool \<Rightarrow> ('a, unit) lprog" where
  "log_set_quiet b = modify (\<lambda>s. s\<lparr>lg_quiet := b\<rparr>)"

text \<open>\<^verbatim>\<open>lock\<close> and \<^verbatim>\<open>unlock\<close>.\<close>

definition call_lock :: "bool \<Rightarrow> ('a, unit) lprog" where
  "call_lock b = do { s \<leftarrow> State_Monad.get; if lg_lock s then emit (Lock_fn b) else ret () }"

definition log_set_indent :: "int \<Rightarrow> ('a, unit) lprog" where
  "log_set_indent spaces = do {
     _ \<leftarrow> call_lock True;
     _ \<leftarrow> modify (\<lambda>s. s\<lparr>lg_indent := nat (if spaces < 0 then 0 else if 32 < spaces then 32 else spaces)\<rparr>);
     call_lock False }"

definition log_add_callback :: "log_fn option \<Rightarrow> sink \<Rightarrow> log_level \<Rightarrow> ('a, int) lprog" where
  "log_add_callback fn udata level = do {
     s \<leftarrow> State_Monad.get;
     let i = length (takeWhile (\<lambda>c. c \<noteq> None) (take MAX_CALLBACKS (lg_callbacks s)));
     if i < MAX_CALLBACKS then do {
       _ \<leftarrow> modify (\<lambda>s. s\<lparr>lg_callbacks := (lg_callbacks s)
              [i := map_option (\<lambda>f. \<lparr>cb_fn = f, cb_udata = udata, cb_level = level\<rparr>) fn]\<rparr>);
       ret 0 }
     else ret (-1) }"

definition log_add_fp :: "sink \<Rightarrow> log_level \<Rightarrow> ('a, int) lprog" where
  "log_add_fp fp level = log_add_callback (Some File_callback) fp level"

section \<open>Lines\<close>

definition clock_text :: "tm \<Rightarrow> string" where
  "clock_text t = show_pad 2 (nat (tm_hour t)) @ '':'' @ show_pad 2 (nat (tm_min t)) @ '':'' @ show_pad 2 (nat (tm_sec t))"

definition date_text :: "tm \<Rightarrow> string" where
  "date_text t = show_int (tm_year t + 1900) @ ''-'' @ show_pad 2 (nat (tm_mon t + 1)) @ ''-'' @ show_pad 2 (nat (tm_mday t))"

text \<open>\<^verbatim>\<open>%-5s\<close>; then, after a space, the indentation, the message and the end of the line.\<close>

definition padded_level :: "log_level \<Rightarrow> string" where
  "padded_level level = log_level_string level @ replicate (5 - length (log_level_string level)) CHR '' ''"

definition line_rest :: "nat \<Rightarrow> string \<Rightarrow> string" where
  "line_rest indent msg = '' '' @ replicate indent CHR '' '' @ msg @ [LF]"

text \<open>The level is coloured on standard output: the Makefile defines \<^verbatim>\<open>LOG_USE_COLOR\<close>.\<close>

definition level_color :: "log_level \<Rightarrow> string" where
  "level_color l = CHR 0x1B # [''[94m'', ''[36m'', ''[32m'', ''[33m'', ''[31m'', ''[35m''] ! level_number l"

definition stdout_callback :: "nat \<Rightarrow> tm \<Rightarrow> log_level \<Rightarrow> string \<Rightarrow> string" where
  "stdout_callback indent t level msg =
     clock_text t @ '' '' @ level_color level @ padded_level level @ CHR 0x1B # ''[0m'' @ line_rest indent msg"

definition file_callback :: "nat \<Rightarrow> tm \<Rightarrow> log_level \<Rightarrow> string \<Rightarrow> string" where
  "file_callback indent t level msg = date_text t @ '' '' @ clock_text t @ '' '' @ padded_level level @ line_rest indent msg"

section \<open>Logging\<close>

text \<open>\<^verbatim>\<open>ev->time\<close> is read once, at the first sink.\<close>

definition init_event :: "tm option \<Rightarrow> ('a, tm) lprog" where
  "init_event ev_time = (case ev_time of
     Some t \<Rightarrow> ret t
   | None \<Rightarrow> do { now \<leftarrow> time_now; s \<leftarrow> State_Monad.get; ret (gmtime (now + os_utc_offset s now)) })"

definition deliver :: "nat \<Rightarrow> tm \<Rightarrow> log_level \<Rightarrow> string \<Rightarrow> callback \<Rightarrow> log_io" where
  "deliver indent t level msg cb = (case cb_fn cb of
     File_callback \<Rightarrow> Prints (cb_udata cb) (file_callback indent t level msg)
   | Other_callback k \<Rightarrow> Calls k (cb_udata cb) level t msg)"

fun run_callbacks :: "log_level \<Rightarrow> string \<Rightarrow> callback option list \<Rightarrow> tm option \<Rightarrow> ('a, unit) lprog" where
  "run_callbacks level msg (Some cb # cbs) ev_time =
     (if cb_level cb \<le> level then do {
        t \<leftarrow> init_event ev_time;
        s \<leftarrow> State_Monad.get;
        _ \<leftarrow> emit (deliver (lg_indent s) t level msg cb);
        run_callbacks level msg cbs (Some t) }
      else run_callbacks level msg cbs ev_time)"
| "run_callbacks level msg cbs ev_time = ret ()"

definition log_log :: "log_level \<Rightarrow> string \<Rightarrow> ('a, unit) lprog" where
  "log_log level msg = do {
     _ \<leftarrow> call_lock True;
     s \<leftarrow> State_Monad.get;
     ev_time \<leftarrow> (if \<not> lg_quiet s \<and> lg_level s \<le> level then do {
                   t \<leftarrow> init_event None;
                   _ \<leftarrow> emit (Prints Stdout (stdout_callback (lg_indent s) t level msg));
                   ret (Some t) }
                 else ret None);
     _ \<leftarrow> run_callbacks level msg (take MAX_CALLBACKS (lg_callbacks s)) ev_time;
     call_lock False }"

definition log_info :: "string \<Rightarrow> ('a, unit) lprog" where
  "log_info msg = log_log LOG_INFO msg"

fun log_lines :: "string list \<Rightarrow> ('a, unit) lprog" where
  "log_lines [] = ret ()"
| "log_lines (m # ms) = do { _ \<leftarrow> log_info m; log_lines ms }"

text \<open>\<^verbatim>\<open>main\<close>'s lock function locks and unlocks a mutex.\<close>

definition log_setup :: "('a, unit) lprog" where
  "log_setup = do { _ \<leftarrow> log_set_lock True; log_set_level LOG_TRACE }"

section \<open>What is logged of a request\<close>

text \<open>The fields of a query or a form, each on a line.\<close>

definition pair_line :: "string \<Rightarrow> string" where
  "pair_line pair = (case split_at CHR ''='' pair of
     Some (key, val) \<Rightarrow> ''  '' @ key @ '': '' @ val
   | None \<Rightarrow> ''  '' @ pair @ '':'')"

definition log_query_params :: "string \<Rightarrow> string list" where
  "log_query_params url_path = (let q = dropWhile (\<lambda>c. c \<noteq> CHR ''?'') url_path in
     if tl q = [] then []
     else (''query: '' @ tl q) # map pair_line (tokens (\<lambda>c. c = CHR ''&'') (util_strlcpy (Some (tl q)) 512)))"

definition log_form_body :: "string \<Rightarrow> string list" where
  "log_form_body body = (if body = [] then []
     else map pair_line (tokens (\<lambda>c. c = CHR ''&'') (util_strlcpy (Some body) HTTP_MAX_BODY)))"

definition log_json_body_extras :: "string \<Rightarrow> string list" where
  "log_json_body_extras body = (case json_get_string body ''processData'' 4096 of
     None \<Rightarrow> []
   | Some process_data \<Rightarrow>
       if process_data = [] then []
       else (case util_base64_decode process_data 4096 of
          Some bs \<Rightarrow> if bs \<noteq> [] then [''processData (decoded): '' @ c_str (text_of_bytes bs)]
                     else [''processData (decoded): [not base64 UTF-8]'']
        | None \<Rightarrow> [''processData (decoded): [not base64 UTF-8]'']))"

definition log_request :: "config \<Rightarrow> http_request \<Rightarrow> ('a, unit) lprog" where
  "log_request cfg req = (if \<not> cfg_log_requests cfg then ret () else do {
     _ \<leftarrow> log_set_indent 0;
     _ \<leftarrow> log_info ([CHR 0xE2, CHR 0x94, CHR 0x80, CHR 0xE2, CHR 0x94, CHR 0x80] @ '' '' @ rq_method req @ '' '' @ rq_path req);
     _ \<leftarrow> log_set_indent 2;
     _ \<leftarrow> log_lines (log_query_params (rq_path req));
     if rq_body_len req = 0 then ret ()
     else do {
       let body = c_str (rq_body req);
       let form = (case http_get_header req ''Content-Type'' of
          None \<Rightarrow> False | Some ct \<Rightarrow> str_str ct ''application/x-www-form-urlencoded'' \<noteq> None);
       _ \<leftarrow> log_info (''body ('' @ show_nat (rq_body_len req) @ '' bytes): '' @ body);
       if form then log_lines (''form fields:'' # log_form_body body)
       else if prefix ''{'' body then log_lines (log_json_body_extras body)
       else ret () } })"

text \<open>A certificate in the answer is cut to ten characters.\<close>

definition certificate_key :: string where
  "certificate_key = [DQ] @ ''leafCertificate'' @ [DQ] @ '':'' @ [DQ]"

definition cut_certificate :: "string \<Rightarrow> string" where
  "cut_certificate buf = (case str_str buf certificate_key of
     None \<Rightarrow> buf
   | Some q \<Rightarrow> let p = drop (length certificate_key) q; cert = takeWhile (\<lambda>c. c \<noteq> DQ) p in
       if DQ \<in> set p \<and> 10 < length cert
       then take (length buf - length p) buf @ take 10 p @ [DQ] @ tl (drop (length cert) p)
       else buf)"

definition response_message :: "int \<Rightarrow> string option \<Rightarrow> string" where
  "response_message status body = [CHR 0xE2, CHR 0x86, CHR 0x92] @ '' '' @ show_int status @
     (case body of
        None \<Rightarrow> []
      | Some b \<Rightarrow> if b = [] then [] else '' '' @ cut_certificate (util_strlcpy (Some b) HTTP_MAX_BODY))"

definition log_response :: "config \<Rightarrow> int \<Rightarrow> string option \<Rightarrow> ('a, unit) lprog" where
  "log_response cfg status body = do {
     _ \<leftarrow> (if cfg_log_requests cfg then log_info (response_message status body) else ret ());
     log_set_indent 0 }"

section \<open>Facts\<close>

lemma level_string_length: "length (log_level_string l) \<le> 5"
  by (cases l) (simp_all add: log_level_string_def)

text \<open>The callbacks that are registered: those before the first free slot.\<close>

definition registered :: "'a logger_scheme \<Rightarrow> callback list" where
  "registered s = map the (takeWhile (\<lambda>c. c \<noteq> None) (take MAX_CALLBACKS (lg_callbacks s)))"

definition wanted :: "'a logger_scheme \<Rightarrow> log_level \<Rightarrow> callback list" where
  "wanted s level = filter (\<lambda>cb. cb_level cb \<le> level) (registered s)"

definition event_time :: "'a logger_scheme \<Rightarrow> tm" where
  "event_time s = (let now = os_time s (os_ticks s) in gmtime (now + os_utc_offset s now))"

lemma run_callbacks_known:
  "run_state (run_callbacks level msg cbs (Some t)) s = ((), s\<lparr>lg_out := lg_out s @
     map (deliver (lg_indent s) t level msg) (filter (\<lambda>cb. cb_level cb \<le> level) (map the (takeWhile (\<lambda>c. c \<noteq> None) cbs)))\<rparr>)"
proof (induction cbs arbitrary: s)
  case (Cons cb cbs)
  then show ?case by (cases cb) (simp_all add: init_event_def emit_def)
qed simp

lemma run_callbacks_new:
  "run_state (run_callbacks level msg cbs None) s =
    (let ws = filter (\<lambda>cb. cb_level cb \<le> level) (map the (takeWhile (\<lambda>c. c \<noteq> None) cbs)) in
     ((), s\<lparr>lg_out := lg_out s @ map (deliver (lg_indent s) (event_time s) level msg) ws,
       os_ticks := os_ticks s + (if ws = [] then 0 else 1)\<rparr>))"
proof (induction cbs arbitrary: s)
  case (Cons cb cbs)
  then show ?case
    by (cases cb) (simp_all add: init_event_def emit_def time_now_def event_time_def run_callbacks_known Let_def)
qed simp

text \<open>Callbacks are registered in their order until the slots are used up.\<close>

lemma registered_added:
  assumes "length (lg_callbacks s) = MAX_CALLBACKS"
  shows "run_state (log_add_callback (Some f) udata level) s = (r, t) \<Longrightarrow>
    (if length (registered s) < MAX_CALLBACKS
     then r = 0 \<and> (\<exists>more. registered t = registered s @ \<lparr>cb_fn = f, cb_udata = udata, cb_level = level\<rparr> # more)
     else r = -1 \<and> t = s)"
proof -
  assume run: "run_state (log_add_callback (Some f) udata level) s = (r, t)"
  let ?cbs = "lg_callbacks s"
  let ?used = "takeWhile (\<lambda>c. c \<noteq> None) ?cbs"
  let ?i = "length ?used"
  let ?cb = "\<lparr>cb_fn = f, cb_udata = udata, cb_level = level\<rparr>"
  have reg: "registered s = map the ?used" using assms by (simp add: registered_def)
  show ?thesis
  proof (cases "?i < MAX_CALLBACKS")
    case True
    then have "?cbs[?i := Some ?cb] = ?used @ Some ?cb # drop (Suc ?i) ?cbs"
      using assms by (simp add: upd_conv_take_nth_drop takeWhile_eq_take [symmetric])
    moreover have "takeWhile (\<lambda>c. c \<noteq> None) (?used @ cs) = ?used @ takeWhile (\<lambda>c. c \<noteq> None) cs" for cs
      by (rule takeWhile_append2) (auto dest: set_takeWhileD)
    ultimately show ?thesis
      using run True assms reg by (auto simp: log_add_callback_def registered_def Let_def)
  next
    case False
    then show ?thesis using run assms reg by (auto simp: log_add_callback_def Let_def)
  qed
qed

text \<open>The answer's certificate is cut to ten characters in the log.\<close>

lemma certificate_cut:
  assumes "\<not> sublist certificate_key (pre @ butlast certificate_key)" "DQ \<notin> set cert" "10 < length cert"
    and "length (pre @ certificate_key @ cert @ DQ # post) < HTTP_MAX_BODY"
  shows "response_message status (Some (pre @ certificate_key @ cert @ DQ # post))
    = [CHR 0xE2, CHR 0x86, CHR 0x92] @ '' '' @ show_int status @ '' '' @ pre @ certificate_key @ take 10 cert @ DQ # post"
proof -
  let ?b = "pre @ certificate_key @ cert @ DQ # post"
  have "str_str ?b certificate_key = Some (certificate_key @ cert @ DQ # post)"
    using str_str_first [OF assms(1), of "cert @ DQ # post"] by simp
  moreover have "takeWhile (\<lambda>c. c \<noteq> DQ) (cert @ DQ # post) = cert"
    using assms(2) by (auto simp: takeWhile_tail)
  ultimately have "cut_certificate ?b = pre @ certificate_key @ take 10 cert @ DQ # post"
    using assms(3) by (simp add: cut_certificate_def Let_def)
  moreover have "fit HTTP_MAX_BODY ?b = ?b" using assms(4) by (simp add: fit_def)
  moreover have "?b \<noteq> []" by simp
  ultimately show ?thesis by (simp add: response_message_def)
qed

text \<open>
  C40. A message goes once to every sink that wants its level and to no other: standard output, unless
  it is silenced, and then the registered callbacks in their order, all with the same time, read at
  most once, between the calls of the lock function; nothing else of the logger changes.
\<close>

theorem log_delivered:
  "poststate (log_log level msg) s = s\<lparr>lg_out := lg_out s
      @ (if lg_lock s then [Lock_fn True] else [])
      @ (if \<not> lg_quiet s \<and> lg_level s \<le> level
         then [Prints Stdout (stdout_callback (lg_indent s) (event_time s) level msg)] else [])
      @ map (deliver (lg_indent s) (event_time s) level msg) (wanted s level)
      @ (if lg_lock s then [Lock_fn False] else []),
     os_ticks := os_ticks s + (if \<not> lg_quiet s \<and> lg_level s \<le> level then 1 else if wanted s level = [] then 0 else 1)\<rparr>"
  by (simp add: log_log_def call_lock_def emit_def init_event_def time_now_def event_time_def wanted_def registered_def
      run_callbacks_known run_callbacks_new Let_def)

end
