(* ===== verification/Spec2Isabelle.thy ===== *)
theory Spec2Isabelle
  imports Tse_Json Tse_Time Tse_Config Tse_Db Tse_Conn_Props Tse_Worker Tse_Whole Tse_Log
begin

text \<open>
  A model of cloudtse (\<^verbatim>\<open>c/\<close>), a server that gives cash registers a technical security device (TSE,
  BSI TR-03153) over HTTP.  It keeps a journal of transactions, each started and finished under a
  number of its own and a signature counter; the signatures come from a Swissbit device driven by the
  vendor's WormAPI library, or, without one, from a simulator over SQLite.

  \<^bold>\<open>The program.\<close>  \<^verbatim>\<open>main\<close> loads the configuration, opens the database, starts the TSE client (which
  loads the library, finds the block device, opens the store, provisions, self-tests and sets the
  clock, and starts a background thread) and a worker thread, and then serves one connection after
  the other.  \<^verbatim>\<open>handle_client\<close> cuts the received bytes into requests, \<^verbatim>\<open>handlers_route\<close> authorises
  and dispatches them, the handlers read JSON fields, call the store and format the answer; the store
  hands device work to the worker, and the TSE client makes the library calls under its lock, which
  it shares with the background thread.

  \<^bold>\<open>State.\<close>  A function that touches globals is a program of \<^theory_text>\<open>State_Monad\<close> over a chain of
  extensible records, each adding what a layer owns: \<open>os\<close> (clock and random bytes, by the number of
  the reading), \<open>dbs\<close> (the connection), \<open>server\<close> (configuration and the globals of the TSE client,
  with the trace of library calls as a ghost), \<open>host\<close> (block devices), \<open>station\<close> (the dynamic
  loader and the background thread), \<open>process\<close> (the file system and \<^verbatim>\<open>g_db\<close>).  A lower layer is
  polymorphic in the rest, so its lemmas hold in every later one.  Buffers are lists cut at the size
  the code passes; machine integers are words, or integers reduced where the code converts.

  \<^bold>\<open>Parameters.\<close>  SQLite is an engine \<open>E\<close> that runs one statement (\<open>sql\<close>, one constructor per SQL
  text of the source); the laws it is used by are the locales \<open>sqlite_engine\<close> (a statement has its
  effect or fails and changes nothing) and \<open>sqlite_reliable\<close> (none fails), which \<open>sql_exec\<close> and a
  version that fails on demand satisfy.  WormAPI is a record \<open>A\<close> of functions on an opaque device,
  with no law assumed.  Sockets, \<^verbatim>\<open>pread\<close>, \<^verbatim>\<open>pwrite\<close> and \<^verbatim>\<open>accept\<close> are lists of outcomes;
  the environment, readable files, \<^verbatim>\<open>SHA256\<close>, the loader's symbols and \<^verbatim>\<open>pthread_create\<close> are
  arguments or fields.

  \<^bold>\<open>Theories.\<close>
  \<^item> \<open>Tse_Prelude\<close>: C strings, conversions, frames (\<open>state_io_rel\<close>) and weakest preconditions (\<open>wp\<close>)
    of the state monad.  \<open>Tse_Util\<close>, \<open>Tse_Time\<close> (\<^verbatim>\<open>util.c\<close>), \<open>Tse_Json\<close> (\<^verbatim>\<open>json.c\<close>),
    \<open>Tse_Config\<close> (\<^verbatim>\<open>config.c\<close>), \<open>Tse_Network\<close> (\<^verbatim>\<open>network.c\<close>), with their round trips and bounds.
  \<^item> \<open>Tse_Db\<close> (\<^verbatim>\<open>db.c\<close>): settings, counters, tokens, schema.
  \<^item> \<open>Tse_Types\<close>, \<open>Tse_Worm\<close> (\<^verbatim>\<open>tse_worm.c\<close> from the library calls to transactions and export),
    \<open>Tse_Worm_Safety\<close> (what they do to the trace: sessions closed, bounded attempts, lock free).
  \<^item> \<open>Tse_Store\<close> (\<^verbatim>\<open>store.c\<close>); \<open>Tse_Journal\<close> (locale \<open>tx_journal\<close>: starts and finishes in any
    history, whatever statements fail); \<open>Tse_Frames\<close> (locales \<open>table_frame\<close>, \<open>store_frame\<close>);
    \<open>Tse_Fiscal\<close> (the fiscal journal, an abstract specification, and the refinement to it).
  \<^item> \<open>Tse_Http\<close>, \<open>Tse_Http_Props\<close> (parsing and framing of \<^verbatim>\<open>http.c\<close>), \<open>Tse_Response\<close>
    (\<^verbatim>\<open>response.c\<close>), \<open>Tse_Handlers\<close> and \<open>Tse_Api\<close> (\<^verbatim>\<open>handlers.c\<close>: authorisation, refinement of
    the fiscal journal by the routes, the life of a receipt; locale \<open>api_frame\<close>), \<open>Tse_Conn\<close> and
    \<open>Tse_Conn_Props\<close> (the connection and accept loops of \<^verbatim>\<open>http.c\<close>, the export stream).
  \<^item> \<open>Tse_Worker\<close> (\<^verbatim>\<open>tse_worker.c\<close>): a step relation over callers, worker and shutdown.
  \<^item> \<open>Tse_Block\<close>, \<open>Tse_Block_Props\<close> (\<^verbatim>\<open>tse_block.c\<close>, \<^verbatim>\<open>tse_worm_director.c\<close>, the search for
    the device in \<^verbatim>\<open>tse_worm.c\<close>).
  \<^item> \<open>Tse_Worm_Init\<close>, \<open>Tse_Worm_Start\<close> (start, provisioning, background thread and shutdown of
    \<^verbatim>\<open>tse_worm.c\<close>, \<^verbatim>\<open>store_init\<close>, \<^verbatim>\<open>store_shutdown\<close>): an active client has what its calls need,
    in any order of operations (\<open>client_reaches\<close>).
  \<^item> \<open>Tse_Log\<close> (\<^verbatim>\<open>log.c\<close>, and what \<^verbatim>\<open>handlers.c\<close> logs of a request and its answer): who
    gets a message, in which order and form.
  \<^item> \<open>Tse_Serving\<close> (what every request keeps: the locales \<open>reading\<close>, \<open>requests\<close>, \<open>serving\<close> and
    \<open>client_frame\<close>), \<open>Tse_Start_Frame\<close> (what starting and stopping keep: locale \<open>start_frame\<close>),
    \<open>Tse_Main\<close> (\<^verbatim>\<open>main.c\<close>, opening and closing the database) and \<open>Tse_Whole\<close> (the receipts and the
    tokens through a run of the whole server, from the start to the shutdown).
  \<^item> The root theory: properties of the whole server.

  \<^bold>\<open>Threads.\<close>  An operation of the TSE client is one step, because it runs under \<^verbatim>\<open>g_worm_mu\<close>;
  \<open>client_step\<close> interleaves operations and rounds of the background thread freely.
  \<^verbatim>\<open>tse_worm_fill_info\<close> does not take the lock, so in the program it can overlap a round; the model
  has it as a step of its own.  The handlers are run without the thread between their calls; the
  worker they call is \<open>run_job\<close>, whose contract \<open>Tse_Worker\<close> proves for the threads.

  \<^bold>\<open>Fuel and bounds.\<close>  \<open>handle_client\<close> takes a unit for each read or request.  More fuel than arrivals
  and bytes is enough while the peer keeps its side open (\<open>connection_ends\<close>), more than arrivals and
  requests when the requests are well-formed (\<open>requests_in_order\<close>); a peer that closes in the middle
  of a request exhausts any fuel, because the program loops (\<open>half_request_spins\<close>).
  \<open>sync_rounds\<close>, the endless loop of the background thread, takes a unit for each round; its
  properties are about a round.  Every other loop terminates on its data.

  \<^bold>\<open>When the properties hold.\<close>  Those of the journal and of the life of a receipt (\<open>finished_once\<close>,
  \<open>numbers_never_reused\<close>, \<open>receipt_lifecycle\<close>, \<open>receipt_started\<close>, \<open>receipt_finished\<close>, the refinements of
  \<open>Tse_Fiscal\<close>, \<open>receipts_survive\<close>) are about the simulator (\<open>w_active\<close> false): with a TSE the device
  numbers and signs, and the journal follows it (\<open>hardware_journal\<close>).  What is said with \<open>sqlite_engine\<close>
  holds whatever statements fail; \<open>sqlite_reliable\<close> asks that none does.  \<open>has_entropy\<close>: the random bytes
  of a signature can be had.  \<open>can_sync\<close>: a TimeAdmin PIN is configured and the library has the calls of a
  synchronisation.

  \<^bold>\<open>Logging.\<close>  The logger has a state of its own (\<open>logger\<close>), which nothing else of the program reads,
  so the programs of the other theories leave the calls of \<^verbatim>\<open>log_info\<close> and its like out;
  \<open>log_request\<close> and \<open>log_response\<close> stand beside \<open>handlers_route\<close>, which calls them first and last, and
  the lines of \<^verbatim>\<open>main\<close>'s banner are kept in \<open>printed\<close>.

  \<^bold>\<open>Not modelled.\<close>  The debug and error lines between, \<^verbatim>\<open>util_monotonic_ms\<close> (read for them only),
  the creation of sockets, timeouts and the draining of a closed socket in \<^verbatim>\<open>http.c\<close> (the outcome
  lists stand for them), the signal handlers (a stop is one of the outcomes), the PRAGMAs of
  \<^verbatim>\<open>db_open\<close> (nothing the program does depends on them), and the C++ object layout behind the
  director.  A buffer the code may read uninitialised holds an arbitrary text of the state
  (\<open>w_stack\<close>).
\<close>

section \<open>Properties of the whole server\<close>

text \<open>
  C1. No receipt is lost or changed, however the server is used: whatever bytes clients send, in
  whatever pieces and order, whatever statements of the database fail, and whenever the run is looked
  at (the fuel is arbitrary), a run of the process in which the simulator signs, because it is
  configured or because the device could not be brought up and the banner does not announce it,
  leaves every transaction that was in the database there, with its client, its external id and its
  start, and a finished one exactly as it was.
\<close>

theorem receipts_survive:
  fixes s :: "('db, 'hw, 'x) process_scheme"
  assumes "sqlite_engine E view" and "\<not> w_active s" and "journal view s n = Some x"
    and "t = poststate (main A E mem fuel ce rc net ifaddr stopped bound evs) s"
    and "cfg_tse_mode (config_load ce) = TSE_MODE_SIM \<or> hardware_line \<notin> set (printed t)"
  shows "\<exists>y. journal view t n = Some y \<and> same_row x y \<and> (\<not> open_row x \<longrightarrow> y = x)"
  using sqlite_engine.main_receipts [OF assms(1,2,4,5)] assms(3) by (simp add: receipts_kept_def)

text \<open>
  C2. Only allowed clients get tokens: through a whole run of the process, in either mode, whatever
  bytes arrive on whatever connections and whatever statements fail, a token that is stored afterwards
  was stored in the same way before the run, or belongs to a client that the configuration of this run
  allows.  A token from before the run may belong to a client that is not allowed any more.
\<close>

theorem new_tokens_allowed:
  fixes s :: "('db, 'hw, 'x) process_scheme"
  assumes "sqlite_engine E view"
    and "map_of (t_tokens (view (db_conn (poststate (main A E mem fuel ce rc net ifaddr stopped bound evs) s)))) tok = Some row"
  shows "map_of (t_tokens (view (db_conn s))) tok = Some row
    \<or> config_is_client_allowed (config_load ce) (Some (tok_client row))"
  using sqlite_engine.main_tokens [OF assms(1), of ce s A mem fuel rc net ifaddr stopped bound evs] assms(2)
  by (simp add: keeps_allowed_def)

section \<open>Examples\<close>

text \<open>A finished receipt, and a client that sends half of a request one byte at a time.\<close>

definition sample_row :: tx_row where
  "sample_row = \<lparr>x_client = ''K1'', x_external = None, x_process_type = ''Kassenbeleg-V1'', x_process_data = [],
     x_state = ''FINISHED'', x_time_start = [], x_time_end = Some [], x_signature_counter = 2, x_signature_value = []\<rparr>"

definition sample_client :: accepting where
  "sample_client = Client (replicate CLIENT_BUFFER NUL) (sample_reader ''PUT /transaction/1'' False) sample_writer"

lemma empty_env_simulates: "cfg_tse_mode (config_load empty_env) = TSE_MODE_SIM"
  by (simp add: config_load_def load_leaf_def empty_env_def env_or_def Let_def split: option.split prod.split)

theorem receipts_survive_witness:
  "journal (\<lambda>t. t) (poststate (main sample_api sql_exec True 100 empty_env 0 (\<lambda>_. sample_peer) None False True [sample_client])
     (sample_process\<lparr>w_active := False, db_conn := fresh_tables\<lparr>t_transactions := [(1, sample_row)]\<rparr>\<rparr>)) 1 = Some sample_row"
proof -
  let ?s = "sample_process\<lparr>w_active := False, db_conn := fresh_tables\<lparr>t_transactions := [(1, sample_row)]\<rparr>\<rparr>"
  have "journal (\<lambda>t. t) ?s 1 = Some sample_row" "\<not> open_row sample_row"
    by (simp_all add: journal_def open_row_def sample_row_def)
  with receipts_survive [OF mem.engine.sqlite_engine_axioms _ _ refl disjI1 [OF empty_env_simulates], of ?s 1 sample_row
      sample_api True 100 0 "\<lambda>_. sample_peer" None False True "[sample_client]"]
  show ?thesis by auto
qed

text \<open>A token of a client that the environment does not allow any more, and a run that is stopped before serving.\<close>

definition sample_env :: config_env where
  "sample_env = empty_env\<lparr>ce_env := [''CLOUDTSE_ALLOWED_CLIENT_SERIAL'' \<mapsto> ''K1'']\<rparr>"

definition sample_token :: token_row where
  "sample_token = \<lparr>tok_client = ''K2'', tok_issued = [], tok_expires = []\<rparr>"

theorem new_tokens_allowed_witness:
  "map_of (t_tokens (db_conn (sample_process\<lparr>db_conn := fresh_tables\<lparr>t_tokens := [(''ab'', sample_token)]\<rparr>\<rparr>))) ''ab'' = Some sample_token
   \<or> config_is_client_allowed (config_load sample_env) (Some (tok_client sample_token))"
proof (rule new_tokens_allowed [OF mem.engine.sqlite_engine_axioms])
  let ?s = "sample_process\<lparr>db_conn := fresh_tables\<lparr>t_tokens := [(''ab'', sample_token)]\<rparr>\<rparr>"
  show "map_of (t_tokens (db_conn (poststate (main sample_api sql_exec True 0 sample_env 0 (\<lambda>_. sample_peer) None True True [])
      ?s))) ''ab'' = Some sample_token"
    using mem.engine.stopped_books [of ?s sample_api True 0 sample_env 0 "\<lambda>_. sample_peer" None True "[]"]
    by (simp add: same_books_def)
qed

end
